(* ===== verification/Prelude.thy ===== *)
theory Prelude
  imports Complex_Main "HOL-Library.Word" "HOL-Library.Sublist"
begin

text \<open>
  Shared vocabulary of the development: the result type of code that can throw, the fact
  collections the component theories extend, and generic lemmas on lists, options and
  insertion-ordered association lists (JavaScript's \<open>Map\<close> and plain objects).
\<close>

named_theorems js_simps "evaluation rules for the modelled JavaScript runtime"
named_theorems frame_simps "fields an operation leaves alone"

section \<open>Results of code that can throw\<close>

type_synonym ('e, 'a) result = "'e + 'a"

fun and_then :: "('e, 'a) result \<Rightarrow> ('a \<Rightarrow> ('e, 'b) result) \<Rightarrow> ('e, 'b) result" where
  "and_then (Inl e) f = Inl e"
| "and_then (Inr a) f = f a"

fun fold_result :: "('a \<Rightarrow> 's \<Rightarrow> ('e, 's) result) \<Rightarrow> 'a list \<Rightarrow> 's \<Rightarrow> ('e, 's) result" where
  "fold_result f [] s = Inr s"
| "fold_result f (x # xs) s = and_then (f x s) (fold_result f xs)"

fun map_result :: "('a \<Rightarrow> ('e, 'b) result) \<Rightarrow> 'a list \<Rightarrow> ('e, 'b list) result" where
  "map_result f [] = Inr []"
| "map_result f (x # xs) = and_then (f x) (\<lambda>y. and_then (map_result f xs) (\<lambda>ys. Inr (y # ys)))"

lemma and_then_Inr_iff: "and_then r f = Inr b \<longleftrightarrow> (\<exists>a. r = Inr a \<and> f a = Inr b)"
  by (cases r) auto

lemma and_then_Inl_iff:
  "and_then r f = Inl e \<longleftrightarrow> r = Inl e \<or> (\<exists>a. r = Inr a \<and> f a = Inl e)"
  by (cases r) auto

lemma and_then_assoc: "and_then (and_then r f) g = and_then r (\<lambda>a. and_then (f a) g)"
  by (cases r) auto

lemma and_then_cong [fundef_cong]:
  "r = r' \<Longrightarrow> (\<And>a. r' = Inr a \<Longrightarrow> f a = f' a) \<Longrightarrow> and_then r f = and_then r' f'"
  by (cases r') auto

lemma map_result_cong [fundef_cong]:
  "xs = ys \<Longrightarrow> (\<And>x. x \<in> set ys \<Longrightarrow> f x = g x) \<Longrightarrow> map_result f xs = map_result g ys"
proof -
  assume "xs = ys" and "\<And>x. x \<in> set ys \<Longrightarrow> f x = g x"
  then show "map_result f xs = map_result g ys"
    by (induction ys arbitrary: xs) auto
qed

lemma map_result_Inr_length: "map_result f xs = Inr ys \<Longrightarrow> length ys = length xs"
  by (induction xs arbitrary: ys) (auto simp: and_then_Inr_iff)

lemma map_result_total:
  "(\<And>x. x \<in> set xs \<Longrightarrow> f x = Inr (g x)) \<Longrightarrow> map_result f xs = Inr (map g xs)"
  by (induction xs) auto

lemma map_result_exists: "(\<And>x. x \<in> set xs \<Longrightarrow> \<exists>y. f x = Inr y) \<Longrightarrow> \<exists>ys. map_result f xs = Inr ys"
  by (metis map_result_total)

lemma fold_result_append:
  "fold_result f (xs @ ys) s = and_then (fold_result f xs s) (fold_result f ys)"
proof (induction xs arbitrary: s)
  case (Cons x xs)
  have "and_then (f x s) (fold_result f (xs @ ys)) =
    and_then (f x s) (\<lambda>a. and_then (fold_result f xs a) (fold_result f ys))"
    by (rule and_then_cong) (simp_all add: Cons.IH)
  then show ?case by (simp add: and_then_assoc)
qed simp

lemma fold_result_inv:
  assumes "fold_result f xs s = Inr s'" and "P s"
    and "\<And>x s s'. x \<in> set xs \<Longrightarrow> P s \<Longrightarrow> f x s = Inr s' \<Longrightarrow> P s'"
  shows "P s'"
  using assms by (induction xs arbitrary: s) (auto simp: and_then_Inr_iff)

section \<open>Insertion-ordered association lists\<close>

text \<open>
  \<open>Map.prototype.set\<close> replaces the value of a present key in place and appends a new key;
  \<open>get\<close> is \<open>map_of\<close>.
\<close>

fun assoc_set :: "'k \<Rightarrow> 'v \<Rightarrow> ('k \<times> 'v) list \<Rightarrow> ('k \<times> 'v) list" where
  "assoc_set k v [] = [(k, v)]"
| "assoc_set k v ((k', v') # m) = (if k' = k then (k, v) # m else (k', v') # assoc_set k v m)"

definition assoc_del :: "'k \<Rightarrow> ('k \<times> 'v) list \<Rightarrow> ('k \<times> 'v) list" where
  "assoc_del k m = filter (\<lambda>(k', _). k' \<noteq> k) m"

lemma map_of_assoc_set [simp]: "map_of (assoc_set k v m) = (map_of m)(k \<mapsto> v)"
  by (induction k v m rule: assoc_set.induct) (auto simp: fun_eq_iff)

lemma keys_assoc_set:
  "map fst (assoc_set k v m) = (if k \<in> fst ` set m then map fst m else map fst m @ [k])"
  by (induction k v m rule: assoc_set.induct) auto

lemma distinct_assoc_set [intro]:
  "distinct (map fst m) \<Longrightarrow> distinct (map fst (assoc_set k v m))"
  by (auto simp: keys_assoc_set)

lemma map_of_assoc_del [simp]: "map_of (assoc_del k m) = (map_of m)(k := None)"
  by (induction m) (auto simp: assoc_del_def fun_eq_iff)

lemma keys_assoc_del: "map fst (assoc_del k m) = filter (\<lambda>k'. k' \<noteq> k) (map fst m)"
  by (induction m) (auto simp: assoc_del_def)

lemma distinct_assoc_del [intro]:
  "distinct (map fst m) \<Longrightarrow> distinct (map fst (assoc_del k m))"
  by (simp add: keys_assoc_del)

text \<open>
  What the components rely on when they keep data under keys (caches, objects, headers): a lookup
  after an update. The lemmas follow from the two laws alone.
\<close>

locale keyed_store =
  fixes look :: "'m \<Rightarrow> 'k \<Rightarrow> 'v option" and put :: "'k \<Rightarrow> 'v \<Rightarrow> 'm \<Rightarrow> 'm" and new :: 'm
  assumes look_new: "look new k = None"
    and look_put: "look (put k v m) k' = (if k' = k then Some v else look m k')"
begin

lemma look_put_same: "look (put k v m) k = Some v"
  by (simp add: look_put)

lemma look_put_other: "k' \<noteq> k \<Longrightarrow> look (put k v m) k' = look m k'"
  by (simp add: look_put)

lemma look_puts:
  "look (fold (\<lambda>(k, v). put k v) kvs m) k =
     (case map_of (rev kvs) k of Some v \<Rightarrow> Some v | None \<Rightarrow> look m k)"
  by (induction kvs arbitrary: m) (auto simp: look_put map_add_def split: option.split)

lemma look_origin:
  assumes "look (fold (\<lambda>(k, v). put k v) kvs new) k = Some v"
  shows "(k, v) \<in> set kvs"
proof -
  have "map_of (rev kvs) k = Some v"
    using assms by (auto simp: look_puts look_new split: option.splits)
  then show ?thesis by (auto dest: map_of_SomeD)
qed

end

interpretation map_store: keyed_store map_of assoc_set "[]"
  by unfold_locales auto

section \<open>Lists\<close>

lemma find_Some_in: "List.find P xs = Some x \<Longrightarrow> x \<in> set xs \<and> P x"
  by (auto simp: find_Some_iff)

lemma find_None_iff_all: "List.find P xs = None \<longleftrightarrow> (\<forall>x\<in>set xs. \<not> P x)"
  by (auto simp: find_None_iff)

lemma in_set_map_filter: "y \<in> set (List.map_filter f xs) \<longleftrightarrow> (\<exists>x\<in>set xs. f x = Some y)"
  by (induction xs) (auto simp: map_filter_simps split: option.splits)

lemma map_filter_None [simp]: "List.map_filter (\<lambda>_. None) xs = []"
  by (induction xs) (auto simp: map_filter_simps)

text \<open>\<open>Array.prototype.find\<close> returns the first match; an update through the returned reference
  changes that element only.\<close>

fun update_first :: "('a \<Rightarrow> bool) \<Rightarrow> ('a \<Rightarrow> 'a) \<Rightarrow> 'a list \<Rightarrow> 'a list" where
  "update_first P f [] = []"
| "update_first P f (x # xs) = (if P x then f x # xs else x # update_first P f xs)"

lemma length_update_first [simp]: "length (update_first P f xs) = length xs"
  by (induction xs) auto

lemma map_update_first:
  "(\<And>x. g (f x) = g x) \<Longrightarrow> map g (update_first P f xs) = map g xs"
  by (induction xs) auto

lemma update_first_none: "(\<forall>x\<in>set xs. \<not> P x) \<Longrightarrow> update_first P f xs = xs"
  by (induction xs) auto

lemma update_first_id: "(\<And>x. f x = x) \<Longrightarrow> update_first P f xs = xs"
  by (induction xs) auto

lemma set_update_first: "set (update_first P f xs) \<subseteq> set xs \<union> f ` {x \<in> set xs. P x}"
  by (induction xs) auto

lemma find_update_first:
  "(\<And>x. P (f x) = P x) \<Longrightarrow> List.find P (update_first P f xs) = map_option f (List.find P xs)"
  by (induction xs) auto

lemma update_first_map_key:
  assumes "distinct (map key xs)"
  shows "update_first (\<lambda>x. key x = k) f xs = map (\<lambda>x. if key x = k then f x else x) xs"
  using assms
proof (induction xs)
  case (Cons a xs)
  show ?case
  proof (cases "key a = k")
    case True
    with Cons.prems have "\<forall>x\<in>set xs. key x \<noteq> k"
      by (metis distinct.simps(2) imageI list.set_map list.simps(9))
    then have "map (\<lambda>x. if key x = k then f x else x) xs = xs"
      by (intro map_idI) simp
    with True show ?thesis by simp
  qed (use Cons in auto)
qed simp

section \<open>Integer division\<close>

lemma div_bounds:
  assumes "0 < (k::int)"
  shows "k * (a div k) \<le> a" "a < k * (a div k) + k"
proof -
  have "a = k * (a div k) + a mod k" by simp
  moreover have "0 \<le> a mod k" "a mod k < k" using assms by simp_all
  ultimately show "k * (a div k) \<le> a" "a < k * (a div k) + k" by linarith+
qed

end
