(* ===== verification/JsString.thy ===== *)
theory JsString
  imports Prelude
begin

text \<open>
  JavaScript strings: lists of 16-bit code units, so lengths, slices and indices count what the
  language counts. The operations are those the modelled sources call.
\<close>

type_synonym unit16 = "16 word"
type_synonym jsstring = "16 word list"

text \<open>Literals: \<open>js ''abc''\<close>. Units outside ASCII that the sources write are named.\<close>

definition js :: "string \<Rightarrow> jsstring" where
  "js s = map of_char s"

definition em_dash :: jsstring where "em_dash = [0x2014]"
definition en_dash :: jsstring where "en_dash = [0x2013]"
definition ellipsis :: jsstring where "ellipsis = [0x2026]"
definition infinity_sign :: jsstring where "infinity_sign = [0x221E]"

lemma of_char_word_inj: "(of_char c :: 16 word) = of_char d \<longleftrightarrow> c = d"
proof
  assume "(of_char c :: 16 word) = of_char d"
  then have "unat (of_nat (of_char c) :: 16 word) = unat (of_nat (of_char d) :: 16 word)"
    by (simp add: of_char_def)
  moreover have "(of_char c :: nat) < 2 ^ 16" "(of_char d :: nat) < 2 ^ 16"
    using nat_of_char_less_256 [of c] nat_of_char_less_256 [of d] by (simp_all del: nat_of_char_less_256)
  ultimately have "(of_char c :: nat) = of_char d"
    by (simp add: unsigned_of_nat take_bit_nat_eq_self)
  then show "c = d" by simp
qed simp

lemma js_eq_iff [simp]: "js s = js t \<longleftrightarrow> s = t"
proof -
  have "inj (of_char :: char \<Rightarrow> 16 word)"
    by (rule injI) (simp add: of_char_word_inj)
  then show ?thesis by (simp add: js_def inj_map_eq_map)
qed

lemma js_Nil [simp]: "js [] = []" "js s = [] \<longleftrightarrow> s = []" "[] = js s \<longleftrightarrow> s = []"
  by (auto simp: js_def)

lemma length_js [simp]: "length (js s) = length s"
  by (simp add: js_def)

lemma js_append: "js (s @ t) = js s @ js t"
  by (simp add: js_def)

lemma take_js [simp]: "take n (js s) = js (take n s)"
  by (simp add: js_def take_map)

lemma drop_js [simp]: "drop n (js s) = js (drop n s)"
  by (simp add: js_def drop_map)


section \<open>Character classes\<close>

definition is_digit_unit :: "unit16 \<Rightarrow> bool" where
  "is_digit_unit u \<longleftrightarrow> 0x30 \<le> u \<and> u \<le> 0x39"

text \<open>The regular expression class \<open>\w\<close>.\<close>

definition is_word_unit :: "unit16 \<Rightarrow> bool" where
  "is_word_unit u \<longleftrightarrow>
     is_digit_unit u \<or> (0x41 \<le> u \<and> u \<le> 0x5A) \<or> (0x61 \<le> u \<and> u \<le> 0x7A) \<or> u = 0x5F"

text \<open>The regular expression class \<open>\s\<close>, which is also what \<open>trim\<close> removes.\<close>

definition is_space_unit :: "unit16 \<Rightarrow> bool" where
  "is_space_unit u \<longleftrightarrow>
     (9 \<le> u \<and> u \<le> 13) \<or> u = 0x20 \<or> u = 0xA0 \<or> u = 0x1680 \<or> (0x2000 \<le> u \<and> u \<le> 0x200A) \<or>
     u = 0x2028 \<or> u = 0x2029 \<or> u = 0x202F \<or> u = 0x205F \<or> u = 0x3000 \<or> u = 0xFEFF"

section \<open>Searching and slicing\<close>

definition starts_with :: "jsstring \<Rightarrow> jsstring \<Rightarrow> bool" where
  "starts_with s p \<longleftrightarrow> take (length p) s = p"

definition ends_with :: "jsstring \<Rightarrow> jsstring \<Rightarrow> bool" where
  "ends_with s p \<longleftrightarrow> length p \<le> length s \<and> drop (length s - length p) s = p"

fun index_of :: "jsstring \<Rightarrow> jsstring \<Rightarrow> nat option" where
  "index_of [] p = (if p = [] then Some 0 else None)"
| "index_of (u # s) p =
     (if starts_with (u # s) p then Some 0 else map_option Suc (index_of s p))"

definition str_includes :: "jsstring \<Rightarrow> jsstring \<Rightarrow> bool" where
  "str_includes s p \<longleftrightarrow> index_of s p \<noteq> None"

lemma starts_with_iff: "starts_with s p \<longleftrightarrow> (\<exists>t. s = p @ t)"
  by (auto simp: starts_with_def intro: exI [of _ "drop (length p) s"])
     (metis append_take_drop_id)

lemma ends_with_iff: "ends_with s p \<longleftrightarrow> (\<exists>t. s = t @ p)"
proof
  assume "ends_with s p"
  then have "s = take (length s - length p) s @ p"
    by (metis append_take_drop_id ends_with_def)
  then show "\<exists>t. s = t @ p" ..
qed (auto simp: ends_with_def)

lemma index_of_Some: "index_of s p = Some n \<Longrightarrow> starts_with (drop n s) p \<and> n \<le> length s"
  by (induction s p arbitrary: n rule: index_of.induct)
     (auto simp: starts_with_def split: if_splits)

lemma index_of_None: "index_of s p = None \<longleftrightarrow> (\<forall>n\<le>length s. \<not> starts_with (drop n s) p)"
proof (induction s p rule: index_of.induct)
  case (2 u s p)
  show ?case
  proof (cases "starts_with (u # s) p")
    case True
    then show ?thesis by auto
  next
    case False
    have "(\<forall>n\<le>Suc k. Q n) \<longleftrightarrow> Q 0 \<and> (\<forall>n\<le>k. Q (Suc n))" for Q :: "nat \<Rightarrow> bool" and k
      by (metis Suc_le_mono le0 not0_implies_Suc)
    from this [of "length s" "\<lambda>n. \<not> starts_with (drop n (u # s)) p"]
    have "(\<forall>n\<le>length (u # s). \<not> starts_with (drop n (u # s)) p) \<longleftrightarrow>
      \<not> starts_with (u # s) p \<and> (\<forall>n\<le>length s. \<not> starts_with (drop n s) p)"
      by simp
    with False 2 show ?thesis by simp
  qed
qed (auto simp: starts_with_def)

lemma str_includes_iff: "str_includes s p \<longleftrightarrow> (\<exists>a b. s = a @ p @ b)"
proof
  assume "str_includes s p"
  then obtain n where "starts_with (drop n s) p"
    by (auto simp: str_includes_def dest: index_of_Some)
  then obtain t where "drop n s = p @ t" by (auto simp: starts_with_iff)
  then show "\<exists>a b. s = a @ p @ b" by (metis append_take_drop_id)
next
  assume "\<exists>a b. s = a @ p @ b"
  then obtain a b where "s = a @ p @ b" by blast
  then have "starts_with (drop (length a) s) p" "length a \<le> length s"
    by (auto simp: starts_with_iff)
  then show "str_includes s p" by (auto simp: str_includes_def index_of_None)
qed

lemma starts_with_js [simp]: "starts_with (js s) (js p) \<longleftrightarrow> take (length p) s = p"
  by (simp add: starts_with_def)

lemma starts_with_append [simp]: "starts_with (p @ s) p"
  by (simp add: starts_with_def)

lemma starts_with_js_append:
  "starts_with (js a @ s) (js b) \<Longrightarrow> take (length b) a = take (length a) b"
proof -
  assume "starts_with (js a @ s) (js b)"
  then obtain t where "js a @ s = js b @ t" by (auto simp: starts_with_iff)
  then have "take (min (length a) (length b)) (js a @ s) = take (min (length a) (length b)) (js b @ t)"
    by simp
  then show ?thesis by (simp add: min_def split: if_splits)
qed

section \<open>Splitting, joining, trimming\<close>

text \<open>\<open>split\<close> on a separator of one code unit.\<close>

fun split_unit :: "unit16 \<Rightarrow> jsstring \<Rightarrow> jsstring list" where
  "split_unit c [] = [[]]"
| "split_unit c (u # s) =
     (if u = c then [] # split_unit c s
      else (case split_unit c s of l # ls \<Rightarrow> (u # l) # ls | [] \<Rightarrow> [[u]]))"

fun join :: "jsstring \<Rightarrow> jsstring list \<Rightarrow> jsstring" where
  "join sep [] = []"
| "join sep [s] = s"
| "join sep (s # t # ts) = s @ sep @ join sep (t # ts)"

definition trim_start :: "jsstring \<Rightarrow> jsstring" where
  "trim_start s = dropWhile is_space_unit s"

definition trim :: "jsstring \<Rightarrow> jsstring" where
  "trim s = rev (trim_start (rev (trim_start s)))"

lemma split_unit_not_Nil [simp]: "split_unit c s \<noteq> []" "[] \<noteq> split_unit c s"
  by (induction s) (auto split: list.splits)

lemma join_Cons: "ls \<noteq> [] \<Longrightarrow> join sep (l # ls) = l @ sep @ join sep ls"
  by (cases ls) auto

lemma join_split [simp]: "join [c] (split_unit c s) = s"
proof (induction s)
  case (Cons u s)
  show ?case
  proof (cases "split_unit c s")
    case (Cons l ls)
    with Cons.IH show ?thesis by (cases ls) (auto simp: join_Cons)
  qed simp
qed simp

lemma split_unit_free: "l \<in> set (split_unit c s) \<Longrightarrow> c \<notin> set l"
proof (induction s arbitrary: l)
  case (Cons u s)
  then show ?case by (cases "split_unit c s") (auto split: if_splits)
qed simp

lemma split_unit_single: "c \<notin> set l \<Longrightarrow> split_unit c l = [l]"
  by (induction l) auto

lemma split_unit_append:
  "c \<notin> set l \<Longrightarrow> split_unit c (l @ c # s) = l # split_unit c s"
  by (induction l) auto

lemma split_join:
  assumes "ls \<noteq> []" and "\<forall>l\<in>set ls. c \<notin> set l"
  shows "split_unit c (join [c] ls) = ls"
  using assms
proof (induction ls)
  case (Cons l ls)
  then show ?case
    by (cases ls) (auto simp: split_unit_single split_unit_append)
qed simp

lemma trim_start_no_space:
  "trim_start s = [] \<or> \<not> is_space_unit (hd (trim_start s))"
  by (metis hd_dropWhile trim_start_def)

lemma last_trim: "trim s = [] \<or> \<not> is_space_unit (last (trim s))"
  using trim_start_no_space [of "rev (trim_start s)"]
  by (simp add: trim_def last_rev)

lemma set_trim: "set (trim s) \<subseteq> set s"
  by (auto simp: trim_def trim_start_def dest!: set_dropWhileD)

lemma trim_idem [simp]: "trim (trim s) = trim s"
proof (cases "trim s = []")
  case False
  have start: "trim_start s = u # r \<Longrightarrow> \<not> is_space_unit u" for u r
    using trim_start_no_space [of s] by auto
  obtain r where "trim_start s = trim s @ r"
    unfolding trim_def trim_start_def by (metis rev_append rev_rev_ident takeWhile_dropWhile_id)
  then have "trim_start (trim s) = trim s"
    using False start by (cases "trim s") (auto simp: trim_start_def)
  moreover have "trim_start (rev (trim s)) = rev (trim s)"
    using last_trim [of s] False by (cases "rev (trim s)") (auto simp: trim_start_def last_rev hd_rev [symmetric])
  ultimately show ?thesis by (simp add: trim_def)
next
  case True
  then show ?thesis unfolding True by (simp add: trim_def trim_start_def)
qed

lemma length_trim: "length (trim s) \<le> length s"
  by (metis length_dropWhile_le length_rev order_trans trim_def trim_start_def)

section \<open>Case\<close>

text \<open>
  \<open>toUpperCase\<close> on ASCII, and the units outside ASCII whose upper case contains ASCII letters.
  Other units keep themselves here: their upper case is outside ASCII, so a comparison with an
  ASCII literal has the same result.
\<close>

definition upper_unit :: "unit16 \<Rightarrow> jsstring" where
  "upper_unit u =
     (if 0x61 \<le> u \<and> u \<le> 0x7A then [u - 0x20]
      else if u = 0xDF then js ''SS''
      else if u = 0x131 then js ''I''
      else if u = 0x17F then js ''S''
      else if u = 0x149 then [0x2BC, 0x4E]
      else if u = 0x1F0 then [0x4A, 0x30C]
      else if u = 0x1E96 then [0x48, 0x331]
      else if u = 0x1E97 then [0x54, 0x308]
      else if u = 0x1E98 then [0x57, 0x30A]
      else if u = 0x1E99 then [0x59, 0x30A]
      else if u = 0x1E9A then [0x41, 0x2BE]
      else if u = 0xFB00 then js ''FF''
      else if u = 0xFB01 then js ''FI''
      else if u = 0xFB02 then js ''FL''
      else if u = 0xFB03 then js ''FFI''
      else if u = 0xFB04 then js ''FFL''
      else if u = 0xFB05 \<or> u = 0xFB06 then js ''ST''
      else [u])"

definition to_upper :: "jsstring \<Rightarrow> jsstring" where
  "to_upper s = concat (map upper_unit s)"

text \<open>
  A case-insensitive regular expression that is a disjunction of ASCII words: \<open>Canonicalize\<close>
  never maps a unit outside ASCII into ASCII.
\<close>

definition canon_unit :: "unit16 \<Rightarrow> unit16" where
  "canon_unit u = (if 0x61 \<le> u \<and> u \<le> 0x7A then u - 0x20 else u)"

definition includes_ci :: "jsstring \<Rightarrow> jsstring \<Rightarrow> bool" where
  "includes_ci s p \<longleftrightarrow> str_includes (map canon_unit s) (map canon_unit p)"

definition matches_any_ci :: "jsstring \<Rightarrow> string list \<Rightarrow> bool" where
  "matches_any_ci s ws \<longleftrightarrow> list_ex (\<lambda>w. includes_ci s (js w)) ws"

section \<open>Padding and digits\<close>

definition pad_start :: "nat \<Rightarrow> unit16 \<Rightarrow> jsstring \<Rightarrow> jsstring" where
  "pad_start n c s = replicate (n - length s) c @ s"

lemma length_pad_start: "length (pad_start n c s) = max n (length s)"
  by (simp add: pad_start_def)

definition digit_unit :: "nat \<Rightarrow> unit16" where
  "digit_unit d = (if d < 10 then of_nat (48 + d) else of_nat (87 + d))"

text \<open>\<open>Number.prototype.toString(radix)\<close> of a non-negative integer; \<open>2 \<le> radix \<le> 36\<close>.\<close>

fun radix_nat :: "nat \<Rightarrow> nat \<Rightarrow> jsstring" where
  "radix_nat r n = (if n < r \<or> r < 2 then [digit_unit n]
                    else radix_nat r (n div r) @ [digit_unit (n mod r)])"

declare radix_nat.simps [simp del]

definition dec_nat :: "nat \<Rightarrow> jsstring" where
  "dec_nat n = radix_nat 10 n"

definition dec_int :: "int \<Rightarrow> jsstring" where
  "dec_int i = (if i < 0 then js ''-'' @ dec_nat (nat (- i)) else dec_nat (nat i))"

definition digit_value :: "unit16 \<Rightarrow> nat" where
  "digit_value u = unat u - 48"

text \<open>\<open>parseInt(s, 10)\<close> of a string of digits.\<close>

definition nat_of_digits :: "jsstring \<Rightarrow> nat" where
  "nat_of_digits s = foldl (\<lambda>n u. 10 * n + digit_value u) 0 s"

lemma radix_nat_less: "n < r \<Longrightarrow> radix_nat r n = [digit_unit n]"
  by (subst radix_nat.simps) simp

lemma radix_nat_step:
  "r \<le> n \<Longrightarrow> 2 \<le> r \<Longrightarrow> radix_nat r n = radix_nat r (n div r) @ [digit_unit (n mod r)]"
  by (subst radix_nat.simps) simp

lemma radix_nat_not_Nil [simp]: "radix_nat r n \<noteq> []" "dec_nat n \<noteq> []"
  by (subst radix_nat.simps; simp) (subst dec_nat_def, subst radix_nat.simps, simp)

lemma unat_digit_unit: "d < 10 \<Longrightarrow> unat (digit_unit d) = 48 + d"
  by (simp add: digit_unit_def unsigned_of_nat take_bit_nat_eq_self del: of_nat_add)

lemma digit_value_digit_unit [simp]: "d < 10 \<Longrightarrow> digit_value (digit_unit d) = d"
  by (simp add: digit_value_def unat_digit_unit)

lemma is_digit_digit_unit [simp]: "d < 10 \<Longrightarrow> is_digit_unit (digit_unit d)"
  by (simp add: is_digit_unit_def word_le_nat_alt unat_digit_unit)

lemma dec_nat_digits: "u \<in> set (dec_nat n) \<Longrightarrow> is_digit_unit u"
  unfolding dec_nat_def
proof (induction n arbitrary: u rule: less_induct)
  case (less n)
  show ?case
  proof (cases "n < 10")
    case True
    with less.prems show ?thesis by (simp add: radix_nat_less)
  next
    case False
    with less.prems have "u \<in> set (radix_nat 10 (n div 10)) \<or> u = digit_unit (n mod 10)"
      by (auto simp: radix_nat_step [of 10 n])
    with False less.IH [of "n div 10"] show ?thesis by auto
  qed
qed

lemma nat_of_digits_dec_nat [simp]: "nat_of_digits (dec_nat n) = n"
  unfolding dec_nat_def
proof (induction n rule: less_induct)
  case (less n)
  show ?case
  proof (cases "n < 10")
    case True
    then show ?thesis by (simp add: radix_nat_less nat_of_digits_def)
  next
    case False
    with less [of "n div 10"] show ?thesis
      by (simp add: radix_nat_step [of 10 n] nat_of_digits_def)
  qed
qed

lemma dec_nat_inj [simp]: "dec_nat m = dec_nat n \<longleftrightarrow> m = n"
  by (metis nat_of_digits_dec_nat)

end
