(* ===== verification/JsNumber.thy ===== *)
theory JsNumber
  imports JsString "HOL-Library.Log_Nat"
begin

text \<open>
  JavaScript numbers: IEEE 754 binary64 values as exact rationals with the three special values,
  and round-to-nearest-even as an executable function. The sign of zero is not kept; no modelled
  source observes it.
\<close>

datatype jsnum = Fin rat | PosInf | NegInf | NaN

section \<open>Rounding to binary64\<close>

definition round_half_even :: "rat \<Rightarrow> int" where
  "round_half_even x =
     (let f = \<lfloor>x\<rfloor>; r = x - of_int f
      in if r < 1/2 then f else if 1/2 < r then f + 1 else if even f then f else f + 1)"

text \<open>The binary exponent of a positive rational: \<open>2 powi e \<le> q < 2 powi (e + 1)\<close>.\<close>

definition binexp :: "rat \<Rightarrow> int" where
  "binexp q =
     (let (a, b) = quotient_of q;
          k = int (floorlog 2 (nat a)) - int (floorlog 2 (nat b))
      in if q < 2 powi k then k - 1 else k)"

definition quantum :: "rat \<Rightarrow> int" where
  "quantum q = max (binexp q - 52) (-1074)"

definition round_mag :: "rat \<Rightarrow> rat" where
  "round_mag q = of_int (round_half_even (q / 2 powi quantum q)) * 2 powi quantum q"

definition to_double :: "rat \<Rightarrow> jsnum" where
  "to_double x =
     (if x = 0 then Fin 0
      else let m = round_mag \<bar>x\<bar>
           in if 2 ^ 1024 \<le> m then (if x < 0 then NegInf else PosInf)
              else Fin (if x < 0 then - m else m))"

definition is_double :: "jsnum \<Rightarrow> bool" where
  "is_double n \<longleftrightarrow> (case n of Fin x \<Rightarrow> to_double x = n | _ \<Rightarrow> True)"

lemma round_half_even_of_int [simp]: "round_half_even (of_int n) = n"
  by (simp add: round_half_even_def Let_def)

lemma round_half_even_0 [simp]: "round_half_even 0 = 0"
  by (simp add: round_half_even_def)

lemma round_half_even_bounds:
  "x - 1/2 \<le> of_int (round_half_even x)" "of_int (round_half_even x) \<le> x + 1/2"
  by (simp_all add: round_half_even_def Let_def) linarith+

lemma round_half_even_mono: "x \<le> y \<Longrightarrow> round_half_even x \<le> round_half_even y"
proof (cases "\<lfloor>x\<rfloor> = \<lfloor>y\<rfloor>")
  case True
  then show "x \<le> y \<Longrightarrow> ?thesis"
    by (auto simp: round_half_even_def Let_def)
next
  case False
  assume "x \<le> y"
  with False have "\<lfloor>x\<rfloor> + 1 \<le> \<lfloor>y\<rfloor>"
    using floor_mono [of x y] by linarith
  moreover have "round_half_even x \<le> \<lfloor>x\<rfloor> + 1" "\<lfloor>y\<rfloor> \<le> round_half_even y"
    by (auto simp: round_half_even_def Let_def)
  ultimately show ?thesis by linarith
qed

lemma powi_2_pos [simp]: "0 < (2::rat) powi k"
  by (simp add: zero_less_power_int)

lemma binexp_bounds:
  assumes "0 < q"
  shows "2 powi binexp q \<le> q" and "q < 2 powi (binexp q + 1)"
proof -
  obtain a b where ab: "quotient_of q = (a, b)" by fastforce
  have q: "q = of_int a / of_int b" and b: "0 < b"
    using ab quotient_of_div quotient_of_denom_pos by auto
  with assms have a: "0 < a" by (simp add: zero_less_divide_iff)
  define m where "m = floorlog 2 (nat a)"
  define n where "n = floorlog 2 (nat b)"
  have mn: "0 < m" "0 < n" using a b by (auto simp: m_def n_def floorlog_def)
  have "2 ^ (m - 1) \<le> nat a" "nat a < 2 ^ m" "2 ^ (n - 1) \<le> nat b" "nat b < 2 ^ n"
    using floorlog_bounds [of "nat a" 2] floorlog_bounds [of "nat b" 2] a b
    by (auto simp: m_def n_def)
  then have "of_nat (2 ^ (m - 1)) \<le> rat_of_nat (nat a)" "rat_of_nat (nat a) < of_nat (2 ^ m)"
    "of_nat (2 ^ (n - 1)) \<le> rat_of_nat (nat b)" "rat_of_nat (nat b) < of_nat (2 ^ n)"
    by (simp_all only: of_nat_le_iff of_nat_less_iff)
  then have A: "2 powi (int m - 1) \<le> rat_of_int a" "rat_of_int a < 2 powi int m"
    and B: "2 powi (int n - 1) \<le> rat_of_int b" "rat_of_int b < 2 powi int n"
    using a b mn by (simp_all add: power_int_def nat_diff_distrib)
  have up: "q < 2 powi (int m - int n + 1)"
  proof -
    have "2 powi (int m - int n + 1) * 2 powi (int n - 1) = (2::rat) powi int m"
      by (simp flip: power_int_add)
    moreover have "2 powi (int m - int n + 1) * 2 powi (int n - 1) \<le>
        2 powi (int m - int n + 1) * rat_of_int b"
      using B(1) by (intro mult_left_mono) auto
    ultimately have "rat_of_int a < 2 powi (int m - int n + 1) * rat_of_int b"
      using A(2) by (metis order_less_le_trans)
    then show ?thesis using b by (simp add: q divide_less_eq)
  qed
  have lo: "2 powi (int m - int n - 1) \<le> q"
  proof -
    have "2 powi (int m - int n - 1) * 2 powi int n = (2::rat) powi (int m - 1)"
      by (simp flip: power_int_add del: power_int_of_nat)
    moreover have "2 powi (int m - int n - 1) * rat_of_int b \<le> 2 powi (int m - int n - 1) * 2 powi int n"
      using B(2) by (intro mult_left_mono) auto
    ultimately have "2 powi (int m - int n - 1) * rat_of_int b \<le> rat_of_int a"
      using A(1) by (metis order_trans)
    then show ?thesis using b by (simp add: q le_divide_eq)
  qed
  have "binexp q = (if q < 2 powi (int m - int n) then int m - int n - 1 else int m - int n)"
    by (simp add: binexp_def ab m_def n_def)
  with up lo show "2 powi binexp q \<le> q" "q < 2 powi (binexp q + 1)"
    by (auto split: if_splits)
qed

lemma powi_2_le_iff [simp]: "(2::rat) powi a \<le> 2 powi b \<longleftrightarrow> a \<le> b"
  by (metis linorder_not_le one_less_numeral_iff power_int_increasing power_int_strict_increasing
      order_less_imp_le semiring_norm(76) one_le_numeral not_less)

lemma powi_2_less_iff [simp]: "(2::rat) powi a < 2 powi b \<longleftrightarrow> a < b"
  by (simp flip: not_le)

lemma binexp_mono: "0 < x \<Longrightarrow> x \<le> y \<Longrightarrow> binexp x \<le> binexp y"
proof -
  assume "0 < x" "x \<le> y"
  then have "(2::rat) powi binexp x < 2 powi (binexp y + 1)"
    using binexp_bounds [of x] binexp_bounds [of y] by linarith
  then show ?thesis by simp
qed

lemma round_mag_multiple:
  assumes "q = of_int n * 2 powi quantum q"
  shows "round_mag q = q"
proof -
  have "q / 2 powi quantum q = of_int n"
    using assms powi_2_pos [of "quantum q"] by (metis less_irrefl nonzero_mult_div_cancel_right)
  then show ?thesis using assms by (simp add: round_mag_def)
qed

text \<open>A multiple of a power of two whose factor fits in 53 bits is a binary64 value.\<close>

lemma round_mag_exact:
  assumes "0 < m" "m \<le> 2 ^ 53" "-1074 \<le> e"
  shows "round_mag (of_int m * 2 powi e) = of_int m * 2 powi e"
proof -
  let ?q = "rat_of_int m * 2 powi e"
  have pos: "0 < ?q" using assms(1) by simp
  have "rat_of_int m \<le> of_int (2 ^ 53)" using assms(2) by (simp only: of_int_le_iff)
  then have "?q \<le> 2 powi 53 * 2 powi e" by (intro mult_right_mono) simp_all
  then have le: "?q \<le> 2 powi (e + 53)" by (simp add: power_int_add mult.commute)
  show ?thesis
  proof (cases "quantum ?q \<le> e")
    case True
    define d where "d = nat (e - quantum ?q)"
    then have "e = int d + quantum ?q" using True by simp
    then have "?q = of_int (m * 2 ^ d) * 2 powi quantum ?q"
      by (metis (no_types, lifting) mult.assoc of_int_mult of_int_numeral of_int_power
          power_int_add power_int_of_nat zero_neq_numeral)
    then show ?thesis by (rule round_mag_multiple)
  next
    case False
    then have "e + 53 \<le> binexp ?q" using assms(3) by (auto simp: quantum_def max_def split: if_splits)
    then have ge: "2 powi (e + 53) \<le> ?q"
      using binexp_bounds(1) [OF pos] powi_2_le_iff order_trans by blast
    with le have eq: "?q = 2 powi (e + 53)" by simp
    then have "binexp ?q \<le> e + 53"
      using binexp_bounds(1) [OF pos] by (metis powi_2_le_iff)
    with \<open>e + 53 \<le> binexp ?q\<close> have "binexp ?q = e + 53" by simp
    with assms(3) have "quantum ?q = e + 1"
      unfolding quantum_def by linarith
    then have "of_int (2 ^ 52) * 2 powi quantum ?q = (2::rat) powi (e + 53)"
      by (simp only: power_int_add) (simp add: power_int_add)
    with eq have "?q = of_int (2 ^ 52) * 2 powi quantum ?q" by (simp only:)
    then show ?thesis by (rule round_mag_multiple)
  qed
qed

lemma round_mag_int: "0 \<le> n \<Longrightarrow> n \<le> 2 ^ 53 \<Longrightarrow> round_mag (of_int n) = of_int n"
  using round_mag_exact [of n 0] by (cases "n = 0") (auto simp: round_mag_def)

text \<open>Integers up to \<open>2 ^ 53\<close> in absolute value are exact.\<close>

lemma to_double_int:
  assumes "\<bar>n\<bar> \<le> 2 ^ 53"
  shows "to_double (of_int n) = Fin (of_int n)"
proof -
  have r: "round_mag (of_int \<bar>n\<bar>) = of_int \<bar>n\<bar>"
    using assms by (intro round_mag_int) auto
  have "rat_of_int \<bar>n\<bar> \<le> of_int (2 ^ 53)"
    using assms by (simp only: of_int_le_iff)
  then have "rat_of_int \<bar>n\<bar> < 2 ^ 1024" by simp
  with r show ?thesis by (auto simp: to_double_def Let_def)
qed

text \<open>Rounding a whole number gives a whole number.\<close>

lemma round_mag_whole: "round_mag (of_int n) \<in> \<int>"
proof (cases "0 \<le> quantum (of_int n)")
  case True
  then have "(2::rat) powi quantum (of_int n) = of_int (2 ^ nat (quantum (of_int n)))"
    by (simp add: power_int_def)
  then show ?thesis by (simp add: round_mag_def)
next
  case False
  let ?k = "nat (- quantum (of_int n))"
  have "(2::rat) powi quantum (of_int n) = inverse (2 ^ ?k)"
    using False by (simp add: power_int_def power_one_over inverse_eq_divide)
  then have "rat_of_int n = of_int (n * 2 ^ ?k) * 2 powi quantum (of_int n)" by simp
  then have "round_mag (of_int n) = of_int n" by (rule round_mag_multiple)
  then show ?thesis by simp
qed

lemma to_double_whole: "to_double (of_int n) = Fin x \<Longrightarrow> x \<in> \<int>"
  using round_mag_whole [of "\<bar>n\<bar>"] by (auto simp: to_double_def Let_def split: if_splits)

lemma to_double_numeral_small:
  "(numeral w :: int) \<le> 2 ^ 53 \<Longrightarrow> to_double (numeral w) = Fin (numeral w)"
  using to_double_int [of "numeral w"] by simp


section \<open>Monotonicity and idempotence\<close>

lemma quantum_mono: "0 < x \<Longrightarrow> x \<le> y \<Longrightarrow> quantum x \<le> quantum y"
  using binexp_mono [of x y] by (auto simp: quantum_def)

lemma round_mag_nonneg: "0 \<le> q \<Longrightarrow> 0 \<le> round_mag q"
  using round_half_even_mono [of 0 "q / 2 powi quantum q"]
  by (simp add: round_mag_def)

lemma round_mag_le_at:
  assumes "q \<le> of_int n * 2 powi quantum q"
  shows "round_mag q \<le> of_int n * 2 powi quantum q"
proof -
  have "q / 2 powi quantum q \<le> of_int n"
    using assms by (simp add: divide_le_eq)
  then have "round_half_even (q / 2 powi quantum q) \<le> n"
    using round_half_even_mono round_half_even_of_int by metis
  then show ?thesis by (simp add: round_mag_def)
qed

lemma round_mag_ge_at:
  assumes "of_int n * 2 powi quantum q \<le> q"
  shows "of_int n * 2 powi quantum q \<le> round_mag q"
proof -
  have "of_int n \<le> q / 2 powi quantum q"
    using assms by (simp add: le_divide_eq)
  then have "n \<le> round_half_even (q / 2 powi quantum q)"
    using round_half_even_mono round_half_even_of_int by metis
  then show ?thesis by (simp add: round_mag_def)
qed

lemma powi_multiple:
  assumes "a \<le> b"
  shows "\<exists>n::int. (2::rat) powi b = of_int n * 2 powi a"
proof
  have "(2::rat) powi ((b - a) + a) = 2 powi (b - a) * 2 powi a"
    by (rule power_int_add) simp
  with assms show "(2::rat) powi b = of_int (2 ^ nat (b - a)) * 2 powi a"
    by (simp add: power_int_nonneg_exp)
qed

lemma round_mag_mono:
  assumes "0 \<le> x" "x \<le> y"
  shows "round_mag x \<le> round_mag y"
proof (cases "x = 0")
  case True
  then show ?thesis using assms round_mag_nonneg [of y] by (simp add: round_mag_def)
next
  case False
  with assms have x: "0 < x" and y: "0 < y" by auto
  show ?thesis
  proof (cases "quantum x = quantum y")
    case True
    have "x / 2 powi quantum x \<le> y / 2 powi quantum x"
      using assms(2) by (intro divide_right_mono) (auto simp: less_imp_le)
    with True show ?thesis
      by (simp add: round_mag_def round_half_even_mono)
  next
    case False
    with quantum_mono [OF x assms(2)] have less: "quantum x < quantum y" by simp
    then have qy: "quantum y = binexp y - 52" by (auto simp: quantum_def)
    from less have "binexp x < binexp y" by (auto simp: quantum_def)
    then have "x \<le> 2 powi binexp y"
      using binexp_bounds(2) [OF x] powi_2_le_iff [of "binexp x + 1" "binexp y"] by linarith
    moreover obtain n where n: "(2::rat) powi binexp y = of_int n * 2 powi quantum x"
      using powi_multiple [of "quantum x" "binexp y"] less qy by auto
    ultimately have "round_mag x \<le> 2 powi binexp y"
      using round_mag_le_at [of x n] by simp
    moreover obtain k where k: "(2::rat) powi binexp y = of_int k * 2 powi quantum y"
      using powi_multiple [of "quantum y" "binexp y"] qy by auto
    then have "2 powi binexp y \<le> round_mag y"
      using round_mag_ge_at [of k y] binexp_bounds(1) [OF y] by simp
    ultimately show ?thesis by linarith
  qed
qed

lemma round_mag_idem:
  assumes "0 \<le> q"
  shows "round_mag (round_mag q) = round_mag q"
proof (cases "round_mag q = 0")
  case True
  then show ?thesis by (simp add: round_mag_def)
next
  case False
  define n where "n = round_half_even (q / 2 powi quantum q)"
  have eq: "round_mag q = of_int n * 2 powi quantum q"
    by (simp add: round_mag_def n_def)
  have "0 < q" using False assms by (cases "q = 0") (auto simp: round_mag_def)
  have "0 < n"
    using False round_mag_nonneg [OF assms] eq powi_2_pos [of "quantum q"]
    by (metis mult_eq_0_iff mult_less_0_iff not_less_iff_gr_or_eq of_int_0_less_iff of_int_0
        of_int_less_0_iff order_less_le linorder_not_less)
  have "q < 2 powi (quantum q + 53)"
  proof -
    have "binexp q + 1 \<le> quantum q + 53" by (simp add: quantum_def)
    then show ?thesis
      using binexp_bounds(2) [OF \<open>0 < q\<close>] powi_2_le_iff order_less_le_trans by blast
  qed
  moreover have "(2::rat) powi (quantum q + 53) = of_int (2 ^ 53) * 2 powi quantum q"
    by (simp add: power_int_add mult.commute)
  ultimately have "q / 2 powi quantum q \<le> of_int (2 ^ 53)"
    by (simp add: divide_le_eq)
  then have "n \<le> 2 ^ 53"
    unfolding n_def using round_half_even_mono round_half_even_of_int by metis
  with \<open>0 < n\<close> eq show ?thesis
    using round_mag_exact [of n "quantum q"] by (simp add: quantum_def)
qed

lemma to_double_is_double: "is_double (to_double x)"
  using round_mag_idem [of "\<bar>x\<bar>"] round_mag_nonneg [of "\<bar>x\<bar>"]
  by (auto simp: is_double_def to_double_def Let_def)

section \<open>Arithmetic and comparison\<close>

fun num_neg :: "jsnum \<Rightarrow> jsnum" where
  "num_neg (Fin x) = Fin (- x)"
| "num_neg PosInf = NegInf"
| "num_neg NegInf = PosInf"
| "num_neg NaN = NaN"

fun num_add :: "jsnum \<Rightarrow> jsnum \<Rightarrow> jsnum" where
  "num_add (Fin x) (Fin y) = to_double (x + y)"
| "num_add NaN _ = NaN"
| "num_add _ NaN = NaN"
| "num_add PosInf NegInf = NaN"
| "num_add NegInf PosInf = NaN"
| "num_add PosInf _ = PosInf"
| "num_add _ PosInf = PosInf"
| "num_add NegInf _ = NegInf"
| "num_add _ NegInf = NegInf"

definition num_sub :: "jsnum \<Rightarrow> jsnum \<Rightarrow> jsnum" where
  "num_sub a b = num_add a (num_neg b)"

definition inf_of_sign :: "bool \<Rightarrow> jsnum" where
  "inf_of_sign neg = (if neg then NegInf else PosInf)"

fun num_sign :: "jsnum \<Rightarrow> int" where
  "num_sign (Fin x) = (if x < 0 then - 1 else if x = 0 then 0 else 1)"
| "num_sign PosInf = 1"
| "num_sign NegInf = - 1"
| "num_sign NaN = 0"

fun num_mul :: "jsnum \<Rightarrow> jsnum \<Rightarrow> jsnum" where
  "num_mul (Fin x) (Fin y) = to_double (x * y)"
| "num_mul NaN _ = NaN"
| "num_mul _ NaN = NaN"
| "num_mul a b = (let s = num_sign a * num_sign b
                  in if s = 0 then NaN else inf_of_sign (s < 0))"

fun num_div :: "jsnum \<Rightarrow> jsnum \<Rightarrow> jsnum" where
  "num_div NaN _ = NaN"
| "num_div _ NaN = NaN"
| "num_div (Fin x) (Fin y) =
     (if y = 0 then (if x = 0 then NaN else inf_of_sign (x < 0)) else to_double (x / y))"
| "num_div (Fin x) _ = Fin 0"
| "num_div a (Fin y) = inf_of_sign ((num_sign a < 0) \<noteq> (y < 0))"
| "num_div _ _ = NaN"

text \<open>The remainder operator \<open>%\<close>: truncated division, exact on doubles.\<close>

definition rat_trunc :: "rat \<Rightarrow> int" where
  "rat_trunc x = (if x < 0 then \<lceil>x\<rceil> else \<lfloor>x\<rfloor>)"

fun num_rem :: "jsnum \<Rightarrow> jsnum \<Rightarrow> jsnum" where
  "num_rem NaN _ = NaN"
| "num_rem _ NaN = NaN"
| "num_rem (Fin x) (Fin y) = (if y = 0 then NaN else Fin (x - of_int (rat_trunc (x / y)) * y))"
| "num_rem (Fin x) _ = Fin x"
| "num_rem _ _ = NaN"

fun num_lt :: "jsnum \<Rightarrow> jsnum \<Rightarrow> bool" where
  "num_lt (Fin x) (Fin y) = (x < y)"
| "num_lt NaN _ = False"
| "num_lt _ NaN = False"
| "num_lt _ NegInf = False"
| "num_lt NegInf _ = True"
| "num_lt PosInf _ = False"
| "num_lt _ PosInf = True"

fun num_eq :: "jsnum \<Rightarrow> jsnum \<Rightarrow> bool" where
  "num_eq NaN _ = False"
| "num_eq _ NaN = False"
| "num_eq a b = (a = b)"

definition num_le :: "jsnum \<Rightarrow> jsnum \<Rightarrow> bool" where
  "num_le a b \<longleftrightarrow> num_lt a b \<or> num_eq a b"

fun num_floor :: "jsnum \<Rightarrow> jsnum" where
  "num_floor (Fin x) = Fin (of_int \<lfloor>x\<rfloor>)"
| "num_floor n = n"

text \<open>\<open>Math.round\<close>: the nearest integer, ties upwards.\<close>

fun num_round :: "jsnum \<Rightarrow> jsnum" where
  "num_round (Fin x) = Fin (of_int \<lfloor>x + 1/2\<rfloor>)"
| "num_round n = n"

definition num_max :: "jsnum \<Rightarrow> jsnum \<Rightarrow> jsnum" where
  "num_max a b = (if a = NaN \<or> b = NaN then NaN else if num_lt a b then b else a)"

definition num_min :: "jsnum \<Rightarrow> jsnum \<Rightarrow> jsnum" where
  "num_min a b = (if a = NaN \<or> b = NaN then NaN else if num_lt b a then b else a)"

definition num_truthy :: "jsnum \<Rightarrow> bool" where
  "num_truthy n \<longleftrightarrow> n \<noteq> NaN \<and> n \<noteq> Fin 0"

abbreviation num_of_int :: "int \<Rightarrow> jsnum" where
  "num_of_int i \<equiv> Fin (of_int i)"

lemma num_add_int:
  "\<bar>a + b\<bar> \<le> 2 ^ 53 \<Longrightarrow> num_add (num_of_int a) (num_of_int b) = num_of_int (a + b)"
  using to_double_int [of "a + b"] by simp

lemma num_add_is_double: "is_double a \<Longrightarrow> is_double b \<Longrightarrow> is_double (num_add a b)"
  by (cases a; cases b) (auto simp: to_double_is_double, auto simp: is_double_def)

section \<open>Decimal output\<close>

text \<open>\<open>n / 10 ^ f\<close> in decimal with exactly \<open>f\<close> digits after the point.\<close>

definition fixed_digits :: "nat \<Rightarrow> nat \<Rightarrow> jsstring" where
  "fixed_digits f n =
     (if f = 0 then dec_nat n
      else dec_nat (n div 10 ^ f) @ js ''.'' @ pad_start f 0x30 (dec_nat (n mod 10 ^ f)))"

text \<open>The integer \<open>toFixed\<close> picks: closest to \<open>x * 10 ^ f\<close>, the larger of two.\<close>

definition fixed_units :: "nat \<Rightarrow> rat \<Rightarrow> nat" where
  "fixed_units f x = nat \<lfloor>x * 10 ^ f + 1/2\<rfloor>"

text \<open>
  \<open>Number::toString\<close>: the shortest decimal that rounds back to the value. \<open>dec_exp x\<close> is the
  \<open>n\<close> with \<open>10 powi (n - 1) \<le> x < 10 powi n\<close>; a binary64 value below 1 has at most 324 leading
  zeros.
\<close>

fun leading_zeros :: "nat \<Rightarrow> rat \<Rightarrow> nat" where
  "leading_zeros 0 x = 0"
| "leading_zeros (Suc k) x = (if 1 \<le> x then 0 else Suc (leading_zeros k (10 * x)))"

definition dec_exp :: "rat \<Rightarrow> int" where
  "dec_exp x = (if 1 \<le> x then int (length (dec_nat (nat \<lfloor>x\<rfloor>)))
                else 1 - int (leading_zeros 400 x))"

definition digits_at :: "rat \<Rightarrow> int \<Rightarrow> nat \<Rightarrow> nat option" where
  "digits_at x n k =
     (let scale = 10 powi (n - int k); c = x / scale; lo = \<lfloor>c\<rfloor>; hi = \<lceil>c\<rceil>;
          ok = (\<lambda>s. to_double (of_int s * scale) = Fin x)
      in if ok lo \<and> (\<not> ok hi \<or> c - of_int lo \<le> of_int hi - c) then Some (nat lo)
         else if ok hi then Some (nat hi) else None)"

fun shortest_from :: "nat \<Rightarrow> rat \<Rightarrow> int \<Rightarrow> nat \<Rightarrow> nat \<times> nat" where
  "shortest_from 0 x n k = (the (digits_at x n k), k)"
| "shortest_from (Suc fuel) x n k =
     (case digits_at x n k of Some s \<Rightarrow> (s, k) | None \<Rightarrow> shortest_from fuel x n (Suc k))"

definition zeros :: "nat \<Rightarrow> jsstring" where
  "zeros n = replicate n 0x30"

definition layout_digits :: "jsstring \<Rightarrow> int \<Rightarrow> jsstring" where
  "layout_digits ds n =
     (let k = int (length ds) in
      if k \<le> n \<and> n \<le> 21 then ds @ zeros (nat (n - k))
      else if 0 < n \<and> n \<le> 21 then take (nat n) ds @ js ''.'' @ drop (nat n) ds
      else if - 6 < n \<and> n \<le> 0 then js ''0.'' @ zeros (nat (- n)) @ ds
      else (if k = 1 then ds else take 1 ds @ js ''.'' @ drop 1 ds) @ js ''e'' @
           (if n - 1 < 0 then js ''-'' else js ''+'') @ dec_nat (nat \<bar>n - 1\<bar>))"

definition positive_to_string :: "rat \<Rightarrow> jsstring" where
  "positive_to_string x =
     (if x = of_int \<lfloor>x\<rfloor> \<and> x < 2 ^ 53 then dec_nat (nat \<lfloor>x\<rfloor>)
      else let n = dec_exp x; (s, k) = shortest_from 16 x n 1
           in if s = 10 ^ k then layout_digits (js ''1'') (n + 1) else layout_digits (dec_nat s) n)"

fun num_to_string :: "jsnum \<Rightarrow> jsstring" where
  "num_to_string (Fin x) =
     (if x = 0 then js ''0''
      else if x < 0 then js ''-'' @ positive_to_string (- x) else positive_to_string x)"
| "num_to_string PosInf = js ''Infinity''"
| "num_to_string NegInf = js ''-Infinity''"
| "num_to_string NaN = js ''NaN''"

fun to_fixed :: "nat \<Rightarrow> jsnum \<Rightarrow> jsstring" where
  "to_fixed f (Fin x) =
     (if 10 ^ 21 \<le> \<bar>x\<bar> then num_to_string (Fin x)
      else (if x < 0 then js ''-'' else []) @ fixed_digits f (fixed_units f \<bar>x\<bar>))"
| "to_fixed f n = num_to_string n"

lemma num_to_string_int:
  assumes "\<bar>i\<bar> < 2 ^ 53"
  shows "num_to_string (num_of_int i) = dec_int i"
proof -
  have "rat_of_int \<bar>i\<bar> < of_int (2 ^ 53)" using assms by (simp only: of_int_less_iff)
  then have "positive_to_string (of_int \<bar>i\<bar>) = dec_nat (nat \<bar>i\<bar>)"
    by (simp add: positive_to_string_def flip: of_int_abs)
  then show ?thesis
    by (auto simp: dec_int_def dec_nat_def radix_nat_less digit_unit_def js_def abs_if split: if_splits)
qed

lemma fixed_units_mono: "0 \<le> x \<Longrightarrow> x \<le> y \<Longrightarrow> fixed_units f x \<le> fixed_units f y"
  unfolding fixed_units_def by (intro nat_mono floor_mono add_right_mono mult_right_mono) auto

lemma fixed_units_nat: "fixed_units f (of_nat n) = n * 10 ^ f"
proof -
  have "\<lfloor>rat_of_nat n * 10 ^ f + 1/2\<rfloor> = int (n * 10 ^ f)"
    by (rule floor_unique) auto
  then show ?thesis unfolding fixed_units_def by (metis nat_int)
qed

section \<open>Division of whole numbers\<close>

text \<open>
  A quotient of whole numbers rounds to a double between the same multiples of \<open>2 powi -22\<close> as the
  exact quotient; so \<open>Math.floor\<close> and \<open>Math.round\<close> of it are those of the exact quotient.
\<close>

lemma num_div_int_bounds:
  assumes "0 \<le> n" "0 < d" "0 \<le> a" "a * d \<le> n * 2 ^ 22" "n * 2 ^ 22 \<le> b * d" "b \<le> 2 ^ 53"
  shows "\<exists>x. num_div (num_of_int n) (num_of_int d) = Fin x \<and> of_int a / 2 ^ 22 \<le> x \<and> x \<le> of_int b / 2 ^ 22"
proof (cases "n = 0")
  case True
  with assms have "a * d \<le> 0" "0 \<le> b * d" by auto
  with assms(2,3) have "a = 0" "0 \<le> b"
    by (auto simp: mult_le_0_iff zero_le_mult_iff)
  with True assms(2) show ?thesis by (simp add: to_double_def)
next
  case False
  let ?y = "rat_of_int n / of_int d"
  have exact: "round_mag (of_int c / 2 ^ 22) = of_int c / 2 ^ 22" if "0 \<le> c" "c \<le> 2 ^ 53" for c
  proof (cases "c = 0")
    case True
    then show ?thesis by (simp add: round_mag_def)
  next
    case False
    have "(2::rat) powi (- 22) = inverse (2 ^ 22)"
      by (simp only: power_int_minus power_int_numeral)
    moreover have "round_mag (of_int c * 2 powi (- 22)) = of_int c * 2 powi (- 22)"
      by (rule round_mag_exact) (use that False in simp_all)
    ultimately show ?thesis by (simp only: divide_inverse)
  qed
  have y: "0 < ?y" using False assms by simp
  have "0 < n * 2 ^ 22" using False assms(1) by simp
  then have "0 < b * d" using assms(5) by linarith
  then have b: "0 < b" using assms(2) by (simp add: zero_less_mult_iff)
  have "rat_of_int (a * d) \<le> of_int (n * 2 ^ 22)" "rat_of_int (n * 2 ^ 22) \<le> of_int (b * d)"
    using assms(4,5) by (simp_all only: of_int_le_iff)
  then have "of_int a / 2 ^ 22 \<le> ?y" "?y \<le> of_int b / 2 ^ 22"
    using assms(2) by (simp_all add: divide_le_eq le_divide_eq mult.commute)
  moreover have "a \<le> 2 ^ 53"
  proof -
    have "a * d \<le> b * d" using assms(4,5) by linarith
    then show ?thesis using assms(2,6) by simp
  qed
  ultimately have r: "of_int a / 2 ^ 22 \<le> round_mag ?y" "round_mag ?y \<le> of_int b / 2 ^ 22"
    using round_mag_mono [of "of_int a / 2 ^ 22" ?y] round_mag_mono [of ?y "of_int b / 2 ^ 22"] exact [of a] exact [of b] assms(3,6) b y
    by auto
  have "rat_of_int b \<le> of_int (2 ^ 53)" using assms(6) by (simp only: of_int_le_iff)
  with r(2) have "round_mag ?y < 2 ^ 1024" by simp
  then have "num_div (num_of_int n) (num_of_int d) = Fin (round_mag ?y)"
    using y assms(1,2) False by (simp add: to_double_def Let_def abs_of_nonneg divide_less_0_iff)
  with r show ?thesis by blast
qed

lemma floor_num_div:
  assumes "0 \<le> n" "n < 2 ^ 50" "0 < d" "d \<le> 4000000" "n div d < 2 ^ 30"
  shows "num_floor (num_div (num_of_int n) (num_of_int d)) = num_of_int (n div d)"
proof -
  let ?q = "n div d"
  have q: "?q * d \<le> n" "n < ?q * d + d" "0 \<le> ?q"
    using div_bounds [OF assms(3), of n] assms(1,3) by (simp_all add: mult.commute pos_imp_zdiv_nonneg_iff)
  have "?q * 2 ^ 22 * d \<le> n * 2 ^ 22" using q(1) by simp
  moreover have "n * 2 ^ 22 \<le> ((?q + 1) * 2 ^ 22 - 1) * d"
  proof -
    have "(n + 1) * 2 ^ 22 \<le> (?q * d + d) * 2 ^ 22" using q(2) by simp
    then show ?thesis using assms(4) by (simp add: algebra_simps)
  qed
  ultimately obtain x where x: "num_div (num_of_int n) (num_of_int d) = Fin x"
    "of_int (?q * 2 ^ 22) / 2 ^ 22 \<le> x" "x \<le> of_int ((?q + 1) * 2 ^ 22 - 1) / 2 ^ 22"
    using num_div_int_bounds [of n d "?q * 2 ^ 22" "(?q + 1) * 2 ^ 22 - 1"] assms q(3) by auto
  then have "of_int ?q \<le> x" "x < of_int ?q + 1" by (simp_all add: field_simps)
  then have "\<lfloor>x\<rfloor> = ?q" by (simp add: floor_eq_iff)
  with x(1) show ?thesis by simp
qed

lemma round_num_div:
  assumes "0 \<le> n" "n < 2 ^ 32"
  shows "num_round (num_div (num_of_int n) (Fin 1000)) = num_of_int ((n + 500) div 1000)"
proof -
  define q where "q = (n + 500) div 1000"
  have q: "1000 * q \<le> n + 500" "n + 500 < 1000 * q + 1000" "0 \<le> q"
    using div_bounds [of 1000 "n + 500"] assms by (simp_all add: q_def pos_imp_zdiv_nonneg_iff)
  have "max 0 ((2 * q - 1) * 2 ^ 21) * 1000 \<le> n * 2 ^ 22" "n * 2 ^ 22 \<le> ((2 * q + 1) * 2 ^ 21 - 1) * 1000"
    "(2 * q + 1) * 2 ^ 21 - 1 \<le> 2 ^ 53"
    using q assms by (auto simp: max_def algebra_simps)
  then obtain x where x: "num_div (num_of_int n) (num_of_int 1000) = Fin x"
    "of_int (max 0 ((2 * q - 1) * 2 ^ 21)) / 2 ^ 22 \<le> x" "x \<le> of_int ((2 * q + 1) * 2 ^ 21 - 1) / 2 ^ 22"
    using num_div_int_bounds [of n 1000 "max 0 ((2 * q - 1) * 2 ^ 21)" "(2 * q + 1) * 2 ^ 21 - 1"] assms(1) by auto
  have "of_int ((2 * q - 1) * 2 ^ 21) / 2 ^ 22 \<le> x"
    using x(2) by (rule order_trans [rotated]) (intro divide_right_mono; simp)
  with x(3) have "of_int q \<le> x + 1/2" "x + 1/2 < of_int q + 1" by (simp_all add: field_simps)
  then have "\<lfloor>x + 1/2\<rfloor> = q" by (simp add: floor_eq_iff)
  with x(1) show ?thesis by (simp add: q_def)
qed

lemma num_rem_int:
  assumes "0 \<le> n" "0 < d"
  shows "num_rem (num_of_int n) (num_of_int d) = num_of_int (n mod d)"
proof -
  have "rat_trunc (of_int n / of_int d) = n div d"
    using assms by (simp add: rat_trunc_def floor_divide_of_int_eq divide_less_0_iff)
  then have "num_rem (num_of_int n) (num_of_int d) = Fin (of_int n - of_int (n div d) * of_int d)"
    using assms by simp
  also have "rat_of_int n - of_int (n div d) * of_int d = of_int (n - n div d * d)" by simp
  also have "n - n div d * d = n mod d" by (simp add: minus_div_mult_eq_mod)
  finally show ?thesis .
qed

end
