(* ===== verification/Json.thy ===== *)
theory Json
  imports JsNumber
begin

text \<open>
  JSON values as JavaScript holds them after \<open>JSON.parse\<close>: property order of objects,
  property access that throws on \<open>null\<close>, truthiness, strict equality, iteration, the parser and
  \<open>JSON.stringify\<close>. A missing property (\<open>undefined\<close>) is \<open>None\<close>.
\<close>

datatype json =
    JNull
  | JBool bool
  | JNum jsnum
  | JStr jsstring
  | JArr "json list"
  | JObj "(jsstring \<times> json) list"

type_synonym attrs = "(jsstring \<times> json) list"

datatype js_error = TypeError string | SyntaxError | RangeError string | Thrown jsstring | ReferenceError string

section \<open>Objects\<close>

text \<open>
  Own properties are enumerated with array indices first, in ascending order, then the other keys
  in insertion order. Writing to a present key keeps its place.
\<close>

definition is_array_index :: "jsstring \<Rightarrow> bool" where
  "is_array_index k \<longleftrightarrow>
     k \<noteq> [] \<and> length k \<le> 10 \<and> list_all is_digit_unit k \<and> (k = [0x30] \<or> hd k \<noteq> 0x30) \<and>
     nat_of_digits k < 4294967295"

fun obj_insert :: "jsstring \<Rightarrow> json \<Rightarrow> attrs \<Rightarrow> attrs" where
  "obj_insert k v [] = [(k, v)]"
| "obj_insert k v ((k', v') # m) =
     (if is_array_index k \<and> (\<not> is_array_index k' \<or> nat_of_digits k < nat_of_digits k')
      then (k, v) # (k', v') # m else (k', v') # obj_insert k v m)"

definition obj_put :: "jsstring \<Rightarrow> json \<Rightarrow> attrs \<Rightarrow> attrs" where
  "obj_put k v m = (if k \<in> fst ` set m then assoc_set k v m else obj_insert k v m)"

lemma map_of_obj_insert:
  "k \<notin> fst ` set m \<Longrightarrow> map_of (obj_insert k v m) = (map_of m)(k \<mapsto> v)"
  by (induction k v m rule: obj_insert.induct) (auto simp: fun_eq_iff)

lemma map_of_obj_put [simp]: "map_of (obj_put k v m) = (map_of m)(k \<mapsto> v)"
  by (simp add: obj_put_def map_of_obj_insert)

lemma set_keys_obj_insert [simp]: "fst ` set (obj_insert k v m) = insert k (fst ` set m)"
  by (induction k v m rule: obj_insert.induct) auto

lemma distinct_obj_insert:
  "k \<notin> fst ` set m \<Longrightarrow> distinct (map fst m) \<Longrightarrow> distinct (map fst (obj_insert k v m))"
proof (induction k v m rule: obj_insert.induct)
  case (2 k v k' v' m)
  then have "k' \<notin> fst ` set (obj_insert k v m)" "k' \<noteq> k" by auto
  with 2 show ?case by auto
qed simp

lemma distinct_obj_put [intro]:
  "distinct (map fst m) \<Longrightarrow> distinct (map fst (obj_put k v m))"
  by (simp add: obj_put_def distinct_obj_insert distinct_assoc_set)

interpretation obj_store: keyed_store map_of obj_put "[]"
  by unfold_locales auto

text \<open>
  Property access \<open>v[k]\<close> for a key that no prototype defines and that is neither \<open>length\<close> nor
  an index: the sources read \<open>role\<close>, \<open>content\<close>, \<open>function\<close> and the like.
\<close>

fun get_prop :: "json \<Rightarrow> string \<Rightarrow> (js_error, json option) result" where
  "get_prop JNull k = Inl (TypeError k)"
| "get_prop (JObj m) k = Inr (map_of m (js k))"
| "get_prop _ k = Inr None"

text \<open>\<open>v?.k\<close>\<close>

fun get_prop_opt :: "json \<Rightarrow> string \<Rightarrow> json option" where
  "get_prop_opt (JObj m) k = map_of m (js k)"
| "get_prop_opt _ k = None"

fun truthy :: "json \<Rightarrow> bool" where
  "truthy JNull = False"
| "truthy (JBool b) = b"
| "truthy (JNum n) = num_truthy n"
| "truthy (JStr s) = (s \<noteq> [])"
| "truthy (JArr _) = True"
| "truthy (JObj _) = True"

definition truthy_opt :: "json option \<Rightarrow> bool" where
  "truthy_opt v = (case v of None \<Rightarrow> False | Some j \<Rightarrow> truthy j)"

text \<open>\<open>v == null\<close>\<close>

definition nullish :: "json option \<Rightarrow> bool" where
  "nullish v \<longleftrightarrow> v = None \<or> v = Some JNull"

text \<open>\<open>v ?? d\<close>\<close>

definition or_else :: "json option \<Rightarrow> json option \<Rightarrow> json option" where
  "or_else v d = (if nullish v then d else v)"

text \<open>
  \<open>===\<close> between values of different parses: arrays and objects are distinct references.
\<close>

fun strict_eq :: "json \<Rightarrow> json \<Rightarrow> bool" where
  "strict_eq JNull JNull = True"
| "strict_eq (JBool a) (JBool b) = (a = b)"
| "strict_eq (JNum a) (JNum b) = num_eq a b"
| "strict_eq (JStr a) (JStr b) = (a = b)"
| "strict_eq _ _ = False"

definition strict_eq_opt :: "json option \<Rightarrow> json option \<Rightarrow> bool" where
  "strict_eq_opt a b = (case (a, b) of (None, None) \<Rightarrow> True | (Some x, Some y) \<Rightarrow> strict_eq x y | _ \<Rightarrow> False)"

definition is_string :: "json option \<Rightarrow> bool" where
  "is_string v \<longleftrightarrow> (case v of Some (JStr _) \<Rightarrow> True | _ \<Rightarrow> False)"

definition string_of :: "json option \<Rightarrow> jsstring" where
  "string_of v = (case v of Some (JStr s) \<Rightarrow> s | _ \<Rightarrow> [])"

lemma get_prop_not_null: "v \<noteq> JNull \<Longrightarrow> get_prop v k = Inr (get_prop_opt v k)"
  by (cases v) auto

lemma truthy_opt_simps [simp]:
  "\<not> truthy_opt None" "truthy_opt (Some j) = truthy j"
  by (auto simp: truthy_opt_def)

lemma nullish_simps [simp]: "nullish None" "nullish (Some JNull)" "nullish (Some (JStr s)) = False"
  by (auto simp: nullish_def)

lemma is_string_iff: "is_string v \<longleftrightarrow> (\<exists>s. v = Some (JStr s))"
  by (auto simp: is_string_def split: option.splits json.splits)

lemma string_of_JStr [simp]: "string_of (Some (JStr s)) = s"
  by (simp add: string_of_def)

text \<open>\<open>for (const x of v)\<close>: arrays by element, strings by code point, anything else throws.\<close>

definition is_high_surrogate :: "unit16 \<Rightarrow> bool" where
  "is_high_surrogate u \<longleftrightarrow> 0xD800 \<le> u \<and> u \<le> 0xDBFF"

definition is_low_surrogate :: "unit16 \<Rightarrow> bool" where
  "is_low_surrogate u \<longleftrightarrow> 0xDC00 \<le> u \<and> u \<le> 0xDFFF"

fun code_points :: "jsstring \<Rightarrow> jsstring list" where
  "code_points [] = []"
| "code_points [u] = [[u]]"
| "code_points (u # v # s) =
     (if is_high_surrogate u \<and> is_low_surrogate v then [u, v] # code_points s
      else [u] # code_points (v # s))"

fun iterate :: "json \<Rightarrow> (js_error, json list) result" where
  "iterate (JArr xs) = Inr xs"
| "iterate (JStr s) = Inr (map JStr (code_points s))"
| "iterate _ = Inl (TypeError ''not iterable'')"

lemma concat_code_points: "concat (code_points s) = s"
  by (induction s rule: code_points.induct) auto

section \<open>JSON.parse\<close>

definition is_json_ws :: "unit16 \<Rightarrow> bool" where
  "is_json_ws u \<longleftrightarrow> u = 0x20 \<or> u = 9 \<or> u = 10 \<or> u = 13"

definition skip_ws :: "jsstring \<Rightarrow> jsstring" where
  "skip_ws s = dropWhile is_json_ws s"

definition hex_value :: "unit16 \<Rightarrow> nat option" where
  "hex_value u =
     (if is_digit_unit u then Some (unat u - 48)
      else if 0x41 \<le> u \<and> u \<le> 0x46 then Some (unat u - 55)
      else if 0x61 \<le> u \<and> u \<le> 0x66 then Some (unat u - 87) else None)"

definition hex4 :: "unit16 \<Rightarrow> unit16 \<Rightarrow> unit16 \<Rightarrow> unit16 \<Rightarrow> unit16 option" where
  "hex4 a b c d =
     (case (hex_value a, hex_value b, hex_value c, hex_value d) of
        (Some w, Some x, Some y, Some z) \<Rightarrow> Some (of_nat (((w * 16 + x) * 16 + y) * 16 + z))
      | _ \<Rightarrow> None)"

definition simple_escape :: "unit16 \<Rightarrow> unit16 option" where
  "simple_escape e =
     (if e = 0x22 \<or> e = 0x5C \<or> e = 0x2F then Some e
      else if e = 0x62 then Some 8 else if e = 0x66 then Some 12 else if e = 0x6E then Some 10
      else if e = 0x72 then Some 13 else if e = 0x74 then Some 9 else None)"

text \<open>The rest of a string literal, after its opening quote.\<close>

fun string_body :: "jsstring \<Rightarrow> (jsstring \<times> jsstring) option" where
  "string_body [] = None"
| "string_body (u # s) =
     (if u = 0x22 then Some ([], s)
      else if u = 0x5C then
        (case s of
           [] \<Rightarrow> None
         | e # t \<Rightarrow>
             if e = 0x75 then
               (case t of
                  a # b # c # d # r \<Rightarrow>
                    (case hex4 a b c d of
                       None \<Rightarrow> None
                     | Some v \<Rightarrow> map_option (apfst (Cons v)) (string_body r))
                | _ \<Rightarrow> None)
             else (case simple_escape e of
                     None \<Rightarrow> None
                   | Some v \<Rightarrow> map_option (apfst (Cons v)) (string_body t)))
      else if u < 0x20 then None
      else map_option (apfst (Cons u)) (string_body s))"

definition span_digits :: "jsstring \<Rightarrow> jsstring \<times> jsstring" where
  "span_digits s = (takeWhile is_digit_unit s, dropWhile is_digit_unit s)"

text \<open>An exponent part if one is there; its absence is the exponent 0.\<close>

definition exponent_part :: "jsstring \<Rightarrow> (int \<times> jsstring) option" where
  "exponent_part s =
     (case s of
        u # t \<Rightarrow>
          if u = 0x65 \<or> u = 0x45 then
            (let (neg, r) = (case t of v # t' \<Rightarrow> if v = 0x2D then (True, t') else if v = 0x2B then (False, t')
                                        else (False, t) | [] \<Rightarrow> (False, t));
                 (ds, r') = span_digits r
             in if ds = [] then None
                else Some ((if neg then - 1 else 1) * int (nat_of_digits ds), r'))
          else Some (0, s)
      | [] \<Rightarrow> Some (0, s))"

definition json_number :: "jsstring \<Rightarrow> (jsnum \<times> jsstring) option" where
  "json_number s =
     (let (neg, s1) = (case s of u # t \<Rightarrow> if u = 0x2D then (True, t) else (False, s) | [] \<Rightarrow> (False, s));
          (ds, r) = span_digits s1
      in if ds = [] \<or> (hd ds = 0x30 \<and> length ds > 1) then None
         else (let (fs, r2, ok) =
                 (case r of u # t \<Rightarrow> if u = 0x2E then (let (f, r') = span_digits t in (f, r', f \<noteq> [])) else ([], r, True)
                          | [] \<Rightarrow> ([], r, True))
               in if \<not> ok then None
                  else (case exponent_part r2 of
                          None \<Rightarrow> None
                        | Some (e, r3) \<Rightarrow>
                            (let v = of_nat (nat_of_digits (ds @ fs)) * 10 powi (e - int (length fs))
                             in Some (to_double (if neg then - v else v), r3)))))"

text \<open>
  Values, array elements and object members. Each call spends one unit of fuel; a document of
  \<open>n\<close> units nests at most \<open>n\<close> calls, and \<open>JSON_parse\<close> gives it two per unit.
\<close>

fun parse_value :: "nat \<Rightarrow> jsstring \<Rightarrow> (json \<times> jsstring) option"
and parse_elems :: "nat \<Rightarrow> json list \<Rightarrow> jsstring \<Rightarrow> (json \<times> jsstring) option"
and parse_members :: "nat \<Rightarrow> attrs \<Rightarrow> jsstring \<Rightarrow> (json \<times> jsstring) option" where
  "parse_value 0 s = None"
| "parse_value (Suc n) s =
     (case skip_ws s of
        [] \<Rightarrow> None
      | u # t \<Rightarrow>
          if u = 0x22 then map_option (apfst JStr) (string_body t)
          else if u = 0x5B then
            (case skip_ws t of
               v # r \<Rightarrow> if v = 0x5D then Some (JArr [], r) else parse_elems n [] t
             | [] \<Rightarrow> None)
          else if u = 0x7B then
            (case skip_ws t of
               v # r \<Rightarrow> if v = 0x7D then Some (JObj [], r) else parse_members n [] t
             | [] \<Rightarrow> None)
          else if starts_with (u # t) (js ''null'') then Some (JNull, drop 4 (u # t))
          else if starts_with (u # t) (js ''true'') then Some (JBool True, drop 4 (u # t))
          else if starts_with (u # t) (js ''false'') then Some (JBool False, drop 5 (u # t))
          else map_option (apfst JNum) (json_number (u # t)))"
| "parse_elems 0 acc s = None"
| "parse_elems (Suc n) acc s =
     (case parse_value n s of
        None \<Rightarrow> None
      | Some (v, r) \<Rightarrow>
          (case skip_ws r of
             u # t \<Rightarrow> if u = 0x2C then parse_elems n (acc @ [v]) t
                       else if u = 0x5D then Some (JArr (acc @ [v]), t) else None
           | [] \<Rightarrow> None))"
| "parse_members 0 acc s = None"
| "parse_members (Suc n) acc s =
     (case skip_ws s of
        q # t \<Rightarrow>
          if q = 0x22 then
            (case string_body t of
               None \<Rightarrow> None
             | Some (k, r) \<Rightarrow>
                 (case skip_ws r of
                    c # r' \<Rightarrow>
                      if c = 0x3A then
                        (case parse_value n r' of
                           None \<Rightarrow> None
                         | Some (v, r2) \<Rightarrow>
                             (case skip_ws r2 of
                                u # t' \<Rightarrow>
                                  if u = 0x2C then parse_members n (obj_put k v acc) t'
                                  else if u = 0x7D then Some (JObj (obj_put k v acc), t') else None
                              | [] \<Rightarrow> None))
                      else None
                  | [] \<Rightarrow> None))
          else None
      | [] \<Rightarrow> None)"

definition JSON_parse :: "jsstring \<Rightarrow> (js_error, json) result" where
  "JSON_parse s =
     (case parse_value (2 * length s + 2) s of
        Some (v, r) \<Rightarrow> if skip_ws r = [] then Inr v else Inl SyntaxError
      | None \<Rightarrow> Inl SyntaxError)"

text \<open>
  The fuel is enough: every parser consumes input, so from \<open>2 * length s + 1\<close> on (one more for
  the list parsers) the amount of fuel does not change the result.
\<close>

lemma string_body_shorter: "string_body s = Some (x, r) \<Longrightarrow> length r < length s"
  by (induction s arbitrary: x rule: string_body.induct)
     (fastforce split: if_splits list.splits option.splits)+

lemma length_span_digits:
  "span_digits s = (ds, r) \<Longrightarrow> length s = length ds + length r"
  by (auto simp: span_digits_def simp flip: length_append)

lemma exponent_part_shorter: "exponent_part s = Some (e, r) \<Longrightarrow> length r \<le> length s"
  by (auto simp: exponent_part_def Let_def split: list.splits if_splits prod.splits
      dest!: length_span_digits)

lemma json_number_shorter: "json_number s = Some (v, r) \<Longrightarrow> length r < length s"
  by (auto simp: json_number_def Let_def neq_Nil_conv
      split: list.splits if_splits prod.splits option.splits
      dest!: length_span_digits exponent_part_shorter)

lemma length_skip_ws: "length (skip_ws s) \<le> length s"
  by (simp add: skip_ws_def length_dropWhile_le)

lemma skip_ws_Cons: "skip_ws s = u # t \<Longrightarrow> length t < length s"
  using length_skip_ws [of s] by simp

lemma parse_shorter:
  "parse_value n s = Some (v, r) \<Longrightarrow> length r < length s"
  "parse_elems n acc s = Some (v, r) \<Longrightarrow> length r < length s"
  "parse_members n m s = Some (v, r) \<Longrightarrow> length r < length s"
proof (induction n s and n acc s and n m s arbitrary: v r and v r and v r
    rule: parse_value_parse_elems_parse_members.induct)
  case (2 n s)
  then show ?case
    by (fastforce split: list.splits if_splits option.splits
        dest!: skip_ws_Cons string_body_shorter json_number_shorter)
next
  case (4 n acc s)
  then show ?case
    by (fastforce split: list.splits if_splits option.splits dest!: skip_ws_Cons)
next
  case (6 n m s)
  then show ?case
    by (fastforce split: list.splits if_splits option.splits
        dest!: skip_ws_Cons string_body_shorter)
qed simp_all

declare parse_value.simps [simp del] parse_elems.simps [simp del] parse_members.simps [simp del]

lemma parse_fuel:
  "2 * length s + 1 \<le> n \<Longrightarrow> parse_value (Suc n) s = parse_value n s"
  "2 * length s + 2 \<le> n \<Longrightarrow> parse_elems (Suc n) acc s = parse_elems n acc s"
  "2 * length s + 2 \<le> n \<Longrightarrow> parse_members (Suc n) m s = parse_members n m s"
proof (induction n s and n acc s and n m s
    rule: parse_value_parse_elems_parse_members.induct)
  case (2 n s)
  show ?case
  proof (cases "skip_ws s")
    case (Cons u t)
    then have len: "2 * length t + 2 \<le> n" using "2.prems" skip_ws_Cons [OF Cons] by simp
    show ?thesis
    proof (cases "skip_ws t")
      case Nil
      then show ?thesis by (simp add: parse_value.simps(2) Cons)
    next
      case (Cons w x)
      have "u = 0x5B \<Longrightarrow> w \<noteq> 0x5D \<Longrightarrow> parse_elems (Suc n) [] t = parse_elems n [] t"
        using "2.IH"(1) [OF \<open>skip_ws s = u # t\<close> _ _ Cons _ len] by simp
      moreover have "u = 0x7B \<Longrightarrow> w \<noteq> 0x7D \<Longrightarrow> parse_members (Suc n) [] t = parse_members n [] t"
        using "2.IH"(2) [OF \<open>skip_ws s = u # t\<close> _ _ _ Cons _ len] by simp
      ultimately show ?thesis
        by (simp add: parse_value.simps(2) Cons \<open>skip_ws s = u # t\<close>)
    qed
  qed (simp add: parse_value.simps(2))
next
  case (4 n acc s)
  show ?case
  proof (cases "parse_value n s")
    case None
    with "4.IH"(1) "4.prems" show ?thesis by (simp add: parse_elems.simps(2))
  next
    case (Some vr)
    obtain v r where vr: "vr = (v, r)" by fastforce
    with Some have "length r < length s" by (auto dest: parse_shorter)
    have "parse_elems (Suc n) (acc @ [v]) t = parse_elems n (acc @ [v]) t"
      if "skip_ws r = 0x2C # t" for t
      using "4.IH"(2) [OF Some vr [symmetric] that refl] skip_ws_Cons [OF that] \<open>length r < length s\<close> "4.prems"
      by simp
    with Some vr "4.IH"(1) "4.prems" show ?thesis
      by (simp add: parse_elems.simps(2) split: list.split)
  qed
next
  case (6 n m s)
  show ?case
  proof (cases "skip_ws s")
    case Nil
    then show ?thesis by (simp add: parse_members.simps(2))
  next
    case (Cons q t)
    note q = this
    show ?thesis
    proof (cases "q = 0x22")
      case True
      note q' = this
      show ?thesis
      proof (cases "string_body t")
        case None
        with q q' show ?thesis by (simp add: parse_members.simps(2))
      next
        case (Some kr)
        obtain k r where kr: "kr = (k, r)" by fastforce
        have lr: "length r + 2 \<le> length s"
          using string_body_shorter [of t k r] skip_ws_Cons [OF q] Some kr by simp
        have val: "parse_value (Suc n) x = parse_value n x" if "skip_ws r = 0x3A # x" for x
          using "6.IH"(1) [OF q q' Some kr [symmetric] that refl] skip_ws_Cons [OF that] lr "6.prems" by simp
        have rest: "parse_members (Suc n) (obj_put k v m) y = parse_members n (obj_put k v m) y"
          if "skip_ws r = 0x3A # x" "parse_value n x = Some (v, z)" "skip_ws z = 0x2C # y" for x v z y
          using "6.IH"(2) [OF q q' Some kr [symmetric] that(1) refl that(2) refl that(3) refl] skip_ws_Cons [OF that(1)]
            skip_ws_Cons [OF that(3)] parse_shorter(1) [OF that(2)] lr "6.prems" by simp
        show ?thesis
          by (auto simp: parse_members.simps(2) q q' Some kr val dest: rest split: list.split option.split)
      qed
    qed (use q in \<open>simp add: parse_members.simps(2)\<close>)
  qed
qed simp_all

section \<open>JSON.stringify\<close>

definition unicode_escape :: "unit16 \<Rightarrow> jsstring" where
  "unicode_escape u = [0x5C, 0x75] @ pad_start 4 0x30 (radix_nat 16 (unat u))"

fun quote_units :: "jsstring \<Rightarrow> jsstring" where
  "quote_units [] = []"
| "quote_units (u # s) =
     (if u = 0x22 \<or> u = 0x5C then 0x5C # u # quote_units s
      else if u = 8 then 0x5C # 0x62 # quote_units s
      else if u = 12 then 0x5C # 0x66 # quote_units s
      else if u = 10 then 0x5C # 0x6E # quote_units s
      else if u = 13 then 0x5C # 0x72 # quote_units s
      else if u = 9 then 0x5C # 0x74 # quote_units s
      else if u < 0x20 then unicode_escape u @ quote_units s
      else if is_high_surrogate u then
        (case s of
           v # t \<Rightarrow> if is_low_surrogate v then u # v # quote_units t
                     else unicode_escape u @ quote_units s
         | [] \<Rightarrow> unicode_escape u)
      else if is_low_surrogate u then unicode_escape u @ quote_units s
      else u # quote_units s)"

definition quote :: "jsstring \<Rightarrow> jsstring" where
  "quote s = 0x22 # quote_units s @ [0x22]"

fun JSON_stringify :: "json \<Rightarrow> jsstring" where
  "JSON_stringify JNull = js ''null''"
| "JSON_stringify (JBool b) = (if b then js ''true'' else js ''false'')"
| "JSON_stringify (JNum n) = (case n of Fin _ \<Rightarrow> num_to_string n | _ \<Rightarrow> js ''null'')"
| "JSON_stringify (JStr s) = quote s"
| "JSON_stringify (JArr xs) = js ''['' @ join (js '','') (map JSON_stringify xs) @ js '']''"
| "JSON_stringify (JObj m) =
     js ''{'' @ join (js '','') (map (\<lambda>(k, v). quote k @ js '':'' @ JSON_stringify v) m) @ js ''}''"

end
