(* ===== verification/SdkTypes.thy ===== *)
theory SdkTypes
  imports Json
begin

text \<open>
  \<open>sdk/ts/src/types.ts\<close>: the data the SDK exchanges with the ingest and query APIs. An optional
  field that is \<open>undefined\<close> is \<open>None\<close> and is left out of the JSON text.
\<close>

datatype SpanKind = Llm | Tool | Agent | Chain | Internal

instantiation SpanKind :: linorder
begin

fun SpanKind_rank :: "SpanKind \<Rightarrow> nat" where
  "SpanKind_rank Llm = 0"
| "SpanKind_rank Tool = 1"
| "SpanKind_rank Agent = 2"
| "SpanKind_rank Chain = 3"
| "SpanKind_rank Internal = 4"

definition less_eq_SpanKind :: "SpanKind \<Rightarrow> SpanKind \<Rightarrow> bool" where
  "less_eq_SpanKind a b \<longleftrightarrow> SpanKind_rank a \<le> SpanKind_rank b"

definition less_SpanKind :: "SpanKind \<Rightarrow> SpanKind \<Rightarrow> bool" where
  "less_SpanKind a b \<longleftrightarrow> SpanKind_rank a < SpanKind_rank b"

instance
proof
  fix a b :: SpanKind
  show "a \<le> b \<Longrightarrow> b \<le> a \<Longrightarrow> a = b"
    by (cases a; cases b) (auto simp: less_eq_SpanKind_def)
qed (auto simp: less_eq_SpanKind_def less_SpanKind_def)

end

fun kind_text :: "SpanKind \<Rightarrow> string" where
  "kind_text Llm = ''llm''"
| "kind_text Tool = ''tool''"
| "kind_text Agent = ''agent''"
| "kind_text Chain = ''chain''"
| "kind_text Internal = ''internal''"

lemma kind_text_inj [simp]: "kind_text a = kind_text b \<longleftrightarrow> a = b"
  by (cases a; cases b) auto

type_synonym SpanAttributes = attrs

record OmnevalSpan =
  os_span_id :: jsstring
  os_trace_id :: jsstring
  os_parent_id :: "jsstring option"
  os_conversation_id :: "jsstring option"
  os_name :: jsstring
  os_kind :: "SpanKind option"
  os_model :: "jsstring option"
  os_input :: "jsstring option"
  os_output :: "jsstring option"
  os_input_tokens :: "jsnum option"
  os_output_tokens :: "jsnum option"
  os_prompt_name :: "jsstring option"
  os_prompt_version :: "jsnum option"
  os_attributes :: "SpanAttributes option"
  os_start_time :: "int option"
  os_end_time :: "int option"

record OmnevalConfig =
  baseUrl :: jsstring
  apiKey :: "jsstring option"

record PromptModelConfig =
  pmc_model :: "jsstring option"
  pmc_temperature :: "jsnum option"
  pmc_max_tokens :: "jsnum option"

record GetPromptOptions =
  gpo_label :: "jsstring option"
  gpo_version :: "jsnum option"

record WriteScoreOptions =
  wso_name :: jsstring
  wso_value :: jsnum
  wso_reasoning :: "jsstring option"

record CreatePromptOptions =
  cpo_model_config :: "PromptModelConfig option"
  cpo_label :: "jsstring option"

record CreateEvalRuleOptions =
  cero_filter :: "attrs option"
  cero_judge_model :: "jsstring option"
  cero_sample_rate :: "jsnum option"
  cero_prompt_version :: "jsnum option"
  cero_prompt_label :: "jsstring option"

text \<open>
  An object literal whose \<open>undefined\<close> values are dropped, as \<open>JSON.stringify\<close> drops them; the
  keys the sources use are not array indices, so the order is the literal's.
\<close>

fun object_of :: "(string \<times> json option) list \<Rightarrow> attrs" where
  "object_of [] = []"
| "object_of ((k, None) # fs) = object_of fs"
| "object_of ((k, Some v) # fs) = (js k, v) # object_of fs"

definition span_json :: "OmnevalSpan \<Rightarrow> json" where
  "span_json s = JObj (object_of
     [(''span_id'', Some (JStr (os_span_id s))),
      (''trace_id'', Some (JStr (os_trace_id s))),
      (''parent_id'', map_option JStr (os_parent_id s)),
      (''name'', Some (JStr (os_name s))),
      (''kind'', map_option (\<lambda>k. JStr (js (kind_text k))) (os_kind s)),
      (''model'', map_option JStr (os_model s)),
      (''input'', map_option JStr (os_input s)),
      (''output'', map_option JStr (os_output s)),
      (''input_tokens'', map_option JNum (os_input_tokens s)),
      (''output_tokens'', map_option JNum (os_output_tokens s)),
      (''prompt_name'', map_option JStr (os_prompt_name s)),
      (''prompt_version'', map_option JNum (os_prompt_version s)),
      (''conversation_id'', map_option JStr (os_conversation_id s)),
      (''attributes'', map_option JObj (os_attributes s)),
      (''start_time'', map_option (\<lambda>t. JNum (num_of_int t)) (os_start_time s)),
      (''end_time'', map_option (\<lambda>t. JNum (num_of_int t)) (os_end_time s))])"

lemma map_of_object_of:
  "distinct (map fst fs) \<Longrightarrow>
   map_of (object_of fs) (js k) = (case map_of fs k of Some v \<Rightarrow> v | None \<Rightarrow> None)"
proof (induction fs rule: object_of.induct)
  case (2 k' fs)
  then have "k = k' \<Longrightarrow> map_of fs k = None" by (auto simp: map_of_eq_None_iff)
  with 2 show ?case by (cases "map_of fs k") auto
qed auto

section \<open>HTTP\<close>

text \<open>A request as the sources hand it to \<open>fetch\<close>, and what comes back.\<close>

datatype http_method = GET | POST | PUT | DELETE | PATCH

record request =
  req_method :: http_method
  req_url :: jsstring
  req_headers :: "(string \<times> jsstring) list"
  req_body :: "jsstring option"

datatype http_result =
    NetworkError jsstring
  | Response (status: nat) (body: jsstring)

text \<open>\<open>response.ok\<close>\<close>

definition ok_status :: "nat \<Rightarrow> bool" where
  "ok_status n \<longleftrightarrow> 200 \<le> n \<and> n \<le> 299"

definition has_header :: "request \<Rightarrow> string \<Rightarrow> jsstring \<Rightarrow> bool" where
  "has_header r k v \<longleftrightarrow> map_of (req_headers r) k = Some v"

end
