(* ===== verification/Exporter.thy ===== *)
theory Exporter
  imports SdkTypes
begin

text \<open>
  \<open>sdk/ts/src/exporter.ts\<close>: the span exporter, and \<open>sdk/ts/src/node/exporter.ts\<close>: the OTLP
  exporter's configuration. \<open>export_request\<close> is the synchronous part of \<open>export\<close> (up to the
  \<open>await\<close>), \<open>export_outcome\<close> what it resolves to for each way \<open>fetch\<close> can end; the abort after
  \<open>timeoutMs\<close> is one of the network errors.
\<close>

record SpanExporter =
  ex_baseUrl :: jsstring
  ex_apiKey :: "jsstring option"

definition timeoutMs :: nat where "timeoutMs = 10000"

definition new_SpanExporter :: "jsstring \<Rightarrow> jsstring option \<Rightarrow> SpanExporter" where
  "new_SpanExporter url key = \<lparr>ex_baseUrl = url, ex_apiKey = key\<rparr>"

text \<open>The \<open>X-API-Key\<close> header is added when the key is a non-empty string.\<close>

definition key_header :: "jsstring option \<Rightarrow> (string \<times> jsstring) list" where
  "key_header key =
     (case key of Some k \<Rightarrow> if k \<noteq> [] then [(''X-API-Key'', k)] else [] | None \<Rightarrow> [])"

definition spans_body :: "OmnevalSpan list \<Rightarrow> jsstring" where
  "spans_body spans = JSON_stringify (JObj [(js ''spans'', JArr (map span_json spans))])"

definition export_request :: "SpanExporter \<Rightarrow> OmnevalSpan list \<Rightarrow> request option" where
  "export_request ex spans =
     (if spans = [] then None
      else Some \<lparr>req_method = POST,
                 req_url = ex_baseUrl ex @ js ''/api/v1/spans'',
                 req_headers = (''Content-Type'', js ''application/json'') # key_header (ex_apiKey ex),
                 req_body = Some (spans_body spans)\<rparr>)"

fun export_outcome :: "http_result \<Rightarrow> bool" where
  "export_outcome (NetworkError _) = False"
| "export_outcome (Response st _) = ok_status st"

definition export_spans :: "SpanExporter \<Rightarrow> (request \<Rightarrow> http_result) \<Rightarrow> OmnevalSpan list \<Rightarrow> bool" where
  "export_spans ex fetch spans =
     (case export_request ex spans of None \<Rightarrow> True | Some r \<Rightarrow> export_outcome (fetch r))"

section \<open>The OTLP exporter's configuration\<close>

record OTLPConfig =
  otlp_url :: jsstring
  otlp_headers :: "(string \<times> jsstring) list option"

text \<open>\<open>replace(/\/+$/, "")\<close>\<close>

definition strip_trailing_slashes :: "jsstring \<Rightarrow> jsstring" where
  "strip_trailing_slashes s = rev (dropWhile (\<lambda>u. u = 0x2F) (rev s))"

definition buildOmnevalExporterConfig :: "jsstring \<Rightarrow> jsstring option \<Rightarrow> OTLPConfig" where
  "buildOmnevalExporterConfig url key =
     \<lparr>otlp_url = strip_trailing_slashes url @ js ''/v1/traces'',
      otlp_headers = (case key of Some k \<Rightarrow> if k \<noteq> [] then Some [(''X-API-Key'', k)] else None
                                | None \<Rightarrow> None)\<rparr>"

lemma strip_trailing_slashes_last:
  "strip_trailing_slashes s = [] \<or> last (strip_trailing_slashes s) \<noteq> 0x2F"
proof -
  have "dropWhile (\<lambda>u. u = 0x2F) (rev s) = [] \<or> hd (dropWhile (\<lambda>u. u = 0x2F) (rev s)) \<noteq> 0x2F"
    using hd_dropWhile [of "\<lambda>u. u = 0x2F" "rev s"] by blast
  then show ?thesis by (auto simp: strip_trailing_slashes_def last_rev)
qed

lemma strip_trailing_slashes_append:
  "set t \<subseteq> {0x2F} \<Longrightarrow> strip_trailing_slashes (s @ t) = strip_trailing_slashes s"
  unfolding strip_trailing_slashes_def rev_append
  by (subst dropWhile_append2) auto

lemma strip_trailing_slashes_id:
  "s = [] \<or> last s \<noteq> 0x2F \<Longrightarrow> strip_trailing_slashes s = s"
  by (cases s rule: rev_cases) (auto simp: strip_trailing_slashes_def)

text \<open>
  An export succeeds exactly when there is nothing to send or the server answered with a 2xx
  status; everything else (refused connection, abort after the timeout, any other status) is
  \<open>False\<close>, never an exception.
\<close>

lemma export_success_iff:
  "export_spans ex fetch spans \<longleftrightarrow>
     spans = [] \<or>
     (\<exists>r st b. export_request ex spans = Some r \<and> fetch r = Response st b \<and> 200 \<le> st \<and> st \<le> 299)"
  by (cases "fetch (the (export_request ex spans))")
     (auto simp: export_spans_def export_request_def ok_status_def)

text \<open>
  The OTLP endpoint does not depend on how many slashes end the base URL, and never has two
  slashes before \<open>v1\<close>; the key travels in \<open>X-API-Key\<close>, and only when there is one.
\<close>

lemma otlp_config_normalised:
  "buildOmnevalExporterConfig (url @ replicate n 0x2F) key = buildOmnevalExporterConfig url key \<and>
   (\<forall>p. otlp_url (buildOmnevalExporterConfig url key) \<noteq> p @ js ''//v1/traces'') \<and>
   (otlp_headers (buildOmnevalExporterConfig url key) =
      (if key = None \<or> key = Some [] then None else Some [(''X-API-Key'', the key)]))"
proof (intro conjI allI)
  show "buildOmnevalExporterConfig (url @ replicate n 0x2F) key = buildOmnevalExporterConfig url key"
    using strip_trailing_slashes_append [of "replicate n 0x2F" url]
    by (simp add: buildOmnevalExporterConfig_def set_replicate_conv_if)
next
  fix p
  have slash: "js ''//v1/traces'' = [0x2F] @ js ''/v1/traces''"
    by (simp add: js_def)
  show "otlp_url (buildOmnevalExporterConfig url key) \<noteq> p @ js ''//v1/traces''"
  proof
    assume "otlp_url (buildOmnevalExporterConfig url key) = p @ js ''//v1/traces''"
    then have "strip_trailing_slashes url = p @ [0x2F]"
      unfolding slash by (simp add: buildOmnevalExporterConfig_def flip: append_assoc)
    then show False using strip_trailing_slashes_last [of url] by simp
  qed
qed (auto simp: buildOmnevalExporterConfig_def split: option.split)

end
