(* ===== verification/Ids.thy ===== *)
theory Ids
  imports JsString
begin

text \<open>
  \<open>sdk/ts/src/id.ts\<close>: trace, span and conversation identifiers. The bytes that
  \<open>crypto.getRandomValues\<close> fills in are the argument; its documented behaviour is that a
  \<open>Uint8Array(n)\<close> comes back with \<open>n\<close> bytes.
\<close>

definition hex_byte :: "8 word \<Rightarrow> jsstring" where
  "hex_byte b = pad_start 2 0x30 (radix_nat 16 (unat b))"

definition generateTraceId :: "8 word list \<Rightarrow> jsstring" where
  "generateTraceId bytes = concat (map hex_byte bytes)"

definition generateSpanId :: "8 word list \<Rightarrow> jsstring" where
  "generateSpanId bytes = concat (map hex_byte bytes)"

definition generateConversationId :: "8 word list \<Rightarrow> jsstring" where
  "generateConversationId bytes = concat (map hex_byte bytes)"

text \<open>What the ingest API accepts as an identifier of \<open>n\<close> characters.\<close>

definition is_lower_hex :: "unit16 \<Rightarrow> bool" where
  "is_lower_hex u \<longleftrightarrow> is_digit_unit u \<or> (0x61 \<le> u \<and> u \<le> 0x66)"

definition valid_id :: "nat \<Rightarrow> jsstring \<Rightarrow> bool" where
  "valid_id n s \<longleftrightarrow> length s = n \<and> list_all is_lower_hex s"

lemma digit_unit_hex: "d < 16 \<Longrightarrow> is_lower_hex (digit_unit d)"
  by (auto simp: is_lower_hex_def is_digit_unit_def digit_unit_def word_le_nat_alt
      unsigned_of_nat take_bit_nat_eq_self simp del: of_nat_add)

lemma digit_unit_inj: "d < 16 \<Longrightarrow> e < 16 \<Longrightarrow> digit_unit d = digit_unit e \<longleftrightarrow> d = e"
  by (auto simp: digit_unit_def word_unat_eq_iff unsigned_of_nat take_bit_nat_eq_self
      simp del: of_nat_add split: if_splits)

lemma hex_byte_digits: "hex_byte b = [digit_unit (unat b div 16), digit_unit (unat b mod 16)]"
proof -
  have b: "unat b < 256" using unsigned_less [of b] by simp
  have zero: "digit_unit 0 = 0x30" by (simp add: digit_unit_def)
  show ?thesis
  proof (cases "unat b < 16")
    case True
    then show ?thesis
      by (simp add: hex_byte_def radix_nat_less pad_start_def zero numeral_2_eq_2)
  next
    case False
    moreover have "unat b div 16 < 16" using b by (simp add: less_mult_imp_div_less)
    ultimately show ?thesis
      by (simp add: hex_byte_def radix_nat_step [of 16 "unat b"] radix_nat_less pad_start_def)
  qed
qed

lemma length_hex_byte [simp]: "length (hex_byte b) = 2"
  by (simp add: hex_byte_digits)

lemma hex_byte_hex: "list_all is_lower_hex (hex_byte b)"
proof -
  have "unat b < 256" using unsigned_less [of b] by simp
  then have "unat b div 16 < 16" by (simp add: less_mult_imp_div_less)
  then show ?thesis by (simp add: hex_byte_digits digit_unit_hex)
qed

lemma hex_byte_inj: "hex_byte a = hex_byte b \<longleftrightarrow> a = b"
proof
  assume eq: "hex_byte a = hex_byte b"
  have "unat a < 256" "unat b < 256" using unsigned_less [of a] unsigned_less [of b] by simp_all
  then have "unat a div 16 < 16" "unat b div 16 < 16" by (simp_all add: less_mult_imp_div_less)
  with eq have "unat a div 16 = unat b div 16" "unat a mod 16 = unat b mod 16"
    by (simp_all add: hex_byte_digits digit_unit_inj)
  then have "unat a = unat b" by (metis div_mult_mod_eq)
  then show "a = b" by (simp add: word_unat_eq_iff)
qed simp

lemma length_hex_bytes [simp]: "length (concat (map hex_byte bs)) = 2 * length bs"
  by (induction bs) auto

lemma hex_bytes_hex: "list_all is_lower_hex (concat (map hex_byte bs))"
  by (induction bs) (auto simp: hex_byte_hex)

lemma hex_bytes_inj: "concat (map hex_byte xs) = concat (map hex_byte ys) \<longleftrightarrow> xs = ys"
proof (induction xs arbitrary: ys)
  case Nil
  then show ?case by (cases ys) (auto simp: hex_byte_digits)
next
  case (Cons x xs)
  show ?case
  proof (cases ys)
    case Nil
    then show ?thesis by (simp add: hex_byte_digits)
  next
    case (Cons y zs)
    then show ?thesis by (simp add: append_eq_append_conv hex_byte_inj Cons.IH)
  qed
qed



end
