(* ===== verification/Tracer.thy ===== *)
theory Tracer
  imports Exporter Ids
begin

text \<open>
  \<open>sdk/ts/src/tracer.ts\<close>: \<open>ManualTracer\<close>. Each method is a function on the tracer's state; what
  the environment supplies (a drawn identifier, the clock) is an argument. \<open>flush\<close> is cut at its
  \<open>await\<close>: \<open>flush_begin\<close> snapshots the ended spans, \<open>flush_end\<close> runs when the export resolves. The
  step relation at the end interleaves any number of calls with the exports in flight.
\<close>

section \<open>State\<close>

record TrackedSpan =
  ts_span_id :: jsstring
  ts_trace_id :: jsstring
  ts_parent_id :: "jsstring option"
  ts_conversation_id :: "jsstring option"
  ts_name :: jsstring
  ts_kind :: "SpanKind option"
  ts_model :: "jsstring option"
  ts_input :: "jsstring option"
  ts_output :: "jsstring option"
  ts_input_tokens :: "jsnum option"
  ts_output_tokens :: "jsnum option"
  ts_prompt_name :: "jsstring option"
  ts_prompt_version :: "jsnum option"
  ts_attributes :: "SpanAttributes option"
  ts_start_time :: int
  ts_end_time :: "int option"

record ManualTracer =
  pending :: "TrackedSpan list"
  activeConversationId :: "jsstring option"

record StartSpanOptions =
  sso_parentSpanId :: "jsstring option"
  sso_kind :: "SpanKind option"
  sso_attributes :: "SpanAttributes option"

record EndSpanOptions =
  eso_output :: "jsstring option"
  eso_attributes :: "SpanAttributes option"

definition new_ManualTracer :: ManualTracer where
  "new_ManualTracer = \<lparr>pending = [], activeConversationId = None\<rparr>"

definition str_truthy :: "jsstring option \<Rightarrow> bool" where
  "str_truthy v = (case v of None \<Rightarrow> False | Some s \<Rightarrow> s \<noteq> [])"

definition find_tracked :: "jsstring \<Rightarrow> TrackedSpan list \<Rightarrow> TrackedSpan option" where
  "find_tracked i p = List.find (\<lambda>s. ts_span_id s = i) p"

section \<open>Starting a span\<close>

text \<open>
  \<open>findTraceId\<close>: the loop runs at most once per pending span; the first argument counts the
  iterations left. \<open>fresh\<close> is what \<open>generateTraceId()\<close> returns on the paths that call it.
\<close>

fun findTraceId_loop :: "nat \<Rightarrow> TrackedSpan list \<Rightarrow> jsstring \<Rightarrow> jsstring \<Rightarrow> jsstring" where
  "findTraceId_loop 0 p cur fresh = fresh"
| "findTraceId_loop (Suc n) p cur fresh =
     (case find_tracked cur p of
        None \<Rightarrow> fresh
      | Some t \<Rightarrow> (case ts_parent_id t of
                    Some q \<Rightarrow> if q \<noteq> [] then findTraceId_loop n p q fresh else ts_trace_id t
                  | None \<Rightarrow> ts_trace_id t))"

definition findTraceId :: "TrackedSpan list \<Rightarrow> jsstring \<Rightarrow> jsstring \<Rightarrow> jsstring" where
  "findTraceId p i fresh = findTraceId_loop (length p) p i fresh"

definition startSpan ::
    "jsstring \<Rightarrow> StartSpanOptions \<Rightarrow> jsstring \<Rightarrow> jsstring \<Rightarrow> int \<Rightarrow> ManualTracer \<Rightarrow> ManualTracer" where
  "startSpan nm opts spanId fresh now tr =
     tr\<lparr>pending := pending tr @
       [\<lparr>ts_span_id = spanId,
         ts_trace_id =
           (if str_truthy (sso_parentSpanId opts)
            then findTraceId (pending tr) (the (sso_parentSpanId opts)) fresh else fresh),
         ts_parent_id = sso_parentSpanId opts,
         ts_conversation_id = activeConversationId tr,
         ts_name = nm,
         ts_kind = sso_kind opts,
         ts_model = None, ts_input = None, ts_output = None,
         ts_input_tokens = None, ts_output_tokens = None,
         ts_prompt_name = None, ts_prompt_version = None,
         ts_attributes = sso_attributes opts,
         ts_start_time = now,
         ts_end_time = None\<rparr>]\<rparr>"

section \<open>Setters\<close>

definition modify :: "jsstring \<Rightarrow> (TrackedSpan \<Rightarrow> TrackedSpan) \<Rightarrow> ManualTracer \<Rightarrow> ManualTracer" where
  "modify i f tr = tr\<lparr>pending := update_first (\<lambda>s. ts_span_id s = i) f (pending tr)\<rparr>"

definition setModel :: "jsstring \<Rightarrow> jsstring \<Rightarrow> ManualTracer \<Rightarrow> ManualTracer" where
  "setModel i m = modify i (\<lambda>s. s\<lparr>ts_model := Some m\<rparr>)"

definition setInput :: "jsstring \<Rightarrow> jsstring \<Rightarrow> ManualTracer \<Rightarrow> ManualTracer" where
  "setInput i x = modify i (\<lambda>s. s\<lparr>ts_input := Some x\<rparr>)"

definition setTokens :: "jsstring \<Rightarrow> jsnum \<Rightarrow> jsnum \<Rightarrow> ManualTracer \<Rightarrow> ManualTracer" where
  "setTokens i a b = modify i (\<lambda>s. s\<lparr>ts_input_tokens := Some a, ts_output_tokens := Some b\<rparr>)"

definition setPrompt :: "jsstring \<Rightarrow> jsstring \<Rightarrow> jsnum option \<Rightarrow> ManualTracer \<Rightarrow> ManualTracer" where
  "setPrompt i nm v = modify i (\<lambda>s.
     (case v of None \<Rightarrow> s\<lparr>ts_prompt_name := Some nm\<rparr>
      | Some _ \<Rightarrow> s\<lparr>ts_prompt_name := Some nm, ts_prompt_version := v\<rparr>))"

definition setConversationId :: "jsstring \<Rightarrow> jsstring \<Rightarrow> ManualTracer \<Rightarrow> ManualTracer" where
  "setConversationId i c = modify i (\<lambda>s. s\<lparr>ts_conversation_id := Some c\<rparr>)"

definition setActiveConversationId :: "jsstring \<Rightarrow> ManualTracer \<Rightarrow> ManualTracer" where
  "setActiveConversationId c tr = tr\<lparr>activeConversationId := Some c\<rparr>"

section \<open>Ending a span and flushing\<close>

text \<open>Object spread: \<open>{...m, ...n}\<close>.\<close>

definition spread :: "attrs \<Rightarrow> attrs \<Rightarrow> attrs" where
  "spread m n = fold (\<lambda>(k, v). obj_put k v) n (fold (\<lambda>(k, v). obj_put k v) m [])"

definition mark_ended :: "EndSpanOptions \<Rightarrow> int \<Rightarrow> TrackedSpan \<Rightarrow> TrackedSpan" where
  "mark_ended opts now s =
     (let s' = s\<lparr>ts_end_time := Some now, ts_output := eso_output opts\<rparr>
      in case eso_attributes opts of
           None \<Rightarrow> s'
         | Some a \<Rightarrow> s'\<lparr>ts_attributes :=
             Some (spread (case ts_attributes s of None \<Rightarrow> [] | Some b \<Rightarrow> b) a)\<rparr>)"

definition to_omneval_span :: "TrackedSpan \<Rightarrow> OmnevalSpan" where
  "to_omneval_span s =
     \<lparr>os_span_id = ts_span_id s, os_trace_id = ts_trace_id s, os_parent_id = ts_parent_id s,
      os_conversation_id = ts_conversation_id s, os_name = ts_name s, os_kind = ts_kind s,
      os_model = ts_model s, os_input = ts_input s, os_output = ts_output s,
      os_input_tokens = ts_input_tokens s, os_output_tokens = ts_output_tokens s,
      os_prompt_name = ts_prompt_name s, os_prompt_version = ts_prompt_version s,
      os_attributes = ts_attributes s, os_start_time = Some (ts_start_time s),
      os_end_time = ts_end_time s\<rparr>"

definition ended :: "TrackedSpan \<Rightarrow> bool" where
  "ended s \<longleftrightarrow> ts_end_time s \<noteq> None"

text \<open>\<open>flush\<close> up to its \<open>await\<close>: the batch handed to the exporter, if any.\<close>

definition flush_begin :: "ManualTracer \<Rightarrow> OmnevalSpan list option" where
  "flush_begin tr =
     (if pending tr = [] then None
      else let endedSpans = filter ended (pending tr)
           in if endedSpans = [] then None else Some (map to_omneval_span endedSpans))"

text \<open>\<open>flush\<close> after its \<open>await\<close>.\<close>

definition flush_end :: "OmnevalSpan list \<Rightarrow> bool \<Rightarrow> ManualTracer \<Rightarrow> ManualTracer" where
  "flush_end batch success tr =
     (if success
      then tr\<lparr>pending := filter (\<lambda>s. ts_span_id s \<notin> os_span_id ` set batch) (pending tr)\<rparr>
      else tr)"

text \<open>\<open>endSpan\<close> up to the \<open>await\<close> inside \<open>flush\<close>; an unknown span is ignored, without a flush.\<close>

definition endSpan ::
    "jsstring \<Rightarrow> EndSpanOptions \<Rightarrow> int \<Rightarrow> ManualTracer \<Rightarrow> ManualTracer \<times> OmnevalSpan list option" where
  "endSpan i opts now tr =
     (case find_tracked i (pending tr) of
        None \<Rightarrow> (tr, None)
      | Some _ \<Rightarrow> let tr' = modify i (mark_ended opts now) tr in (tr', flush_begin tr'))"

end
