(* ===== verification/TracerLineage.thy ===== *)
theory TracerLineage
  imports Tracer
begin

text \<open>
  What \<open>findTraceId\<close> computes. The lineage of the pending spans maps an identifier to its parent
  and trace; \<open>root_trace\<close> follows parents to a root without any bound. The bounded loop of the code
  agrees with it: a chain that reaches a root visits each pending span at most once.
\<close>

type_synonym lineage = "jsstring \<rightharpoonup> jsstring option \<times> jsstring"

definition lineage :: "TrackedSpan list \<Rightarrow> lineage" where
  "lineage p = map_of (map (\<lambda>s. (ts_span_id s, ts_parent_id s, ts_trace_id s)) p)"

inductive root_trace :: "lineage \<Rightarrow> jsstring \<Rightarrow> jsstring \<Rightarrow> bool" for m where
  at_root: "m i = Some (q, tr) \<Longrightarrow> \<not> str_truthy q \<Longrightarrow> root_trace m i tr"
| to_parent: "m i = Some (Some q, tr') \<Longrightarrow> q \<noteq> [] \<Longrightarrow> root_trace m q tr \<Longrightarrow> root_trace m i tr"

inductive_cases root_traceE: "root_trace m i tr"

lemma str_truthy_simps [simp]: "\<not> str_truthy None" "str_truthy (Some s) \<longleftrightarrow> s \<noteq> []"
  by (simp_all add: str_truthy_def)

lemma lineage_find:
  "lineage p i = map_option (\<lambda>s. (ts_parent_id s, ts_trace_id s)) (find_tracked i p)"
  by (induction p) (auto simp: lineage_def find_tracked_def)

lemma dom_lineage: "dom (lineage p) = ts_span_id ` set p"
  by (simp add: lineage_def dom_map_of_conv_image_fst image_image)

lemma lineage_append: "lineage (p @ q) = lineage q ++ lineage p"
  by (simp add: lineage_def)

lemma singleton_map_add: "m k = None \<Longrightarrow> [k \<mapsto> v] ++ m = m(k \<mapsto> v)"
  by (rule ext) (simp add: map_add_def split: option.split)

lemma lineage_snoc:
  assumes "ts_span_id s \<notin> ts_span_id ` set p"
  shows "lineage (p @ [s]) = (lineage p)(ts_span_id s \<mapsto> (ts_parent_id s, ts_trace_id s))"
proof -
  have "lineage [s] = [ts_span_id s \<mapsto> (ts_parent_id s, ts_trace_id s)]"
    by (simp add: lineage_def)
  moreover have "ts_span_id s \<notin> dom (lineage p)"
    using assms by (simp add: dom_lineage)
  then have "lineage p (ts_span_id s) = None" by (simp only: domIff not_not)
  ultimately show ?thesis by (simp only: lineage_append singleton_map_add)
qed

lemma root_trace_unique: "root_trace m i tr \<Longrightarrow> root_trace m i tr' \<Longrightarrow> tr = tr'"
proof (induction arbitrary: tr' rule: root_trace.induct)
  case (at_root i q tr)
  from at_root.prems at_root.hyps show ?case by cases auto
next
  case (to_parent i q t tr)
  from to_parent.prems to_parent.hyps(1,2) have "root_trace m q tr'" by cases auto
  then show ?case by (rule to_parent.IH)
qed

lemma root_trace_mono: "root_trace m i tr \<Longrightarrow> m \<subseteq>\<^sub>m m' \<Longrightarrow> root_trace m' i tr"
  by (induction rule: root_trace.induct) (auto simp: map_le_def dom_def intro: root_trace.intros)

text \<open>A chain of identifiers, each the parent of the one before, that ends at a root.\<close>

definition up_link :: "lineage \<Rightarrow> jsstring \<Rightarrow> jsstring \<Rightarrow> bool" where
  "up_link m a b \<longleftrightarrow> b \<noteq> [] \<and> (\<exists>tr. m a = Some (Some b, tr))"

definition chain_to_root :: "lineage \<Rightarrow> jsstring list \<Rightarrow> jsstring \<Rightarrow> bool" where
  "chain_to_root m ids tr \<longleftrightarrow>
     ids \<noteq> [] \<and> successively (up_link m) ids \<and> (\<exists>q. m (last ids) = Some (q, tr) \<and> \<not> str_truthy q)"

lemma root_trace_chain: "root_trace m i tr \<Longrightarrow> \<exists>ids. chain_to_root m ids tr \<and> hd ids = i"
proof (induction rule: root_trace.induct)
  case (at_root i q tr)
  then show ?case by (intro exI [of _ "[i]"]) (auto simp: chain_to_root_def)
next
  case (to_parent i q tr' tr)
  then obtain ids where "chain_to_root m ids tr" "hd ids = q" by blast
  with to_parent.hyps show ?case
    by (intro exI [of _ "i # ids"])
       (auto simp: chain_to_root_def up_link_def successively_Cons)
qed

lemma chain_shortcut:
  assumes "chain_to_root m (xs @ y # ys @ y # zs) tr"
  shows "chain_to_root m (xs @ y # zs) tr" and "hd (xs @ y # zs) = hd (xs @ y # ys @ y # zs)"
proof -
  have "successively (up_link m) (y # zs)"
    using assms successively_append_iff [of "up_link m" "xs @ y # ys" "y # zs"]
    by (simp add: chain_to_root_def)
  moreover have "successively (up_link m) (xs @ [y])"
    using assms successively_append_iff [of "up_link m" "xs @ [y]" "ys @ y # zs"]
    by (simp add: chain_to_root_def)
  ultimately have "successively (up_link m) (xs @ y # zs)"
    by (auto simp: successively_append_iff)
  with assms show "chain_to_root m (xs @ y # zs) tr"
    by (auto simp: chain_to_root_def)
  show "hd (xs @ y # zs) = hd (xs @ y # ys @ y # zs)" by (cases xs) auto
qed

lemma chain_distinct:
  "chain_to_root m ids tr \<Longrightarrow> \<exists>ids'. chain_to_root m ids' tr \<and> hd ids' = hd ids \<and> distinct ids'"
proof (induction ids rule: length_induct)
  case (1 ids)
  show ?case
  proof (cases "distinct ids")
    case False
    then obtain xs y ys zs where ids: "ids = xs @ [y] @ ys @ [y] @ zs"
      using not_distinct_decomp by blast
    then have "chain_to_root m (xs @ y # zs) tr" "hd (xs @ y # zs) = hd ids"
      using chain_shortcut [of m xs y ys zs tr] "1.prems" by auto
    moreover have "length (xs @ y # zs) < length ids" by (simp add: ids)
    ultimately show ?thesis using "1.IH" by metis
  qed (use "1.prems" in blast)
qed

lemma chain_in_dom: "chain_to_root m ids tr \<Longrightarrow> set ids \<subseteq> dom m"
proof
  fix x
  assume c: "chain_to_root m ids tr" and "x \<in> set ids"
  then obtain xs ys where ids: "ids = xs @ x # ys" by (meson split_list)
  show "x \<in> dom m"
  proof (cases ys)
    case Nil
    with c ids show ?thesis by (auto simp: chain_to_root_def)
  next
    case (Cons y zs)
    with c ids have "up_link m x y"
      by (auto simp: chain_to_root_def successively_append_iff)
    then show ?thesis by (auto simp: up_link_def)
  qed
qed

lemma loop_follows_chain:
  "chain_to_root (lineage p) (i # ids) tr \<Longrightarrow> length ids < n \<Longrightarrow>
   findTraceId_loop n p i fresh = tr"
proof (induction n arbitrary: i ids)
  case (Suc n)
  show ?case
  proof (cases ids)
    case Nil
    with Suc.prems obtain t where "find_tracked i p = Some t" "ts_trace_id t = tr"
      "\<not> str_truthy (ts_parent_id t)"
      by (auto simp: chain_to_root_def lineage_find)
    then show ?thesis by (auto split: option.split)
  next
    case (Cons q rest)
    with Suc.prems have "up_link (lineage p) i q" "chain_to_root (lineage p) (q # rest) tr"
      by (auto simp: chain_to_root_def)
    then obtain t where t: "find_tracked i p = Some t" "ts_parent_id t = Some q" "q \<noteq> []"
      by (auto simp: up_link_def lineage_find)
    have "findTraceId_loop n p q fresh = tr"
      using Suc.IH [of q rest] \<open>chain_to_root (lineage p) (q # rest) tr\<close> Suc.prems(2) Cons by simp
    with t show ?thesis by simp
  qed
qed simp

lemma loop_without_root:
  "(\<And>tr. \<not> root_trace (lineage p) i tr) \<Longrightarrow> findTraceId_loop n p i fresh = fresh"
proof (induction n arbitrary: i)
  case (Suc n)
  show ?case
  proof (cases "find_tracked i p")
    case (Some t)
    have lin: "lineage p i = Some (ts_parent_id t, ts_trace_id t)"
      using Some by (simp add: lineage_find)
    have up: "str_truthy (ts_parent_id t)"
      using Suc.prems root_trace.at_root [of "lineage p" i, OF lin] by blast
    then obtain q where q: "ts_parent_id t = Some q" "q \<noteq> []"
      by (auto simp: str_truthy_def split: option.splits)
    then have "\<not> root_trace (lineage p) q tr" for tr
      using Suc.prems root_trace.to_parent [of "lineage p" i, OF lin [unfolded q(1)] q(2)] by blast
    with Suc.IH Some q show ?thesis by simp
  qed simp
qed simp

lemma findTraceId_root:
  assumes "root_trace (lineage p) i tr"
  shows "findTraceId p i fresh = tr"
proof -
  obtain ids where ids: "chain_to_root (lineage p) ids tr" "hd ids = i" "distinct ids"
    using root_trace_chain [OF assms] chain_distinct by metis
  then have "set ids \<subseteq> ts_span_id ` set p"
    using chain_in_dom [OF ids(1)] by (auto simp: dom_def lineage_find find_tracked_def
        dest!: find_Some_in)
  then have "length ids \<le> length p"
    using ids(3) by (metis card_image_le card_length card_mono distinct_card finite_imageI
        finite_set order_trans)
  moreover obtain rest where "ids = i # rest"
    using ids(1,2) by (cases ids) (auto simp: chain_to_root_def)
  ultimately show ?thesis
    using loop_follows_chain [of p i rest tr "length p" fresh] ids(1)
    by (simp add: findTraceId_def)
qed

lemma findTraceId_no_root:
  "(\<And>tr. \<not> root_trace (lineage p) i tr) \<Longrightarrow> findTraceId p i fresh = fresh"
  unfolding findTraceId_def by (rule loop_without_root)

end
