(* ===== verification/TracerRuns.thy ===== *)
theory TracerRuns
  imports TracerLineage
begin

text \<open>
  Whole calls of the tracer with its exporter, and all interleavings of calls with exports in
  flight. The ghost fields \<open>delivered\<close> (batches the server accepted) and \<open>started\<close> (identifiers
  handed out) say what happened; no step reads them except the freshness of drawn identifiers.
\<close>

section \<open>A flush that runs to completion\<close>

definition flush :: "SpanExporter \<Rightarrow> (request \<Rightarrow> http_result) \<Rightarrow> ManualTracer \<Rightarrow> ManualTracer" where
  "flush ex fetch tr =
     (case flush_begin tr of
        None \<Rightarrow> tr
      | Some b \<Rightarrow> flush_end b (export_spans ex fetch b) tr)"

text \<open>The contract between the tracer and whatever it exports to: success means acceptance.\<close>

locale span_sink =
  fixes send :: "(request \<Rightarrow> http_result) \<Rightarrow> OmnevalSpan list \<Rightarrow> bool"
    and accepted :: "(request \<Rightarrow> http_result) \<Rightarrow> OmnevalSpan list \<Rightarrow> bool"
  assumes send_sound: "send fetch b \<Longrightarrow> b = [] \<or> accepted fetch b"
    and send_complete: "accepted fetch b \<Longrightarrow> send fetch b"
begin

lemma removed_was_accepted:
  assumes "flush_begin tr = Some b" and "t \<in> set (pending tr)"
    and "t \<notin> set (pending (flush_end b (send fetch b) tr))"
  shows "accepted fetch b \<and> ts_span_id t \<in> os_span_id ` set b"
  using assms send_sound [of fetch b]
  by (auto simp: flush_end_def split: if_splits)

lemma rejected_keeps_all:
  "\<not> accepted fetch b \<Longrightarrow> b \<noteq> [] \<Longrightarrow> flush_end b (send fetch b) tr = tr"
  using send_sound [of fetch b] by (auto simp: flush_end_def)

lemma accepted_removes_batch:
  "accepted fetch b \<Longrightarrow> t \<in> set (pending (flush_end b (send fetch b) tr)) \<Longrightarrow>
   ts_span_id t \<notin> os_span_id ` set b"
  using send_complete [of fetch b] by (auto simp: flush_end_def)

end

definition server_accepts ::
    "SpanExporter \<Rightarrow> (request \<Rightarrow> http_result) \<Rightarrow> OmnevalSpan list \<Rightarrow> bool" where
  "server_accepts ex fetch b \<longleftrightarrow>
     (case export_request ex b of None \<Rightarrow> False | Some r \<Rightarrow> export_outcome (fetch r))"

interpretation sink: span_sink "export_spans ex" "server_accepts ex" for ex
  by unfold_locales
     (auto simp: export_spans_def server_accepts_def export_request_def split: if_splits)

lemma flush_begin_Some:
  "flush_begin tr = Some b \<Longrightarrow>
   b = map to_omneval_span (filter ended (pending tr)) \<and> b \<noteq> []"
  by (auto simp: flush_begin_def Let_def split: if_splits)

lemma flush_begin_None: "flush_begin tr = None \<Longrightarrow> t \<in> set (pending tr) \<Longrightarrow> \<not> ended t"
  by (auto simp: flush_begin_def Let_def filter_empty_conv split: if_splits)

lemma os_span_id_to_omneval [simp]: "os_span_id (to_omneval_span s) = ts_span_id s"
  by (simp add: to_omneval_span_def)

lemma os_end_time_to_omneval [simp]: "os_end_time (to_omneval_span s) = ts_end_time s"
  by (simp add: to_omneval_span_def)

section \<open>Interleavings\<close>

record sys =
  tracer :: ManualTracer
  inflight :: "OmnevalSpan list list"
  delivered :: "OmnevalSpan list list"
  started :: "jsstring list"

definition init_sys :: sys where
  "init_sys = \<lparr>tracer = new_ManualTracer, inflight = [], delivered = [], started = []\<rparr>"

fun opt_list :: "'a option \<Rightarrow> 'a list" where
  "opt_list None = []"
| "opt_list (Some x) = [x]"

text \<open>
  One synchronous stretch of code. A drawn identifier is new: 64 random bits do not repeat an
  identifier of this process, nor one a caller has already named as a parent.
\<close>

inductive tstep :: "sys \<Rightarrow> sys \<Rightarrow> bool" where
  do_start: "i \<notin> set (started s) \<Longrightarrow> (\<And>t. t \<in> set (pending (tracer s)) \<Longrightarrow> ts_parent_id t \<noteq> Some i) \<Longrightarrow>
    sso_parentSpanId opts \<noteq> Some i \<Longrightarrow>
    tstep s (s\<lparr>tracer := startSpan nm opts i fresh now (tracer s), started := i # started s\<rparr>)"
| do_end: "endSpan i opts now (tracer s) = (tr, out) \<Longrightarrow>
    tstep s (s\<lparr>tracer := tr, inflight := inflight s @ opt_list out\<rparr>)"
| do_flush: "tstep s (s\<lparr>inflight := inflight s @ opt_list (flush_begin (tracer s))\<rparr>)"
| do_resolve: "inflight s = xs @ b # ys \<Longrightarrow>
    tstep s (s\<lparr>tracer := flush_end b (export_outcome r) (tracer s), inflight := xs @ ys,
               delivered := delivered s @ (if export_outcome r then [b] else [])\<rparr>)"
| do_setModel: "tstep s (s\<lparr>tracer := setModel i m (tracer s)\<rparr>)"
| do_setInput: "tstep s (s\<lparr>tracer := setInput i m (tracer s)\<rparr>)"
| do_setTokens: "tstep s (s\<lparr>tracer := setTokens i a c (tracer s)\<rparr>)"
| do_setPrompt: "tstep s (s\<lparr>tracer := setPrompt i nm v (tracer s)\<rparr>)"
| do_setConversationId: "tstep s (s\<lparr>tracer := setConversationId i cv (tracer s)\<rparr>)"
| do_setActive: "tstep s (s\<lparr>tracer := setActiveConversationId cv (tracer s)\<rparr>)"

inductive_cases tstepE: "tstep s t"

inductive reachable :: "sys \<Rightarrow> bool" where
  reach_init: "reachable init_sys"
| reach_step: "reachable s \<Longrightarrow> tstep s t \<Longrightarrow> reachable t"

section \<open>Invariants\<close>

definition ids :: "TrackedSpan list \<Rightarrow> jsstring set" where
  "ids p = ts_span_id ` set p"

definition batch_ids :: "OmnevalSpan list list \<Rightarrow> jsstring set" where
  "batch_ids bs = (\<Union>b\<in>set bs. os_span_id ` set b)"

text \<open>A child whose ancestors are all still pending carries its parent's trace.\<close>

definition coherent :: "lineage \<Rightarrow> bool" where
  "coherent m \<longleftrightarrow> (\<forall>a q tr p' tr' x. m a = Some (Some q, tr) \<longrightarrow> q \<noteq> [] \<longrightarrow>
      m q = Some (p', tr') \<longrightarrow> root_trace m q x \<longrightarrow> tr = tr')"

definition tinv :: "sys \<Rightarrow> bool" where
  "tinv s \<longleftrightarrow>
     distinct (map ts_span_id (pending (tracer s))) \<and>
     ids (pending (tracer s)) \<subseteq> set (started s) \<and>
     batch_ids (inflight s @ delivered s) \<subseteq> set (started s) \<and>
     (\<forall>b\<in>set (inflight s @ delivered s). \<forall>x\<in>set b. os_end_time x \<noteq> None) \<and>
     (\<forall>t\<in>set (pending (tracer s)). ts_span_id t \<in> batch_ids (inflight s @ delivered s) \<longrightarrow> ended t) \<and>
     set (started s) \<subseteq> ids (pending (tracer s)) \<union> batch_ids (delivered s) \<and>
     coherent (lineage (pending (tracer s)))"

lemma batch_ids_simps [simp]:
  "batch_ids [] = {}" "batch_ids (xs @ ys) = batch_ids xs \<union> batch_ids ys"
  "batch_ids (b # bs) = os_span_id ` set b \<union> batch_ids bs"
  by (auto simp: batch_ids_def)

text \<open>An update that keeps a span's identity and never reopens it keeps the invariant.\<close>

lemma tinv_modify:
  assumes inv: "tinv s"
    and same: "\<And>x. ts_span_id (f x) = ts_span_id x" "\<And>x. ts_parent_id (f x) = ts_parent_id x"
      "\<And>x. ts_trace_id (f x) = ts_trace_id x" "\<And>x. ended x \<Longrightarrow> ended (f x)"
  shows "tinv (s\<lparr>tracer := modify i f (tracer s)\<rparr>)"
proof -
  let ?p = "pending (tracer s)" and ?q = "update_first (\<lambda>x. ts_span_id x = i) f (pending (tracer s))"
  have map_id: "map ts_span_id ?q = map ts_span_id ?p"
    by (rule map_update_first) (rule same)
  have "map (\<lambda>s. (ts_span_id s, ts_parent_id s, ts_trace_id s)) ?q =
      map (\<lambda>s. (ts_span_id s, ts_parent_id s, ts_trace_id s)) ?p"
    by (rule map_update_first) (simp add: same)
  then have lin: "lineage ?q = lineage ?p" by (simp add: lineage_def)
  have idq: "ids ?q = ids ?p" unfolding ids_def by (metis map_id set_map)
  have "ended t" if "t \<in> set ?q" "ts_span_id t \<in> batch_ids (inflight s @ delivered s)" for t
    using that inv set_update_first [of "\<lambda>x. ts_span_id x = i" f ?p]
    by (auto simp: tinv_def same)
  with inv map_id lin idq show ?thesis
    by (simp add: tinv_def modify_def)
qed

lemma modify_no_match: "find_tracked i (pending tr) = None \<Longrightarrow> modify i f tr = tr"
  by (simp add: modify_def find_tracked_def find_None_iff_all update_first_none)

lemma ended_mark_ended [simp]: "ended (mark_ended opts now x)"
  by (simp add: ended_def mark_ended_def Let_def split: option.split)

lemma tinv_mark_ended:
  "tinv s \<Longrightarrow> tinv (s\<lparr>tracer := modify i (mark_ended opts now) (tracer s)\<rparr>)"
  by (rule tinv_modify) (auto simp: mark_ended_def Let_def ended_def split: option.split)

lemma tinv_flush_begin:
  assumes "tinv s"
  shows "tinv (s\<lparr>inflight := inflight s @ opt_list (flush_begin (tracer s))\<rparr>)"
proof (cases "flush_begin (tracer s)")
  case (Some b)
  then have b: "b = map to_omneval_span (filter ended (pending (tracer s)))"
    by (simp add: flush_begin_Some)
  have fresh_ids: "os_span_id ` set b = ts_span_id ` {t \<in> set (pending (tracer s)). ended t}"
    by (simp add: b image_image)
  have "ended t" if "t \<in> set (pending (tracer s))" "ts_span_id t \<in> os_span_id ` set b" for t
  proof -
    from that(2) obtain u where "u \<in> set (pending (tracer s))" "ended u" "ts_span_id u = ts_span_id t"
      by (auto simp: fresh_ids)
    with that(1) assms show ?thesis
      by (metis tinv_def distinct_map inj_on_def)
  qed
  moreover have "os_span_id ` set b \<subseteq> set (started s)"
    using assms by (auto simp: fresh_ids tinv_def ids_def)
  moreover have "\<forall>x\<in>set b. os_end_time x \<noteq> None"
    by (auto simp: b ended_def)
  ultimately show ?thesis
    using assms Some by (auto simp: tinv_def)
qed (use assms in \<open>simp add: tinv_def\<close>)

lemma lineage_filter_le:
  assumes "distinct (map ts_span_id p)"
  shows "lineage (filter P p) \<subseteq>\<^sub>m lineage p"
  using assms
proof (induction p)
  case (Cons a p)
  then have "ts_span_id a \<notin> dom (lineage (filter P p))" by (auto simp: dom_lineage)
  with Cons show ?case
    by (auto simp: map_le_def lineage_def)
qed (simp add: lineage_def)

lemma map_le_Some: "n \<subseteq>\<^sub>m m \<Longrightarrow> n a = Some v \<Longrightarrow> m a = Some v"
  by (metis domI map_le_def)

lemma coherent_mono: "coherent m \<Longrightarrow> n \<subseteq>\<^sub>m m \<Longrightarrow> coherent n"
  unfolding coherent_def by (blast dest: map_le_Some root_trace_mono)

lemma tinv_flush_end:
  assumes "tinv s" "inflight s = xs @ b # ys"
  shows "tinv (s\<lparr>tracer := flush_end b ok (tracer s), inflight := xs @ ys,
                 delivered := delivered s @ (if ok then [b] else [])\<rparr>)"
proof (cases ok)
  case True
  let ?p = "pending (tracer s)" and ?keep = "\<lambda>t. ts_span_id t \<notin> os_span_id ` set b"
  have "coherent (lineage (filter ?keep ?p))"
    using assms(1) coherent_mono lineage_filter_le unfolding tinv_def by metis
  moreover have "set (started s) \<subseteq> ids (filter ?keep ?p) \<union> batch_ids (delivered s @ [b])"
    using assms(1) by (auto simp: tinv_def ids_def)
  moreover have "ids (filter ?keep ?p) \<subseteq> set (started s)"
    using assms(1) by (auto simp: tinv_def ids_def)
  ultimately show ?thesis
    using assms True by (auto simp: tinv_def flush_end_def distinct_map_filter)
next
  case False
  with assms show ?thesis by (auto simp: tinv_def flush_end_def)
qed


section \<open>Starting a span keeps the traces coherent\<close>

lemma root_trace_same_parent:
  "root_trace m i x \<Longrightarrow> coherent m \<Longrightarrow> m i = Some (q, tr) \<Longrightarrow> tr = x"
proof (induction arbitrary: q tr rule: root_trace.induct)
  case (to_parent i q' tr' x)
  from to_parent.hyps(3) obtain p'' tr'' where "m q' = Some (p'', tr'')"
    by cases auto
  with to_parent show ?case unfolding coherent_def by (metis option.inject prod.inject)
qed simp

text \<open>A new leaf nobody names as a parent adds no ancestors to the others.\<close>

lemma root_trace_new_leaf:
  assumes "root_trace (m(i \<mapsto> v)) j x" "j \<noteq> i" "\<And>a tr. m a \<noteq> Some (Some i, tr)"
  shows "root_trace m j x"
  using assms(1,2)
proof (induction rule: root_trace.induct)
  case (to_parent j q tr' tr)
  with assms(3) have "q \<noteq> i" by auto
  with to_parent show ?case by (auto intro: root_trace.to_parent)
qed (auto intro: root_trace.at_root)

lemma coherent_new_leaf:
  assumes co: "coherent m"
    and new: "\<And>a tr. m a \<noteq> Some (Some i, tr)" "par \<noteq> Some i"
    and tr: "\<And>q x. par = Some q \<Longrightarrow> q \<noteq> [] \<Longrightarrow> root_trace m q x \<Longrightarrow> tr = x"
  shows "coherent (m(i \<mapsto> (par, tr)))"
proof -
  have "t = t'" if a: "(m(i \<mapsto> (par, tr))) a = Some (Some q, t)" and q: "q \<noteq> []"
    and mq: "(m(i \<mapsto> (par, tr))) q = Some (p', t')" and r: "root_trace (m(i \<mapsto> (par, tr))) q x"
    for a q t p' t' x
  proof -
    have "q \<noteq> i" using a new by (auto split: if_splits)
    with r new(1) have rq: "root_trace m q x" by (blast intro: root_trace_new_leaf)
    show ?thesis
    proof (cases "a = i")
      case True
      with a q rq tr have "t = x" by auto
      moreover have "t' = x"
        using root_trace_same_parent [OF rq co] mq \<open>q \<noteq> i\<close> by simp
      ultimately show ?thesis by simp
    next
      case False
      with a q mq rq \<open>q \<noteq> i\<close> co show ?thesis unfolding coherent_def by (metis fun_upd_apply)
    qed
  qed
  then show ?thesis unfolding coherent_def by blast
qed

lemma lineage_parent:
  "lineage p a = Some (par, tr) \<Longrightarrow> \<exists>t\<in>set p. ts_span_id t = a \<and> ts_parent_id t = par \<and> ts_trace_id t = tr"
  by (auto simp: lineage_find find_tracked_def dest!: find_Some_in)

lemma tinv_start:
  assumes inv: "tinv s" and new: "i \<notin> set (started s)"
    "\<And>t. t \<in> set (pending (tracer s)) \<Longrightarrow> ts_parent_id t \<noteq> Some i"
    "sso_parentSpanId opts \<noteq> Some i"
  shows "tinv (s\<lparr>tracer := startSpan nm opts i fresh now (tracer s), started := i # started s\<rparr>)"
proof -
  let ?p = "pending (tracer s)"
  obtain x where x: "pending (startSpan nm opts i fresh now (tracer s)) = ?p @ [x]"
    "ts_span_id x = i" "ts_parent_id x = sso_parentSpanId opts" "\<not> ended x"
    "ts_trace_id x = (if str_truthy (sso_parentSpanId opts)
       then findTraceId ?p (the (sso_parentSpanId opts)) fresh else fresh)"
    by (auto simp: startSpan_def ended_def)
  have notin: "i \<notin> ids ?p" using inv new(1) by (auto simp: tinv_def)
  have "coherent ((lineage ?p)(i \<mapsto> (sso_parentSpanId opts, ts_trace_id x)))"
  proof (rule coherent_new_leaf)
    show "coherent (lineage ?p)" using inv by (simp add: tinv_def)
    show "\<And>a tr. lineage ?p a \<noteq> Some (Some i, tr)" using new(2) lineage_parent by blast
    show "sso_parentSpanId opts \<noteq> Some i" by (rule new(3))
    show "\<And>q r. sso_parentSpanId opts = Some q \<Longrightarrow> q \<noteq> [] \<Longrightarrow> root_trace (lineage ?p) q r \<Longrightarrow>
        ts_trace_id x = r"
      using x(5) by (simp add: findTraceId_root)
  qed
  then have "coherent (lineage (?p @ [x]))"
    using notin x(2,3) by (simp add: lineage_snoc ids_def)
  moreover have "i \<notin> batch_ids (inflight s @ delivered s)"
    using inv new(1) by (auto simp: tinv_def)
  ultimately show ?thesis
    using inv x notin by (auto simp: tinv_def ids_def)
qed

lemma tinv_frame: "tinv s \<Longrightarrow> tinv (s\<lparr>tracer := (tracer s)\<lparr>activeConversationId := c\<rparr>\<rparr>)"
  by (simp add: tinv_def)

lemma tstep_tinv: "tstep s t \<Longrightarrow> tinv s \<Longrightarrow> tinv t"
proof (induction rule: tstep.induct)
  case (do_start i s opts nm fresh now)
  then show ?case by (intro tinv_start)
next
  case (do_end i opts now s tr out)
  show ?case
  proof (cases "find_tracked i (pending (tracer s))")
    case None
    with do_end show ?thesis by (auto simp: endSpan_def)
  next
    case (Some x)
    let ?s = "s\<lparr>tracer := modify i (mark_ended opts now) (tracer s)\<rparr>"
    have "tinv (?s\<lparr>inflight := inflight ?s @ opt_list (flush_begin (tracer ?s))\<rparr>)"
      using do_end.prems by (intro tinv_flush_begin tinv_mark_ended)
    moreover have "s\<lparr>tracer := tr, inflight := inflight s @ opt_list out\<rparr> =
        ?s\<lparr>inflight := inflight ?s @ opt_list (flush_begin (tracer ?s))\<rparr>"
      using do_end.hyps Some by (auto simp: endSpan_def Let_def)
    ultimately show ?thesis by simp
  qed
next
  case (do_resolve s xs b ys r)
  then show ?case by (intro tinv_flush_end)
qed (auto intro: tinv_flush_begin tinv_frame tinv_modify
     simp: setModel_def setInput_def setTokens_def setPrompt_def setConversationId_def
       setActiveConversationId_def ended_def split: option.split)

lemma reachable_tinv: "reachable s \<Longrightarrow> tinv s"
proof (induction rule: reachable.induct)
  case reach_init
  show ?case
    by (simp add: tinv_def init_sys_def new_ManualTracer_def ids_def coherent_def lineage_def)
qed (rule tstep_tinv)


section \<open>Properties\<close>

text \<open>
  C1: no span is lost. Whatever the interleaving of calls and exports, and however exports fail,
  every span ever started is still pending or is in a batch the server accepted.
\<close>

theorem no_span_lost:
  assumes "reachable s" and "i \<in> set (started s)"
  shows "(\<exists>t\<in>set (pending (tracer s)). ts_span_id t = i) \<or>
    (\<exists>b\<in>set (delivered s). \<exists>x\<in>set b. os_span_id x = i)"
proof -
  have "i \<in> ids (pending (tracer s)) \<union> batch_ids (delivered s)"
    using reachable_tinv [OF assms(1)] assms(2) unfolding tinv_def by blast
  then show ?thesis by (auto simp: ids_def batch_ids_def)
qed

text \<open>
  C31: an active span never leaves the process: every span in a batch, in flight or delivered, had
  its end time set, and while such a span is still pending it stays ended.
\<close>

theorem only_ended_spans_exported:
  assumes "reachable s" and "b \<in> set (inflight s @ delivered s)" and "x \<in> set b"
  shows "os_end_time x \<noteq> None \<and>
    (\<forall>t\<in>set (pending (tracer s)). ts_span_id t = os_span_id x \<longrightarrow> ts_end_time t \<noteq> None)"
proof -
  have "os_span_id x \<in> batch_ids (inflight s @ delivered s)"
    using assms(2,3) by (auto simp: batch_ids_def)
  then show ?thesis
    using reachable_tinv [OF assms(1)] assms(2,3) by (auto simp: tinv_def ended_def)
qed

text \<open>
  C32: \<open>findTraceId\<close> on any list of pending spans, cyclic parents included: the root's trace when the
  chain of parents reaches a root inside the list, a fresh identifier otherwise. The bound on the
  loop is never the reason for a fresh identifier when there is a root.
\<close>

theorem findTraceId_spec:
  "findTraceId p i fresh =
     (if \<exists>tr. root_trace (lineage p) i tr then (THE tr. root_trace (lineage p) i tr) else fresh)"
proof (cases "\<exists>tr. root_trace (lineage p) i tr")
  case True
  then obtain tr where tr: "root_trace (lineage p) i tr" by blast
  then have "(THE tr. root_trace (lineage p) i tr) = tr"
    by (blast intro: the_equality root_trace_unique)
  with tr show ?thesis by (auto simp: findTraceId_root)
next
  case False
  then show ?thesis by (simp add: findTraceId_no_root)
qed

text \<open>
  A child joins its parent's trace while the parent and all the parent's ancestors are pending,
  in every reachable state.
\<close>

theorem child_joins_parent_trace:
  assumes "reachable s" and "t \<in> set (pending (tracer s))" and "ts_span_id t \<noteq> []"
    and "\<exists>r. root_trace (lineage (pending (tracer s))) (ts_span_id t) r"
    and "sso_parentSpanId opts = Some (ts_span_id t)"
  shows "ts_trace_id (last (pending (startSpan nm opts i fresh now (tracer s)))) = ts_trace_id t"
proof -
  let ?p = "pending (tracer s)"
  obtain r where r: "root_trace (lineage ?p) (ts_span_id t) r" using assms(4) by blast
  have inv: "distinct (map ts_span_id ?p)" "coherent (lineage ?p)"
    using reachable_tinv [OF assms(1)] by (auto simp: tinv_def)
  have "lineage ?p (ts_span_id t) = Some (ts_parent_id t, ts_trace_id t)"
    unfolding lineage_def using assms(2) inv(1)
    by (intro map_of_is_SomeI) (auto simp: comp_def)
  then have "ts_trace_id t = r"
    using root_trace_same_parent [OF r inv(2)] by blast
  then show ?thesis
    using assms(3,5) r by (simp add: startSpan_def findTraceId_root)
qed


text \<open>
  C34: two flushes in flight at once deliver the same span twice: delivery is at least once, not
  exactly once.
\<close>

theorem span_delivered_twice:
  "\<exists>s b. reachable s \<and> b \<noteq> [] \<and> delivered s = [b, b]"
proof -
  define opts where "opts = \<lparr>sso_parentSpanId = None, sso_kind = None, sso_attributes = None\<rparr>"
  define e where "e = \<lparr>eso_output = None, eso_attributes = None\<rparr>"
  define root where "root = last (pending (startSpan [] opts [1] [7] 0 new_ManualTracer))"
  define fin where "fin = mark_ended e 0 root"
  define sy where "sy ps fl dl st = \<lparr>tracer = \<lparr>pending = ps, activeConversationId = None\<rparr>,
      inflight = fl, delivered = dl, started = st\<rparr>" for ps fl dl st
  let ?b = "[to_omneval_span fin]"
  note defs = sy_def startSpan_def opts_def e_def root_def new_ManualTracer_def init_sys_def
    find_tracked_def fin_def mark_ended_def ended_def flush_begin_def flush_end_def ok_status_def
  have s1: "tstep (sy [] [] [] []) (sy [root] [] [] [[1]])"
    using do_start [of "[1]" "sy [] [] [] []" opts "[]" "[7]" 0] by (simp add: defs)
  have s2: "tstep (sy [root] [] [] [[1]]) (sy [fin] [?b] [] [[1]])"
    using do_end [of "[1]" e 0 "sy [root] [] [] [[1]]"]
    by (simp add: defs endSpan_def modify_def)
  have s3: "tstep (sy [fin] [?b] [] [[1]]) (sy [fin] [?b, ?b] [] [[1]])"
    using do_flush [of "sy [fin] [?b] [] [[1]]"] by (simp add: defs)
  have s4: "tstep (sy [fin] [?b, ?b] [] [[1]]) (sy [] [?b] [?b] [[1]])"
    using do_resolve [of "sy [fin] [?b, ?b] [] [[1]]" "[]" ?b "[?b]" "Response 200 []"]
    by (simp add: defs)
  have s5: "tstep (sy [] [?b] [?b] [[1]]) (sy [] [] [?b, ?b] [[1]])"
    using do_resolve [of "sy [] [?b] [?b] [[1]]" "[]" ?b "[]" "Response 200 []"]
    by (simp add: defs)
  have s0: "reachable (sy [] [] [] [])"
    using reach_init by (simp add: defs)
  note reach_step [OF reach_step [OF reach_step [OF reach_step [OF reach_step [OF s0 s1] s2] s3] s4] s5]
  then show ?thesis by (intro exI [of _ "sy [] [] [?b, ?b] [[1]]"] exI [of _ ?b]) (simp add: sy_def)
qed

lemma map_of_fold_put:
  "distinct (map fst n) \<Longrightarrow> map_of (fold (\<lambda>(k, v). obj_put k v) n m) = map_of m ++ map_of n"
proof (induction n arbitrary: m)
  case (Cons kv n)
  obtain k v where "kv = (k, v)" by fastforce
  moreover from this Cons.prems have "k \<notin> dom (map_of n)" by (simp add: dom_map_of_conv_image_fst)
  ultimately show ?case using Cons by (simp add: map_add_upd_left del: fun_upd_apply)
qed simp

text \<open>Object spread on property lookup: the right operand wins.\<close>

lemma map_of_spread:
  "distinct (map fst m) \<Longrightarrow> distinct (map fst n) \<Longrightarrow> map_of (spread m n) = map_of m ++ map_of n"
  by (simp add: spread_def map_of_fold_put)

lemma find_tracked_unique:
  "distinct (map ts_span_id p) \<Longrightarrow> t \<in> set p \<Longrightarrow> find_tracked (ts_span_id t) p = Some t"
  unfolding find_tracked_def by (induction p) auto

text \<open>
  \<open>endSpan\<close> on a pending span exports it together with every other ended span, with the end
  time, the output and the start attributes overridden by the end attributes; no other pending span
  changes.
\<close>

theorem endSpan_exports:
  assumes "distinct (map ts_span_id (pending tr))" and "t \<in> set (pending tr)"
    and "ts_attributes t = Some a" and "eso_attributes opts = Some b"
    and "distinct (map fst a)" and "distinct (map fst b)"
  shows "\<exists>tr' batch x m. endSpan (ts_span_id t) opts now tr = (tr', Some batch) \<and>
    batch = map to_omneval_span (filter ended (pending tr')) \<and>
    x \<in> set batch \<and> os_span_id x = ts_span_id t \<and> os_trace_id x = ts_trace_id t \<and>
    os_end_time x = Some now \<and> os_output x = eso_output opts \<and>
    os_attributes x = Some m \<and> map_of m = map_of a ++ map_of b \<and>
    (\<forall>u. ts_span_id u \<noteq> ts_span_id t \<longrightarrow> (u \<in> set (pending tr') \<longleftrightarrow> u \<in> set (pending tr)))"
proof -
  let ?i = "ts_span_id t"
  let ?tr = "modify ?i (mark_ended opts now) tr"
  let ?m = "mark_ended opts now t"
  have pend: "pending ?tr = map (\<lambda>x. if ts_span_id x = ?i then mark_ended opts now x else x) (pending tr)"
    using update_first_map_key [OF assms(1)] by (simp add: modify_def)
  have idm: "ts_span_id (mark_ended opts now x) = ts_span_id x" for x
    by (simp add: mark_ended_def Let_def split: option.split)
  have "?m \<in> set (pending ?tr)"
    unfolding pend using assms(2) by (auto intro!: image_eqI [of _ _ t])
  then have in_batch: "to_omneval_span ?m \<in> set (map to_omneval_span (filter ended (pending ?tr)))"
    by simp
  then have "flush_begin ?tr = Some (map to_omneval_span (filter ended (pending ?tr)))"
    by (auto simp: flush_begin_def Let_def filter_empty_conv)
  moreover have "find_tracked ?i (pending tr) = Some t"
    using assms(1,2) by (rule find_tracked_unique)
  ultimately have call: "endSpan ?i opts now tr =
      (?tr, Some (map to_omneval_span (filter ended (pending ?tr))))"
    by (simp add: endSpan_def Let_def)
  have "u \<in> set (pending ?tr) \<longleftrightarrow> u \<in> set (pending tr)" if "ts_span_id u \<noteq> ?i" for u
    unfolding pend using that idm by (auto split: if_splits intro: image_eqI [of _ _ u])
  moreover have "os_attributes (to_omneval_span ?m) = Some (spread a b)"
    "os_end_time (to_omneval_span ?m) = Some now" "os_output (to_omneval_span ?m) = eso_output opts"
    "os_span_id (to_omneval_span ?m) = ?i" "os_trace_id (to_omneval_span ?m) = ts_trace_id t"
    using assms(3,4) by (simp_all add: mark_ended_def to_omneval_span_def Let_def)
  ultimately show ?thesis
    using call in_batch map_of_spread [OF assms(5,6)] by blast
qed

text \<open>
  A flush that completes removes exactly the ended spans when the server accepts the batch, and
  leaves the tracer as it was when there is nothing to send or the server does not accept.
\<close>

theorem flush_spec:
  assumes "distinct (map ts_span_id (pending tr))"
  shows "flush ex fetch tr =
    (let b = map to_omneval_span (filter ended (pending tr))
     in if b \<noteq> [] \<and> server_accepts ex fetch b
        then tr\<lparr>pending := filter (\<lambda>s. \<not> ended s) (pending tr)\<rparr> else tr)"
proof (cases "flush_begin tr")
  case None
  then have "filter ended (pending tr) = []"
    by (auto simp: filter_empty_conv dest: flush_begin_None)
  with None show ?thesis by (simp add: flush_def)
next
  case (Some b)
  then have b: "b = map to_omneval_span (filter ended (pending tr))" "b \<noteq> []"
    by (auto dest: flush_begin_Some)
  show ?thesis
  proof (cases "server_accepts ex fetch b")
    case True
    have "filter (\<lambda>s. ts_span_id s \<notin> os_span_id ` set b) (pending tr) =
        filter (\<lambda>s. \<not> ended s) (pending tr)"
      using assms by (intro filter_cong) (auto simp: b image_image distinct_map inj_on_def)
    with Some b True sink.send_complete [OF True] show ?thesis
      by (simp add: flush_def flush_end_def)
  next
    case False
    with Some b sink.rejected_keeps_all [OF False b(2)] show ?thesis
      by (simp add: flush_def)
  qed
qed

section \<open>Concrete runs\<close>

text \<open>A tracer with one ended root \<open>[1]\<close> and its active child \<open>[2]\<close>, and the run that makes it.\<close>

definition sample_opts :: "jsstring option \<Rightarrow> StartSpanOptions" where
  "sample_opts q = \<lparr>sso_parentSpanId = q, sso_kind = Some Llm,
     sso_attributes = Some [(js ''k'', JBool True), (js ''m'', JNull)]\<rparr>"

definition sample_end :: EndSpanOptions where
  "sample_end = \<lparr>eso_output = Some (js ''out''), eso_attributes = Some [(js ''k'', JBool False)]\<rparr>"

definition sample_started :: ManualTracer where
  "sample_started = startSpan (js ''child'') (sample_opts (Some [1])) [2] [8] 20
     (startSpan (js ''root'') (sample_opts None) [1] [7] 10 new_ManualTracer)"

definition sample_sys :: sys where
  "sample_sys = \<lparr>tracer = fst (endSpan [1] sample_end 30 sample_started),
     inflight = opt_list (snd (endSpan [1] sample_end 30 sample_started)),
     delivered = [], started = [[2], [1]]\<rparr>"

lemmas sample_defs = sample_sys_def sample_started_def sample_opts_def sample_end_def startSpan_def
  new_ManualTracer_def findTraceId_def find_tracked_def endSpan_def modify_def mark_ended_def
  flush_begin_def ended_def

lemma sample_reachable: "reachable sample_sys"
proof -
  define sy where "sy tr st = \<lparr>tracer = tr, inflight = [], delivered = [], started = st\<rparr>"
    for tr :: ManualTracer and st
  let ?t1 = "startSpan (js ''root'') (sample_opts None) [1] [7] 10 new_ManualTracer"
  have "tstep init_sys (sy ?t1 [[1]])"
    using do_start [of "[1]" init_sys "sample_opts None" "js ''root''" "[7]" 10]
    by (simp add: init_sys_def sy_def new_ManualTracer_def sample_opts_def)
  moreover have "tstep (sy ?t1 [[1]]) (sy sample_started [[2], [1]])"
    using do_start [of "[2]" "sy ?t1 [[1]]" "sample_opts (Some [1])" "js ''child''" "[8]" 20]
    by (simp add: sy_def sample_defs)
  moreover have "tstep (sy sample_started [[2], [1]]) sample_sys"
    using do_end [of "[1]" sample_end 30 "sy sample_started [[2], [1]]"
        "fst (endSpan [1] sample_end 30 sample_started)" "snd (endSpan [1] sample_end 30 sample_started)"]
    by (simp add: sy_def sample_sys_def)
  ultimately show ?thesis using reach_init reach_step by metis
qed

lemma no_span_lost_witness:
  "(\<exists>t\<in>set (pending (tracer sample_sys)). ts_span_id t = [1]) \<or>
   (\<exists>b\<in>set (delivered sample_sys). \<exists>x\<in>set b. os_span_id x = [1])"
  by (rule no_span_lost [OF sample_reachable]) (simp add: sample_sys_def)

lemma only_ended_spans_exported_witness:
  "\<exists>b x. b \<in> set (inflight sample_sys) \<and> x \<in> set b \<and> os_span_id x = [1] \<and> os_end_time x \<noteq> None"
proof -
  obtain b x where bx: "b \<in> set (inflight sample_sys @ delivered sample_sys)" "x \<in> set b"
    "os_span_id x = [1]" "b \<in> set (inflight sample_sys)"
    by (simp add: sample_defs)
  then show ?thesis using only_ended_spans_exported [OF sample_reachable bx(1,2)] by blast
qed

lemma child_joins_parent_trace_witness:
  "ts_trace_id (last (pending (startSpan [] (sample_opts (Some [2])) [3] [9] 40 (tracer sample_sys)))) =
   ([7] :: jsstring)"
proof -
  let ?t = "last (pending (tracer sample_sys))"
  have t: "?t \<in> set (pending (tracer sample_sys))" "ts_span_id ?t = [2]" "ts_trace_id ?t = [7]"
    by (simp_all add: sample_defs)
  have "root_trace (lineage (pending (tracer sample_sys))) [1] [7]"
    by (rule root_trace.at_root [where q = None]) (simp_all add: sample_defs lineage_def)
  then have "root_trace (lineage (pending (tracer sample_sys))) [2] [7]"
    by (rule root_trace.to_parent [where q = "[1]" and tr' = "[7]", rotated 2])
       (simp_all add: sample_defs lineage_def)
  then have "\<exists>r. root_trace (lineage (pending (tracer sample_sys))) (ts_span_id ?t) r"
    using t(2) by auto
  then show ?thesis
    using child_joins_parent_trace [OF sample_reachable t(1), of "sample_opts (Some [2])" "[]" "[3]" "[9]" 40]
      t by (simp add: sample_opts_def)
qed

lemma endSpan_exports_witness:
  "\<exists>tr' batch x m. endSpan [1] sample_end 30 sample_started = (tr', Some batch) \<and> x \<in> set batch \<and>
     os_end_time x = Some 30 \<and> os_attributes x = Some m \<and>
     map_of m (js ''k'') = Some (JBool False) \<and> map_of m (js ''m'') = Some JNull"
proof -
  let ?t = "hd (pending sample_started)"
  let ?a = "[(js ''k'', JBool True), (js ''m'', JNull)]" and ?b = "[(js ''k'', JBool False)]"
  have "distinct (map ts_span_id (pending sample_started))" "?t \<in> set (pending sample_started)"
    "ts_attributes ?t = Some ?a" "eso_attributes sample_end = Some ?b"
    "distinct (map fst ?a)" "distinct (map fst ?b)" "ts_span_id ?t = [1]"
    by (simp_all add: sample_defs)
  with endSpan_exports [of sample_started ?t ?a sample_end ?b 30] show ?thesis
    by (fastforce simp: map_add_def)
qed

lemma flush_spec_witness:
  "pending (flush (new_SpanExporter [] None) (\<lambda>_. Response 204 []) (tracer sample_sys)) =
     [last (pending sample_started)] \<and>
   flush (new_SpanExporter [] None) (\<lambda>_. NetworkError []) (tracer sample_sys) = tracer sample_sys"
proof -
  have "distinct (map ts_span_id (pending (tracer sample_sys)))"
    by (simp add: sample_defs)
  from flush_spec [OF this] show ?thesis
    by (simp add: sample_defs server_accepts_def export_request_def ok_status_def)
qed

end
