(* ===== verification/Url.thy ===== *)
theory Url
  imports JsString
begin

text \<open>
  Percent-encoding as \<open>URLSearchParams\<close> and \<open>encodeURIComponent\<close> do it: UTF-8 of the code points
  of a UTF-16 string, then one escape per byte that is not kept.
\<close>

definition is_high :: "unit16 \<Rightarrow> bool" where
  "is_high u \<longleftrightarrow> 0xD800 \<le> u \<and> u \<le> 0xDBFF"

definition is_low :: "unit16 \<Rightarrow> bool" where
  "is_low u \<longleftrightarrow> 0xDC00 \<le> u \<and> u \<le> 0xDFFF"

text \<open>Code points; a lone surrogate is \<open>None\<close>.\<close>

fun scalar_values :: "jsstring \<Rightarrow> nat option list" where
  "scalar_values [] = []"
| "scalar_values (u # s) =
     (if is_high u then
        (case s of
           v # t \<Rightarrow>
             if is_low v
             then Some (0x10000 + (unat u - 0xD800) * 0x400 + (unat v - 0xDC00)) # scalar_values t
             else None # scalar_values s
         | [] \<Rightarrow> [None])
      else if is_low u then None # scalar_values s
      else Some (unat u) # scalar_values s)"

definition utf8 :: "nat \<Rightarrow> nat list" where
  "utf8 c =
     (if c < 0x80 then [c]
      else if c < 0x800 then [0xC0 + c div 64, 0x80 + c mod 64]
      else if c < 0x10000 then [0xE0 + c div 4096, 0x80 + (c div 64) mod 64, 0x80 + c mod 64]
      else [0xF0 + c div 262144, 0x80 + (c div 4096) mod 64, 0x80 + (c div 64) mod 64, 0x80 + c mod 64])"

definition upper_hex_digit :: "nat \<Rightarrow> unit16" where
  "upper_hex_digit d = (if d < 10 then of_nat (48 + d) else of_nat (55 + d))"

definition percent :: "nat \<Rightarrow> jsstring" where
  "percent b = [0x25, upper_hex_digit (b div 16), upper_hex_digit (b mod 16)]"

definition is_alnum_byte :: "nat \<Rightarrow> bool" where
  "is_alnum_byte b \<longleftrightarrow> (48 \<le> b \<and> b \<le> 57) \<or> (65 \<le> b \<and> b \<le> 90) \<or> (97 \<le> b \<and> b \<le> 122)"

text \<open>\<open>application/x-www-form-urlencoded\<close>: a lone surrogate becomes U+FFFD.\<close>

definition form_byte :: "nat \<Rightarrow> jsstring" where
  "form_byte b =
     (if b = 32 then js ''+''
      else if is_alnum_byte b \<or> b \<in> {42, 45, 46, 95} then [of_nat b] else percent b)"

definition form_encode :: "jsstring \<Rightarrow> jsstring" where
  "form_encode s =
     concat (map (\<lambda>c. concat (map form_byte (utf8 (case c of Some n \<Rightarrow> n | None \<Rightarrow> 0xFFFD))))
       (scalar_values s))"

text \<open>\<open>encodeURIComponent\<close>: \<open>None\<close> is the \<open>URIError\<close> on a lone surrogate.\<close>

definition uri_byte :: "nat \<Rightarrow> jsstring" where
  "uri_byte b =
     (if is_alnum_byte b \<or> b \<in> {33, 39, 40, 41, 42, 45, 46, 95, 126} then [of_nat b] else percent b)"

definition encode_uri_component :: "jsstring \<Rightarrow> jsstring option" where
  "encode_uri_component s =
     (if None \<in> set (scalar_values s) then None
      else Some (concat (map (\<lambda>c. concat (map uri_byte (utf8 (the c)))) (scalar_values s))))"

definition form_pairs :: "(jsstring \<times> jsstring) list \<Rightarrow> jsstring" where
  "form_pairs ps = join (js ''&'') (map (\<lambda>(k, v). form_encode k @ js ''='' @ form_encode v) ps)"

text \<open>An encoded component holds no character that structures a URL.\<close>

lemma upper_hex_digit_range:
  assumes "d < 16"
  shows "unat (upper_hex_digit d) \<in> {48..57} \<union> {65..70}"
  using assms by (simp add: upper_hex_digit_def unsigned_of_nat take_bit_nat_eq_self del: of_nat_add)

lemma byte_unit_plain:
  assumes "is_alnum_byte b \<or> b \<in> {33, 39, 40, 41, 42, 45, 46, 95, 126}"
  shows "(of_nat b :: unit16) \<notin> {0x2F, 0x3F, 0x23, 0x26, 0x3D, 0x25}"
proof -
  have "unat (of_nat b :: unit16) = b" and "b \<notin> {0x2F, 0x3F, 0x23, 0x26, 0x3D, 0x25}"
    using assms by (auto simp: is_alnum_byte_def unsigned_of_nat take_bit_nat_eq_self)
  then show ?thesis by (auto simp: word_unat_eq_iff)
qed

lemma utf8_bytes: "c < 0x110000 \<Longrightarrow> b \<in> set (utf8 c) \<Longrightarrow> b < 256"
  by (auto simp: utf8_def split: if_splits)

lemma surrogate_pair_range:
  assumes "is_high u" "is_low v"
  shows "0x10000 + (unat u - 0xD800) * 0x400 + (unat v - 0xDC00) < 0x110000"
proof -
  have "unat u \<le> 0xDBFF" "unat v \<le> 0xDFFF"
    using assms by (simp_all add: is_high_def is_low_def word_le_nat_alt)
  then show ?thesis by linarith
qed

lemma unit_range: "unat (w :: unit16) < 0x110000"
proof -
  have "unat w < 65536" using unsigned_less [of w] by simp
  then show ?thesis by simp
qed

lemma scalar_values_range: "Some c \<in> set (scalar_values s) \<Longrightarrow> c < 0x110000"
proof (induction s rule: scalar_values.induct)
  case (2 u s)
  show ?case
  proof (cases "is_high u")
    case True
    with 2 show ?thesis
      by (cases s) (auto split: if_splits simp: surrogate_pair_range simp del: scalar_values.simps(2)
          simp: scalar_values.simps(2) [of u])
  next
    case False
    with 2 show ?thesis using unit_range [of u] by (auto split: if_splits)
  qed
qed simp

lemma percent_units:
  assumes "b < 256" "u \<in> set (percent b)"
  shows "u \<notin> {0x2F, 0x3F, 0x23, 0x26, 0x3D}"
proof -
  have "b div 16 < 16" using assms(1) by (simp add: less_mult_imp_div_less)
  then have "u = 0x25 \<or> unat u \<in> {48..57} \<union> {65..70}"
    using assms(2) upper_hex_digit_range [of "b div 16"] upper_hex_digit_range [of "b mod 16"]
    by (auto simp: percent_def)
  then show ?thesis by auto
qed

lemma uri_byte_units:
  assumes "b < 256" "u \<in> set (uri_byte b)"
  shows "u \<notin> {0x2F, 0x3F, 0x23, 0x26, 0x3D}"
proof (cases "is_alnum_byte b \<or> b \<in> {33, 39, 40, 41, 42, 45, 46, 95, 126}")
  case True
  with assms byte_unit_plain [OF True] show ?thesis by (auto simp: uri_byte_def)
next
  case False
  with assms percent_units show ?thesis by (auto simp: uri_byte_def)
qed

lemma encode_uri_component_safe:
  assumes "encode_uri_component s = Some e" "u \<in> set e"
  shows "u \<notin> {0x2F, 0x3F, 0x23, 0x26, 0x3D}"
proof -
  from assms obtain c b where c: "c \<in> set (scalar_values s)" "c \<noteq> None"
    and b: "b \<in> set (utf8 (the c))" "u \<in> set (uri_byte b)"
    by (auto simp: encode_uri_component_def split: if_splits) (metis option.exhaust)
  then have "b < 256" using utf8_bytes scalar_values_range by (metis option.collapse)
  with b(2) show ?thesis by (rule uri_byte_units [rotated])
qed

end
