(* ===== verification/Client.thy ===== *)
theory Client
  imports SdkTypes Exporter Ids Url
begin

text \<open>
  \<open>sdk/ts/src/client.ts\<close>: \<open>OmnevalClient\<close>, the prompt caches and the REST calls. The server is the
  argument \<open>fetch\<close>; \<open>now\<close> and \<open>later\<close> are the two readings of \<open>Date.now()\<close> in \<open>getPrompt\<close>, in
  milliseconds. A thrown error is \<open>Inl\<close>.
\<close>

type_synonym fetch = "request \<Rightarrow> http_result"

definition PROMPT_CACHE_TTL_MS :: int where "PROMPT_CACHE_TTL_MS = 30000"

definition extractProjectId :: "jsstring option \<Rightarrow> jsstring" where
  "extractProjectId key =
     (case key of
        None \<Rightarrow> []
      | Some k \<Rightarrow>
          if k = [] then []
          else if starts_with k (js ''oev_proj_'') then drop (length ''oev_proj_'') k
          else if starts_with k (js ''oev_svc_'') then drop (length ''oev_svc_'') k
          else k)"

record OmnevalClient =
  cl_baseUrl :: jsstring
  cl_apiKey :: "jsstring option"
  cl_projectId :: jsstring
  labelCache :: "(jsstring \<times> (json option \<times> int)) list"
  versionCache :: "(jsstring \<times> json option) list"

definition new_OmnevalClient :: "OmnevalConfig \<Rightarrow> OmnevalClient" where
  "new_OmnevalClient cfg =
     \<lparr>cl_baseUrl = baseUrl cfg, cl_apiKey = apiKey cfg,
      cl_projectId = extractProjectId (apiKey cfg), labelCache = [], versionCache = []\<rparr>"

definition label_key :: "jsstring \<Rightarrow> jsstring \<Rightarrow> jsstring" where
  "label_key name label = name @ js ''|'' @ label"

definition version_key :: "jsstring \<Rightarrow> jsnum \<Rightarrow> jsstring" where
  "version_key name version = name @ js ''|'' @ num_to_string version"

section \<open>Requests and errors\<close>

definition json_headers :: "OmnevalClient \<Rightarrow> (string \<times> jsstring) list" where
  "json_headers cl = (''Content-Type'', js ''application/json'') # key_header (cl_apiKey cl)"

definition status_error :: "string \<Rightarrow> nat \<Rightarrow> jsstring \<Rightarrow> js_error" where
  "status_error what st b = Thrown (js what @ js '': '' @ dec_nat st @ js '': '' @ b)"

text \<open>\<open>await fetch(\<dots>)\<close>, the check of \<open>response.ok\<close>, and what the caller does with the body.\<close>

definition checked ::
    "fetch \<Rightarrow> string \<Rightarrow> request \<Rightarrow> (jsstring \<Rightarrow> (js_error, 'a) result) \<Rightarrow> (js_error, 'a) result" where
  "checked fetch what r k =
     (case fetch r of
        NetworkError m \<Rightarrow> Inl (Thrown m)
      | Response st b \<Rightarrow> if \<not> ok_status st then Inl (status_error what st b) else k b)"

definition prompt_request :: "OmnevalClient \<Rightarrow> jsstring \<Rightarrow> (jsstring \<times> jsstring) list \<Rightarrow> request" where
  "prompt_request cl name params =
     \<lparr>req_method = GET,
      req_url = cl_baseUrl cl @ js ''/api/v1/prompts/'' @ name @ js ''?'' @ form_pairs params,
      req_headers = [], req_body = None\<rparr>"

definition fetchPromptVersionFromServer ::
    "fetch \<Rightarrow> OmnevalClient \<Rightarrow> jsstring \<Rightarrow> (jsstring \<times> jsstring) list \<Rightarrow> (js_error, json) result" where
  "fetchPromptVersionFromServer fetch cl name params =
     (let r = prompt_request cl name params in
      case fetch r of
        NetworkError m \<Rightarrow> Inl (Thrown m)
      | Response st b \<Rightarrow>
          if st = 404 then Inl (Thrown (js ''prompt not found: '' @ name))
          else if \<not> ok_status st then Inl (status_error ''get prompt'' st b)
          else JSON_parse b)"

definition fetchPromptByVersionFromServer ::
    "fetch \<Rightarrow> OmnevalClient \<Rightarrow> jsstring \<Rightarrow> jsnum \<Rightarrow> (js_error, json) result" where
  "fetchPromptByVersionFromServer fetch cl name version =
     fetchPromptVersionFromServer fetch cl name [(js ''version'', num_to_string version)]"

section \<open>Prompts with caches\<close>

definition store_label :: "jsstring \<Rightarrow> jsstring \<Rightarrow> json option \<Rightarrow> int \<Rightarrow> OmnevalClient \<Rightarrow> OmnevalClient" where
  "store_label name label template now cl =
     cl\<lparr>labelCache := assoc_set (label_key name label) (template, now + PROMPT_CACHE_TTL_MS) (labelCache cl)\<rparr>"

definition store_version :: "jsstring \<Rightarrow> jsnum \<Rightarrow> json option \<Rightarrow> OmnevalClient \<Rightarrow> OmnevalClient" where
  "store_version name version template cl =
     cl\<lparr>versionCache := assoc_set (version_key name version) template (versionCache cl)\<rparr>"

text \<open>A cached version that is not \<open>undefined\<close>.\<close>

definition cached_version :: "OmnevalClient \<Rightarrow> jsstring \<Rightarrow> jsnum \<Rightarrow> json option" where
  "cached_version cl name version =
     (case map_of (versionCache cl) (version_key name version) of Some v \<Rightarrow> v | None \<Rightarrow> None)"

definition getPromptByVersion ::
    "fetch \<Rightarrow> jsstring \<Rightarrow> jsnum \<Rightarrow> OmnevalClient \<Rightarrow> (js_error, json option) result \<times> OmnevalClient" where
  "getPromptByVersion fetch name version cl =
     (case cached_version cl name version of
        Some v \<Rightarrow> (Inr (Some v), cl)
      | None \<Rightarrow>
          (case fetchPromptByVersionFromServer fetch cl name version of
             Inl e \<Rightarrow> (Inl e, cl)
           | Inr pv \<Rightarrow>
               (case get_prop pv ''template'' of
                  Inl e \<Rightarrow> (Inl e, cl)
                | Inr template \<Rightarrow> (Inr template, store_version name version template cl))))"

text \<open>The label a call resolves to, and the version it asks for explicitly.\<close>

definition wanted_label :: "GetPromptOptions option \<Rightarrow> jsstring" where
  "wanted_label opts =
     (case opts of Some o' \<Rightarrow> (case gpo_label o' of Some l \<Rightarrow> l | None \<Rightarrow> js ''production'')
      | None \<Rightarrow> js ''production'')"

definition wanted_version :: "GetPromptOptions option \<Rightarrow> jsnum option" where
  "wanted_version opts =
     (case Option.bind opts gpo_version of
        Some v \<Rightarrow> if num_lt (Fin 0) v then Some v else None
      | None \<Rightarrow> None)"

definition getPrompt ::
    "fetch \<Rightarrow> int \<Rightarrow> int \<Rightarrow> jsstring \<Rightarrow> GetPromptOptions option \<Rightarrow> OmnevalClient \<Rightarrow>
     (js_error, json option) result \<times> OmnevalClient" where
  "getPrompt fetch now later name opts cl =
     (case wanted_version opts of
        Some v \<Rightarrow> getPromptByVersion fetch name v cl
      | None \<Rightarrow>
          (let label = wanted_label opts;
               miss = (case fetchPromptVersionFromServer fetch cl name [(js ''label'', label)] of
                         Inl e \<Rightarrow> (Inl e, cl)
                       | Inr pv \<Rightarrow>
                           (case get_prop pv ''template'' of
                              Inl e \<Rightarrow> (Inl e, cl)
                            | Inr template \<Rightarrow> (Inr template, store_label name label template later cl)))
           in case map_of (labelCache cl) (label_key name label) of
                Some (template, expiresAt) \<Rightarrow>
                  if now < expiresAt then (Inr template, cl) else miss
              | None \<Rightarrow> miss))"

section \<open>Writes and lists\<close>

definition score_request :: "OmnevalClient \<Rightarrow> jsstring \<Rightarrow> jsstring \<Rightarrow> WriteScoreOptions \<Rightarrow> request" where
  "score_request cl traceId spanId opts =
     \<lparr>req_method = POST, req_url = cl_baseUrl cl @ js ''/api/v1/scores'',
      req_headers = json_headers cl,
      req_body = Some (JSON_stringify (JObj (object_of
        [(''span_id'', Some (JStr spanId)), (''trace_id'', Some (JStr traceId)),
         (''project_id'', Some (JStr (cl_projectId cl))), (''eval_name'', Some (JStr (wso_name opts))),
         (''value'', Some (JNum (wso_value opts))),
         (''reasoning'', map_option JStr (wso_reasoning opts))])))\<rparr>"

definition writeScore ::
    "fetch \<Rightarrow> jsstring \<Rightarrow> jsstring \<Rightarrow> WriteScoreOptions \<Rightarrow> OmnevalClient \<Rightarrow> (js_error, unit) result" where
  "writeScore fetch traceId spanId opts cl =
     (if spanId = [] then Inl (Thrown (js ''span_id is required''))
      else checked fetch ''write score'' (score_request cl traceId spanId opts) (\<lambda>_. Inr ()))"

definition model_config_json :: "PromptModelConfig \<Rightarrow> json" where
  "model_config_json c = JObj (object_of
     [(''model'', map_option JStr (pmc_model c)), (''temperature'', map_option JNum (pmc_temperature c)),
      (''max_tokens'', map_option JNum (pmc_max_tokens c))])"

text \<open>A string option added to a payload only when it is truthy.\<close>

definition truthy_str_json :: "jsstring option \<Rightarrow> json option" where
  "truthy_str_json v = (case v of Some s \<Rightarrow> if s \<noteq> [] then Some (JStr s) else None | None \<Rightarrow> None)"

definition create_prompt_request ::
    "OmnevalClient \<Rightarrow> jsstring \<Rightarrow> jsstring \<Rightarrow> CreatePromptOptions option \<Rightarrow> request" where
  "create_prompt_request cl name template opts =
     \<lparr>req_method = POST, req_url = cl_baseUrl cl @ js ''/api/v1/prompts'',
      req_headers = json_headers cl,
      req_body = Some (JSON_stringify (JObj (object_of
        [(''name'', Some (JStr name)), (''template'', Some (JStr template)),
         (''model_config'', map_option model_config_json (Option.bind opts cpo_model_config)),
         (''label'', truthy_str_json (Option.bind opts cpo_label))])))\<rparr>"

definition createPrompt ::
    "fetch \<Rightarrow> jsstring \<Rightarrow> jsstring \<Rightarrow> CreatePromptOptions option \<Rightarrow> OmnevalClient \<Rightarrow> (js_error, json) result" where
  "createPrompt fetch name template opts cl =
     (if name = [] then Inl (Thrown (js ''name is required''))
      else if template = [] then Inl (Thrown (js ''template is required''))
      else checked fetch ''create prompt'' (create_prompt_request cl name template opts) JSON_parse)"

definition get_request :: "OmnevalClient \<Rightarrow> string \<Rightarrow> request" where
  "get_request cl path =
     \<lparr>req_method = GET, req_url = cl_baseUrl cl @ js path,
      req_headers = key_header (cl_apiKey cl), req_body = None\<rparr>"

definition listPrompts :: "fetch \<Rightarrow> OmnevalClient \<Rightarrow> (js_error, json) result" where
  "listPrompts fetch cl = checked fetch ''list prompts'' (get_request cl ''/api/v1/prompts'') JSON_parse"

definition label_request :: "OmnevalClient \<Rightarrow> jsstring \<Rightarrow> jsstring \<Rightarrow> jsnum \<Rightarrow> request" where
  "label_request cl name label version =
     \<lparr>req_method = PUT,
      req_url = cl_baseUrl cl @ js ''/api/v1/prompts/'' @ name @ js ''/labels/'' @ label,
      req_headers = json_headers cl,
      req_body = Some (JSON_stringify (JObj [(js ''version'', JNum version)]))\<rparr>"

definition setPromptLabel ::
    "fetch \<Rightarrow> jsstring \<Rightarrow> jsstring \<Rightarrow> jsnum \<Rightarrow> OmnevalClient \<Rightarrow> (js_error, unit) result" where
  "setPromptLabel fetch name label version cl =
     (if name = [] then Inl (Thrown (js ''name is required''))
      else checked fetch ''set prompt label'' (label_request cl name label version) (\<lambda>_. Inr ()))"

definition listEvalRules :: "fetch \<Rightarrow> OmnevalClient \<Rightarrow> (js_error, json option) result" where
  "listEvalRules fetch cl =
     checked fetch ''list eval rules'' (get_request cl ''/api/v1/eval-rules'')
       (\<lambda>b. and_then (JSON_parse b) (\<lambda>data. and_then (get_prop data ''rules'')
              (\<lambda>rules. Inr (or_else rules (Some (JArr []))))))"

definition eval_rule_request ::
    "OmnevalClient \<Rightarrow> jsstring \<Rightarrow> jsstring \<Rightarrow> CreateEvalRuleOptions option \<Rightarrow> request" where
  "eval_rule_request cl name promptName opts =
     \<lparr>req_method = POST, req_url = cl_baseUrl cl @ js ''/api/v1/eval-rules'',
      req_headers = json_headers cl,
      req_body = Some (JSON_stringify (JObj (object_of
        [(''name'', Some (JStr name)), (''prompt_name'', Some (JStr promptName)),
         (''filter'', Some (JObj (case Option.bind opts cero_filter of Some f \<Rightarrow> f | None \<Rightarrow> []))),
         (''sample_rate'', Some (JNum (case Option.bind opts cero_sample_rate of Some x \<Rightarrow> x | None \<Rightarrow> Fin 1))),
         (''judge_model'', truthy_str_json (Option.bind opts cero_judge_model)),
         (''prompt_version'', map_option JNum (Option.bind opts cero_prompt_version)),
         (''prompt_label'', map_option JStr (Option.bind opts cero_prompt_label))])))\<rparr>"

definition createEvalRule ::
    "fetch \<Rightarrow> jsstring \<Rightarrow> jsstring \<Rightarrow> CreateEvalRuleOptions option \<Rightarrow> OmnevalClient \<Rightarrow> (js_error, json) result" where
  "createEvalRule fetch name promptName opts cl =
     (if name = [] then Inl (Thrown (js ''name is required''))
      else if promptName = [] then Inl (Thrown (js ''prompt_name is required''))
      else checked fetch ''create eval rule'' (eval_rule_request cl name promptName opts) JSON_parse)"


section \<open>Cache properties\<close>

text \<open>
  Calls run concurrently, but the part before the \<open>await\<close> only reads, so a client's state is the
  answers stored so far, in the order they arrived.
\<close>

datatype answer =
    LabelAnswer jsstring jsstring "json option" int
  | VersionAnswer jsstring jsnum "json option"

fun apply_answer :: "answer \<Rightarrow> OmnevalClient \<Rightarrow> OmnevalClient" where
  "apply_answer (LabelAnswer name label t t0) cl = store_label name label t t0 cl"
| "apply_answer (VersionAnswer name v t) cl = store_version name v t cl"

definition after_answers :: "OmnevalConfig \<Rightarrow> answer list \<Rightarrow> OmnevalClient" where
  "after_answers cfg as = fold apply_answer as (new_OmnevalClient cfg)"

fun label_put :: "answer \<Rightarrow> (jsstring \<times> (json option \<times> int)) list" where
  "label_put (LabelAnswer name label t t0) = [(label_key name label, (t, t0 + PROMPT_CACHE_TTL_MS))]"
| "label_put (VersionAnswer _ _ _) = []"

lemma labelCache_answers:
  "labelCache (fold apply_answer as cl) =
   fold (\<lambda>(k, v). assoc_set k v) (concat (map label_put as)) (labelCache cl)"
proof (induction as arbitrary: cl)
  case (Cons a as)
  then show ?case by (cases a) (simp_all add: store_label_def store_version_def)
qed simp

lemma label_key_inj:
  assumes "0x7C \<notin> set n" "0x7C \<notin> set n'"
  shows "label_key n l = label_key n' l' \<longleftrightarrow> n = n' \<and> l = l'"
proof
  assume "label_key n l = label_key n' l'"
  then have eq: "n @ 0x7C # l = n' @ 0x7C # l'"
    by (simp add: label_key_def js_def)
  have "takeWhile (\<lambda>u. u \<noteq> 0x7C) (n @ 0x7C # l) = n" "takeWhile (\<lambda>u. u \<noteq> 0x7C) (n' @ 0x7C # l') = n'"
    using assms by (auto simp: takeWhile_tail takeWhile_append)
  with eq have "n = n'" by metis
  with eq show "n = n' \<and> l = l'" by simp
qed simp

text \<open>A stored label entry comes from an answer for the same key.\<close>

lemma label_entry_origin:
  assumes "map_of (labelCache (after_answers cfg as)) k = Some (t, ex)"
  shows "\<exists>n l t0. LabelAnswer n l t t0 \<in> set as \<and> label_key n l = k \<and> ex = t0 + PROMPT_CACHE_TTL_MS"
proof -
  have "(k, (t, ex)) \<in> set (concat (map label_put as))"
    using assms map_store.look_origin
    by (fastforce simp: after_answers_def labelCache_answers new_OmnevalClient_def)
  then obtain a where a: "a \<in> set as" "(k, (t, ex)) \<in> set (label_put a)" by auto
  show ?thesis
  proof (cases a)
    case (LabelAnswer n l u t0)
    with a show ?thesis by auto
  next
    case (VersionAnswer n v u)
    with a show ?thesis by simp
  qed
qed



text \<open>
  After a call that went to the server, the same call within the next 30 seconds returns the same
  template without a request: its result does not depend on the server any more.
\<close>

theorem getPrompt_served_from_cache:
  assumes "getPrompt fetch now later name opts cl = (Inr t, cl')" and "wanted_version opts = None"
    and "map_of (labelCache cl) (label_key name (wanted_label opts)) = None"
    and "now' < later + 30000"
  shows "getPrompt fetch' now' later' name opts cl' = (Inr t, cl')"
proof -
  from assms(1-3) have "cl' = store_label name (wanted_label opts) t later cl"
    by (auto simp: getPrompt_def Let_def split: sum.splits)
  then have "map_of (labelCache cl') (label_key name (wanted_label opts)) = Some (t, later + 30000)"
    by (simp add: store_label_def PROMPT_CACHE_TTL_MS_def)
  with assms(2,4) show ?thesis by (simp add: getPrompt_def)
qed

definition hi_server :: fetch where
  "hi_server r = Response 200 (js ''{\"template\":\"Hi\"}'')"

lemma parse_hi: "JSON_parse (js ''{\"template\":\"Hi\"}'') = Inr (JObj [(js ''template'', JStr (js ''Hi''))])"
  by code_simp

lemma getPrompt_served_from_cache_witness:
  "\<exists>cl'. getPrompt hi_server 0 5 (js ''p'') None (new_OmnevalClient \<lparr>baseUrl = [], apiKey = None\<rparr>) =
       (Inr (Some (JStr (js ''Hi''))), cl') \<and>
     getPrompt (\<lambda>_. NetworkError []) 30004 0 (js ''p'') None cl' = (Inr (Some (JStr (js ''Hi''))), cl')"
proof -
  let ?cl = "new_OmnevalClient \<lparr>baseUrl = [], apiKey = None\<rparr>"
  obtain cl' where call: "getPrompt hi_server 0 5 (js ''p'') None ?cl = (Inr (Some (JStr (js ''Hi''))), cl')"
    by (simp add: getPrompt_def wanted_version_def fetchPromptVersionFromServer_def hi_server_def
        ok_status_def parse_hi new_OmnevalClient_def)
  have "wanted_version None = None" "map_of (labelCache ?cl) k = None" for k
    by (simp_all add: wanted_version_def new_OmnevalClient_def)
  with call getPrompt_served_from_cache [OF call, of 30004 "\<lambda>_. NetworkError []" 0]
  show ?thesis by auto
qed

text \<open>
  A version, once read, is immutable for the client: later calls return it whatever the server
  says, and never change the client.
\<close>

theorem version_cache_immutable:
  assumes "getPromptByVersion fetch name v cl = (Inr (Some t), cl')"
  shows "getPromptByVersion fetch' name v cl' = (Inr (Some t), cl')"
  using assms
  by (auto simp: getPromptByVersion_def cached_version_def store_version_def
      split: option.splits sum.splits)

lemma version_cache_immutable_witness:
  "\<exists>cl'. getPromptByVersion hi_server (js ''p'') (Fin 3) (new_OmnevalClient \<lparr>baseUrl = [], apiKey = None\<rparr>) =
       (Inr (Some (JStr (js ''Hi''))), cl') \<and>
     getPromptByVersion (\<lambda>_. Response 404 []) (js ''p'') (Fin 3) cl' = (Inr (Some (JStr (js ''Hi''))), cl')"
proof -
  obtain cl' where "getPromptByVersion hi_server (js ''p'') (Fin 3)
      (new_OmnevalClient \<lparr>baseUrl = [], apiKey = None\<rparr>) = (Inr (Some (JStr (js ''Hi''))), cl')"
    by (simp add: getPromptByVersion_def cached_version_def fetchPromptByVersionFromServer_def
        fetchPromptVersionFromServer_def hi_server_def ok_status_def parse_hi new_OmnevalClient_def)
  then show ?thesis using version_cache_immutable by blast
qed

text \<open>
  A failed call leaves the client as it was: no error path writes a cache.
\<close>

theorem getPrompt_error_keeps_state:
  "getPrompt fetch now later name opts cl = (Inl e, cl') \<Longrightarrow> cl' = cl"
  by (auto simp: getPrompt_def getPromptByVersion_def Let_def split: option.splits sum.splits if_splits)

lemma getPrompt_error_keeps_state_witness:
  "let cl = new_OmnevalClient \<lparr>baseUrl = [], apiKey = None\<rparr> in
   getPrompt (\<lambda>_. Response 404 []) 0 0 (js ''p'') None cl = (Inl (Thrown (js ''prompt not found: p'')), cl)"
proof -
  let ?cl = "new_OmnevalClient \<lparr>baseUrl = [], apiKey = None\<rparr>"
  have "fst (getPrompt (\<lambda>_. Response 404 []) 0 0 (js ''p'') None ?cl) = Inl (Thrown (js ''prompt not found: p''))"
    by (simp add: getPrompt_def wanted_version_def fetchPromptVersionFromServer_def
        new_OmnevalClient_def flip: js_append)
  then show ?thesis
    using getPrompt_error_keeps_state by (metis prod.collapse)
qed

text \<open>
  The cache key joins name and label with a separator both may contain, so a prompt can be served
  under a name and label nobody asked the server for: with \<open>a|b\<close> under label \<open>c\<close> cached, \<open>a\<close> under
  label \<open>b|c\<close> is answered with its template, without a request.
\<close>

theorem cache_keys_collide:
  "getPrompt fetch 0 later (js ''a'') (Some \<lparr>gpo_label = Some (js ''b|c''), gpo_version = None\<rparr>)
     (store_label (js ''a|b'') (js ''c'') t 0 cl) =
   (Inr t, store_label (js ''a|b'') (js ''c'') t 0 cl)"
  by (simp add: getPrompt_def wanted_version_def wanted_label_def store_label_def label_key_def
      PROMPT_CACHE_TTL_MS_def flip: js_append)

section \<open>Authentication and validation\<close>

text \<open>
  A configured key goes out with every request except the one that reads a prompt, which carries
  no header at all.
\<close>

theorem only_prompt_reads_are_unauthenticated:
  assumes "cl_apiKey cl = Some k" and "k \<noteq> []"
  shows "(\<forall>r \<in> {score_request cl tid sid so, create_prompt_request cl n tm co,
                  get_request cl path, label_request cl n l v, eval_rule_request cl n pn eo}.
            has_header r ''X-API-Key'' k) \<and>
    req_headers (prompt_request cl n params) = []"
  using assms
  by (simp add: has_header_def score_request_def create_prompt_request_def get_request_def
      label_request_def eval_rule_request_def prompt_request_def json_headers_def key_header_def)

lemma only_prompt_reads_are_unauthenticated_witness:
  "let cl = new_OmnevalClient \<lparr>baseUrl = [], apiKey = Some (js ''oev_proj_x'')\<rparr> in
   has_header (get_request cl ''/api/v1/prompts'') ''X-API-Key'' (js ''oev_proj_x'') \<and>
   req_headers (prompt_request cl (js ''p'') []) = []"
  using only_prompt_reads_are_unauthenticated
    [of "new_OmnevalClient \<lparr>baseUrl = [], apiKey = Some (js ''oev_proj_x'')\<rparr>" "js ''oev_proj_x''"]
  by (auto simp: new_OmnevalClient_def Let_def)

text \<open>
  The writes succeed exactly when their required arguments are non-empty and the server answers
  2xx; a missing argument is an error before any request.
\<close>

theorem writes_succeed_iff:
  "(writeScore fetch tid sid so cl = Inr () \<longleftrightarrow>
      sid \<noteq> [] \<and> (\<exists>st b. fetch (score_request cl tid sid so) = Response st b \<and> 200 \<le> st \<and> st \<le> 299)) \<and>
   (setPromptLabel fetch n l v cl = Inr () \<longleftrightarrow>
      n \<noteq> [] \<and> (\<exists>st b. fetch (label_request cl n l v) = Response st b \<and> 200 \<le> st \<and> st \<le> 299)) \<and>
   ((\<exists>p. createPrompt fetch n tm co cl = Inr p) \<longleftrightarrow>
      n \<noteq> [] \<and> tm \<noteq> [] \<and> (\<exists>st b p. fetch (create_prompt_request cl n tm co) = Response st b \<and>
        200 \<le> st \<and> st \<le> 299 \<and> JSON_parse b = Inr p)) \<and>
   ((\<exists>p. createEvalRule fetch n pn eo cl = Inr p) \<longleftrightarrow>
      n \<noteq> [] \<and> pn \<noteq> [] \<and> (\<exists>st b p. fetch (eval_rule_request cl n pn eo) = Response st b \<and>
        200 \<le> st \<and> st \<le> 299 \<and> JSON_parse b = Inr p))"
  by (auto simp: writeScore_def setPromptLabel_def createPrompt_def createEvalRule_def checked_def
      ok_status_def split: http_result.splits if_splits)

text \<open>
  The project of a score is the API key without its \<open>oev_proj_\<close> or \<open>oev_svc_\<close> prefix, the whole
  key when it has neither, and empty without a key.
\<close>

theorem extractProjectId_spec:
  "extractProjectId (Some (js ''oev_proj_'' @ s)) = s \<and>
   extractProjectId (Some (js ''oev_svc_'' @ s)) = s \<and>
   extractProjectId None = [] \<and>
   ((\<exists>t. k = js ''oev_proj_'' @ t) \<or> (\<exists>t. k = js ''oev_svc_'' @ t) \<or> extractProjectId (Some k) = k)"
proof -
  have "\<not> starts_with (js ''oev_svc_'' @ s) (js ''oev_proj_'')"
    using starts_with_js_append by force
  then show ?thesis
    by (simp add: extractProjectId_def) (simp add: starts_with_iff)
qed

end
