(* ===== verification/Omneval.thy ===== *)
theory Omneval
  imports TracerRuns Client
begin

text \<open>
  \<open>sdk/ts/src/omneval.ts\<close>: the facade \<open>OmnevalSDK\<close>. A call before \<open>init\<close> is a no-op or throws;
  after it, the facade hands the call to the tracer or the client. A method that awaits the tracer
  is cut where the tracer's is.
\<close>

record OmnevalSDK =
  sdk_config :: "OmnevalConfig option"
  sdk_tracer :: "ManualTracer option"
  sdk_client :: "OmnevalClient option"
  sdk_exporter :: "SpanExporter option"

definition createOmneval :: OmnevalSDK where
  "createOmneval = \<lparr>sdk_config = None, sdk_tracer = None, sdk_client = None, sdk_exporter = None\<rparr>"

definition init :: "OmnevalConfig \<Rightarrow> OmnevalSDK \<Rightarrow> OmnevalSDK" where
  "init config sdk =
     sdk\<lparr>sdk_config := Some config,
         sdk_exporter := Some (new_SpanExporter (baseUrl config) (apiKey config)),
         sdk_tracer := Some new_ManualTracer,
         sdk_client := Some (new_OmnevalClient config)\<rparr>"

text \<open>\<open>this.tracer?.m(\<dots>)\<close>\<close>

definition on_tracer :: "(ManualTracer \<Rightarrow> ManualTracer) \<Rightarrow> OmnevalSDK \<Rightarrow> OmnevalSDK" where
  "on_tracer m sdk = sdk\<lparr>sdk_tracer := map_option m (sdk_tracer sdk)\<rparr>"

text \<open>The returned identifier, the messages on the console, and the new state.\<close>

definition sdk_startSpan ::
    "jsstring \<Rightarrow> SpanAttributes option \<Rightarrow> SpanKind option \<Rightarrow> jsstring option \<Rightarrow>
     jsstring \<Rightarrow> jsstring \<Rightarrow> int \<Rightarrow> OmnevalSDK \<Rightarrow> jsstring \<times> jsstring list \<times> OmnevalSDK" where
  "sdk_startSpan nm attributes kind parentSpanId spanId fresh now sdk =
     (case sdk_tracer sdk of
        None \<Rightarrow>
          ([], [js ''@omneval/sdk: Omneval.init() not called '' @ em_dash @ js '' startSpan() is a no-op''], sdk)
      | Some _ \<Rightarrow>
          (spanId, [],
           on_tracer (startSpan nm \<lparr>sso_parentSpanId = parentSpanId, sso_kind = kind,
                                    sso_attributes = attributes\<rparr> spanId fresh now) sdk))"

datatype span_output =
    NoOutput
  | OutputText jsstring
  | OutputOptions "jsstring option" "SpanAttributes option"

fun end_options :: "span_output \<Rightarrow> EndSpanOptions" where
  "end_options NoOutput = \<lparr>eso_output = None, eso_attributes = None\<rparr>"
| "end_options (OutputText s) = \<lparr>eso_output = Some s, eso_attributes = None\<rparr>"
| "end_options (OutputOptions out a) = \<lparr>eso_output = out, eso_attributes = a\<rparr>"

definition sdk_endSpan ::
    "jsstring \<Rightarrow> span_output \<Rightarrow> int \<Rightarrow> OmnevalSDK \<Rightarrow> OmnevalSDK \<times> OmnevalSpan list option" where
  "sdk_endSpan i out now sdk =
     (case sdk_tracer sdk of
        None \<Rightarrow> (sdk, None)
      | Some tr \<Rightarrow> (case endSpan i (end_options out) now tr of
                     (tr', batch) \<Rightarrow> (sdk\<lparr>sdk_tracer := Some tr'\<rparr>, batch)))"

definition sdk_setModel :: "jsstring \<Rightarrow> jsstring \<Rightarrow> OmnevalSDK \<Rightarrow> OmnevalSDK" where
  "sdk_setModel i m = on_tracer (setModel i m)"

definition sdk_setInput :: "jsstring \<Rightarrow> jsstring \<Rightarrow> OmnevalSDK \<Rightarrow> OmnevalSDK" where
  "sdk_setInput i x = on_tracer (setInput i x)"

definition sdk_setTokens :: "jsstring \<Rightarrow> jsnum \<Rightarrow> jsnum \<Rightarrow> OmnevalSDK \<Rightarrow> OmnevalSDK" where
  "sdk_setTokens i a b = on_tracer (setTokens i a b)"

definition sdk_setPrompt :: "jsstring \<Rightarrow> jsstring \<Rightarrow> jsnum option \<Rightarrow> OmnevalSDK \<Rightarrow> OmnevalSDK" where
  "sdk_setPrompt i nm v = on_tracer (setPrompt i nm v)"

definition sdk_setConversationId :: "jsstring \<Rightarrow> jsstring \<Rightarrow> OmnevalSDK \<Rightarrow> OmnevalSDK" where
  "sdk_setConversationId i c = on_tracer (setConversationId i c)"

definition sdk_setActiveConversationId :: "jsstring \<Rightarrow> OmnevalSDK \<Rightarrow> OmnevalSDK" where
  "sdk_setActiveConversationId c = on_tracer (setActiveConversationId c)"

text \<open>\<open>flush\<close>: the exporter the tracer holds is the one \<open>init\<close> made.\<close>

definition sdk_flush :: "(request \<Rightarrow> http_result) \<Rightarrow> OmnevalSDK \<Rightarrow> OmnevalSDK" where
  "sdk_flush fetch sdk =
     (case sdk_exporter sdk of None \<Rightarrow> sdk | Some ex \<Rightarrow> on_tracer (flush ex fetch) sdk)"

section \<open>The client's calls\<close>

definition not_initialised :: js_error where
  "not_initialised = Thrown (js ''@omneval/sdk: Omneval.init() not called'')"

definition on_client ::
    "(OmnevalClient \<Rightarrow> (js_error, 'a) result \<times> OmnevalClient) \<Rightarrow> OmnevalSDK \<Rightarrow>
     (js_error, 'a) result \<times> OmnevalSDK" where
  "on_client m sdk =
     (case sdk_client sdk of
        None \<Rightarrow> (Inl not_initialised, sdk)
      | Some cl \<Rightarrow> (case m cl of (r, cl') \<Rightarrow> (r, sdk\<lparr>sdk_client := Some cl'\<rparr>)))"

datatype label_or_options = LabelText jsstring | LabelOptions "GetPromptOptions option"

fun prompt_options :: "label_or_options \<Rightarrow> GetPromptOptions option" where
  "prompt_options (LabelText l) = Some \<lparr>gpo_label = Some l, gpo_version = None\<rparr>"
| "prompt_options (LabelOptions opts) = opts"

definition sdk_getPrompt ::
    "fetch \<Rightarrow> int \<Rightarrow> int \<Rightarrow> jsstring \<Rightarrow> label_or_options \<Rightarrow> OmnevalSDK \<Rightarrow>
     (js_error, json option) result \<times> OmnevalSDK" where
  "sdk_getPrompt fetch now later nm l = on_client (getPrompt fetch now later nm (prompt_options l))"

definition sdk_getPromptByVersion ::
    "fetch \<Rightarrow> jsstring \<Rightarrow> jsnum \<Rightarrow> OmnevalSDK \<Rightarrow> (js_error, json option) result \<times> OmnevalSDK" where
  "sdk_getPromptByVersion fetch nm v = on_client (getPromptByVersion fetch nm v)"

datatype eval_name = EvalName jsstring | EvalOptions WriteScoreOptions

definition sdk_writeScore ::
    "fetch \<Rightarrow> jsstring \<Rightarrow> jsstring \<Rightarrow> eval_name \<Rightarrow> jsnum option \<Rightarrow> jsstring option \<Rightarrow> OmnevalSDK \<Rightarrow>
     (js_error, unit) result \<times> OmnevalSDK" where
  "sdk_writeScore fetch traceId spanId evalName val reasoning = on_client (\<lambda>cl.
     (case evalName of
        EvalOptions opts \<Rightarrow> writeScore fetch traceId spanId opts cl
      | EvalName nm \<Rightarrow>
          (case val of
             None \<Rightarrow> Inl (Thrown (js ''value is required''))
           | Some x \<Rightarrow> writeScore fetch traceId spanId
                         \<lparr>wso_name = nm, wso_value = x, wso_reasoning = reasoning\<rparr> cl), cl))"

section \<open>Properties\<close>

text \<open>What every facade between two calls satisfies: \<open>init\<close> set all four fields, or none.\<close>

definition sdk_ok :: "OmnevalSDK \<Rightarrow> bool" where
  "sdk_ok sdk \<longleftrightarrow>
     (case sdk_config sdk of
        None \<Rightarrow> sdk_tracer sdk = None \<and> sdk_client sdk = None \<and> sdk_exporter sdk = None
      | Some c \<Rightarrow> sdk_tracer sdk \<noteq> None \<and> sdk_client sdk \<noteq> None \<and>
          sdk_exporter sdk = Some (new_SpanExporter (baseUrl c) (apiKey c)))"

datatype sdk_call =
    CInit OmnevalConfig
  | CStart jsstring "SpanAttributes option" "SpanKind option" "jsstring option" jsstring jsstring int
  | CEnd jsstring span_output int
  | CSetModel jsstring jsstring | CSetInput jsstring jsstring | CSetTokens jsstring jsnum jsnum
  | CSetPrompt jsstring jsstring "jsnum option"
  | CSetConversation jsstring jsstring | CSetActiveConversation jsstring
  | CGetPrompt int int jsstring label_or_options | CGetVersion jsstring jsnum
  | CScore jsstring jsstring eval_name "jsnum option" "jsstring option"
  | CFlush

fun run_call :: "fetch \<Rightarrow> sdk_call \<Rightarrow> OmnevalSDK \<Rightarrow> OmnevalSDK" where
  "run_call fetch (CInit c) sdk = init c sdk"
| "run_call fetch (CStart nm a k p i f now) sdk = snd (snd (sdk_startSpan nm a k p i f now sdk))"
| "run_call fetch (CEnd i out now) sdk =
     (case sdk_endSpan i out now sdk of
        (sdk', None) \<Rightarrow> sdk' | (sdk', Some _) \<Rightarrow> sdk_flush fetch sdk')"
| "run_call fetch (CSetModel i m) sdk = sdk_setModel i m sdk"
| "run_call fetch (CSetInput i m) sdk = sdk_setInput i m sdk"
| "run_call fetch (CSetTokens i m n) sdk = sdk_setTokens i m n sdk"
| "run_call fetch (CSetPrompt i m v) sdk = sdk_setPrompt i m v sdk"
| "run_call fetch (CSetConversation i c) sdk = sdk_setConversationId i c sdk"
| "run_call fetch (CSetActiveConversation c) sdk = sdk_setActiveConversationId c sdk"
| "run_call fetch (CGetPrompt now later nm l) sdk = snd (sdk_getPrompt fetch now later nm l sdk)"
| "run_call fetch (CGetVersion nm v) sdk = snd (sdk_getPromptByVersion fetch nm v sdk)"
| "run_call fetch (CScore t i e v r) sdk = snd (sdk_writeScore fetch t i e v r sdk)"
| "run_call fetch CFlush sdk = sdk_flush fetch sdk"

lemmas facade_defs = sdk_startSpan_def sdk_endSpan_def sdk_setModel_def sdk_setInput_def
  sdk_setTokens_def sdk_setPrompt_def sdk_setConversationId_def sdk_setActiveConversationId_def
  sdk_getPrompt_def sdk_getPromptByVersion_def sdk_writeScore_def sdk_flush_def on_tracer_def
  on_client_def init_def

lemma sdk_ok_run_call: "sdk_ok sdk \<Longrightarrow> sdk_ok (run_call fetch c sdk)"
  by (cases c) (auto simp: sdk_ok_def facade_defs split: option.splits prod.splits)

lemma sdk_ok_fold: "sdk_ok sdk \<Longrightarrow> sdk_ok (fold (run_call fetch) cs sdk)"
  by (induction cs arbitrary: sdk) (auto intro: sdk_ok_run_call)

text \<open>
  Before \<open>init\<close> no sequence of calls changes the facade, and the calls that need the client throw.
\<close>

theorem inert_before_init:
  assumes "\<forall>c\<in>set cs. \<forall>cfg. c \<noteq> CInit cfg"
  shows "fold (run_call fetch) cs createOmneval = createOmneval \<and>
    fst (sdk_startSpan nm a k p i f now createOmneval) = [] \<and>
    fst (sdk_getPrompt fetch now later nm l createOmneval) = Inl not_initialised \<and>
    fst (sdk_writeScore fetch t i e v r createOmneval) = Inl not_initialised"
proof -
  have "(\<forall>cfg. c \<noteq> CInit cfg) \<Longrightarrow> run_call fetch c createOmneval = createOmneval" for c
    by (cases c) (simp_all add: facade_defs createOmneval_def)
  with assms have "fold (run_call fetch) cs createOmneval = createOmneval"
    by (induction cs) auto
  then show ?thesis by (simp add: facade_defs createOmneval_def)
qed

lemma inert_before_init_witness:
  "fold (run_call (\<lambda>_. NetworkError [])) [CStart (js ''s'') None None None [1] [2] 0, CFlush] createOmneval =
   createOmneval"
  using inert_before_init [of "[CStart (js ''s'') None None None [1] [2] 0, CFlush]"] by simp

text \<open>
  C37: after \<open>init\<close>, whatever is called, the tracer exports to the URL and with the key of the latest
  configuration, and a span started and ended on the way is in the request that \<open>endSpan\<close> sends.
\<close>

theorem facade_exports_to_config:
  assumes "sdk = fold (run_call fetch) cs createOmneval" and "sdk_config sdk = Some cfg"
    and "sdk_endSpan i out now sdk = (sdk', Some b)"
  shows "\<exists>r. map_option (\<lambda>ex. export_request ex b) (sdk_exporter sdk') = Some (Some r) \<and>
    req_url r = baseUrl cfg @ js ''/api/v1/spans'' \<and> req_body r = Some (spans_body b) \<and>
    req_headers r = (''Content-Type'', js ''application/json'') # key_header (apiKey cfg) \<and>
    i \<in> os_span_id ` set b"
proof -
  have "sdk_ok createOmneval" by (simp add: sdk_ok_def createOmneval_def)
  then have "sdk_ok sdk" unfolding assms(1) by (rule sdk_ok_fold)
  with assms(2) obtain tr where tr: "sdk_tracer sdk = Some tr"
    "sdk_exporter sdk = Some (new_SpanExporter (baseUrl cfg) (apiKey cfg))"
    by (auto simp: sdk_ok_def)
  obtain tr' where tr': "endSpan i (end_options out) now tr = (tr', Some b)" "sdk' = sdk\<lparr>sdk_tracer := Some tr'\<rparr>"
    using assms(3) tr by (auto simp: sdk_endSpan_def split: prod.splits)
  then obtain s where s: "find_tracked i (pending tr) = Some s"
    by (auto simp: endSpan_def split: option.splits)
  have tr'_def: "tr' = modify i (mark_ended (end_options out) now) tr" "flush_begin tr' = Some b"
    using tr' s by (auto simp: endSpan_def Let_def)
  have "find_tracked i (pending tr') = Some (mark_ended (end_options out) now s)"
    using s by (simp add: tr'_def modify_def find_tracked_def find_update_first mark_ended_def Let_def
        split: option.split)
  then have "mark_ended (end_options out) now s \<in> set (pending tr')"
    "ts_span_id (mark_ended (end_options out) now s) = i"
    by (auto simp: find_tracked_def dest: find_Some_in)
  then have "i \<in> os_span_id ` set b" "b \<noteq> []"
    using flush_begin_Some [OF tr'_def(2)] by force+
  with tr tr' show ?thesis
    by (simp add: export_request_def new_SpanExporter_def)
qed

lemma facade_exports_to_config_witness:
  "let sdk = fold (run_call (\<lambda>_. NetworkError []))
         [CInit \<lparr>baseUrl = js ''h'', apiKey = Some (js ''k'')\<rparr>, CStart (js ''s'') None None None [1] [2] 0]
         createOmneval;
       ex = the (sdk_exporter (fst (sdk_endSpan [1] NoOutput 5 sdk)));
       b = the (snd (sdk_endSpan [1] NoOutput 5 sdk))
   in \<exists>r. export_request ex b = Some r \<and> req_url r = js ''h/api/v1/spans'' \<and> [1] \<in> os_span_id ` set b"
proof -
  let ?cs = "[CInit \<lparr>baseUrl = js ''h'', apiKey = Some (js ''k'')\<rparr>, CStart (js ''s'') None None None [1] [2] 0]"
  let ?sdk = "fold (run_call (\<lambda>_. NetworkError [])) ?cs createOmneval"
  have e: "\<exists>sdk' b. sdk_endSpan [1] NoOutput 5 ?sdk = (sdk', Some b)"
    by (simp add: facade_defs createOmneval_def startSpan_def new_ManualTracer_def endSpan_def
        find_tracked_def modify_def mark_ended_def flush_begin_def ended_def)
  have "sdk_config ?sdk = Some \<lparr>baseUrl = js ''h'', apiKey = Some (js ''k'')\<rparr>"
    by (simp add: facade_defs createOmneval_def)
  with e show ?thesis
    using facade_exports_to_config [OF refl, of "\<lambda>_. NetworkError []" ?cs _ "[1]" NoOutput 5]
    by (fastforce simp: Let_def simp flip: js_append)
qed

text \<open>
  A second \<open>init\<close> forgets what the first session still held: nothing started before it is exported
  any more, whether or not it had ended, until a new span is started.
\<close>

theorem reinit_drops_pending:
  "sdk_tracer (init cfg sdk) = Some new_ManualTracer \<and>
   snd (sdk_endSpan i out now (init cfg sdk)) = None \<and>
   sdk_flush fetch (init cfg sdk) = init cfg sdk"
  by (simp add: facade_defs new_ManualTracer_def endSpan_def find_tracked_def flush_def flush_begin_def)

end
