(* ===== verification/NodeInstrument.thy ===== *)
theory NodeInstrument
  imports Exporter
begin

text \<open>
  \<open>sdk/ts/src/node/index.ts\<close>: \<open>instrument\<close> and the module-level factory. The OpenTelemetry classes
  are not in the repository: a factory is a function that says, for each call made on its classes,
  whether that call throws. The calls made are recorded.
\<close>

record InstrumentOptions =
  io_baseUrl :: jsstring
  io_apiKey :: "jsstring option"
  io_serviceName :: "jsstring option"

text \<open>The configuration handed to \<open>NodeSDK\<close>: the exporter made before it, and the resource.\<close>

record NodeSDKConfig =
  nsc_traceExporter :: OTLPConfig
  nsc_resource :: "json option"

datatype otel_call =
    New_OTLPTraceExporter OTLPConfig
  | New_NodeSDK NodeSDKConfig
  | Start
  | Shutdown

type_synonym OTelFactory = "otel_call \<Rightarrow> js_error option"

section \<open>Loading the packages\<close>

text \<open>How a dynamic \<open>import\<close> can end: an \<open>Error\<close> with its message, or another thrown value.\<close>

datatype 'm import_result = Imported 'm | ImportError jsstring | ImportThrew jsstring

definition not_installed :: js_error where
  "not_installed = Thrown (js (''@omneval/sdk/node: @opentelemetry/sdk-node is not installed. '' @
     ''Install it with: npm install @opentelemetry/sdk-node @opentelemetry/exporter-trace-otlp-http''))"

fun load_failed :: "'m import_result \<Rightarrow> js_error" where
  "load_failed (ImportError m) =
     (if str_includes m (js ''Cannot find module'') then not_installed else Thrown m)"
| "load_failed (ImportThrew m) = Thrown m"
| "load_failed (Imported _) = not_installed"

definition loadOTelFactory ::
    "'a import_result \<Rightarrow> 'b import_result \<Rightarrow> (js_error, 'a \<times> 'b) result" where
  "loadOTelFactory sdk_node otlp_http =
     (case sdk_node of
        Imported a \<Rightarrow> (case otlp_http of Imported b \<Rightarrow> Inr (a, b) | e \<Rightarrow> Inl (load_failed e))
      | e \<Rightarrow> Inl (load_failed e))"

section \<open>Instrumenting\<close>

definition setFactory :: "OTelFactory \<Rightarrow> OTelFactory option \<Rightarrow> OTelFactory option" where
  "setFactory f _ = Some f"

definition resetFactory :: "OTelFactory option \<Rightarrow> OTelFactory option" where
  "resetFactory _ = None"

definition base_url_required :: js_error where
  "base_url_required = Thrown (js ''instrument: baseUrl is required'')"

definition factory_missing :: js_error where
  "factory_missing = Thrown (js (''@omneval/sdk/node: OTel factory not available. '' @
     ''This should not happen in production. '' @
     ''If you see this error, please report it at https://github.com/omneval/omneval/issues''))"

text \<open>Calls run until one throws; the calls made are returned with the outcome.\<close>

fun otel_calls :: "OTelFactory \<Rightarrow> otel_call list \<Rightarrow> otel_call list \<times> (js_error, unit) result" where
  "otel_calls f [] = ([], Inr ())"
| "otel_calls f (c # cs) =
     (case f c of
        Some e \<Rightarrow> ([c], Inl e)
      | None \<Rightarrow> (case otel_calls f cs of (done', r) \<Rightarrow> (c # done', r)))"

definition node_config :: "InstrumentOptions \<Rightarrow> NodeSDKConfig" where
  "node_config opts =
     \<lparr>nsc_traceExporter = buildOmnevalExporterConfig (io_baseUrl opts) (io_apiKey opts),
      nsc_resource = (case io_serviceName opts of
          Some s \<Rightarrow> if s \<noteq> [] then Some (JObj [(js ''attributes'', JObj [(js ''service.name'', JStr s)])])
                   else None
        | None \<Rightarrow> None)\<rparr>"

definition instrumentWithFactory ::
    "InstrumentOptions \<Rightarrow> OTelFactory option \<Rightarrow> OTelFactory option \<Rightarrow>
     otel_call list \<times> (js_error, unit) result" where
  "instrumentWithFactory opts factoryOverride module_factory =
     (if io_baseUrl opts = [] then ([], Inl base_url_required)
      else case (case factoryOverride of Some f \<Rightarrow> Some f | None \<Rightarrow> module_factory) of
             None \<Rightarrow> ([], Inl factory_missing)
           | Some f \<Rightarrow> otel_calls f
               [New_OTLPTraceExporter (nsc_traceExporter (node_config opts)),
                New_NodeSDK (node_config opts), Start])"

definition instrument ::
    "InstrumentOptions \<Rightarrow> OTelFactory option \<Rightarrow> otel_call list \<times> (js_error, unit) result" where
  "instrument opts module_factory = instrumentWithFactory opts None module_factory"

text \<open>The shutdown function that a successful call returns.\<close>

definition shutdown_calls :: "OTelFactory \<Rightarrow> otel_call list \<times> (js_error, unit) result" where
  "shutdown_calls f = otel_calls f [Shutdown]"

section \<open>Properties\<close>

datatype module_call = SetFactory OTelFactory | ResetFactory | Instrument InstrumentOptions

fun module_step :: "module_call \<Rightarrow> OTelFactory option \<Rightarrow> OTelFactory option" where
  "module_step (SetFactory f) m = setFactory f m"
| "module_step ResetFactory m = resetFactory m"
| "module_step (Instrument opts) m = m"

lemma factory_stays_unset:
  assumes "\<forall>c\<in>set cs. \<forall>f. c \<noteq> SetFactory f"
  shows "fold module_step cs None = None"
  using assms
proof (induction cs)
  case (Cons c cs)
  then show ?case by (cases c) (auto simp: resetFactory_def)
qed simp

text \<open>
  Nothing but the test hook \<open>_setFactory\<close> makes a factory available, so in production every call of
  \<open>instrument\<close> throws before it makes an OpenTelemetry object: \<open>loadOTelFactory\<close> is never used.
\<close>

theorem instrument_needs_test_hook:
  assumes "\<forall>c\<in>set cs. \<forall>f. c \<noteq> SetFactory f"
  shows "instrument opts (fold module_step cs None) =
    ([], Inl (if io_baseUrl opts = [] then base_url_required else factory_missing))"
  unfolding factory_stays_unset [OF assms] by (simp add: instrument_def instrumentWithFactory_def)

lemma instrument_needs_test_hook_witness:
  "let opts = \<lparr>io_baseUrl = js ''http://h'', io_apiKey = None, io_serviceName = None\<rparr>
   in instrument opts (fold module_step [Instrument opts, ResetFactory] None) = ([], Inl factory_missing)"
  using instrument_needs_test_hook
    [of "[Instrument \<lparr>io_baseUrl = js ''http://h'', io_apiKey = None, io_serviceName = None\<rparr>, ResetFactory]"]
  by (simp add: Let_def)

text \<open>
  With a factory whose classes work, \<open>instrument\<close> succeeds and starts the SDK once, last, with the
  exporter pointed at \<open>/v1/traces\<close> below the base URL; an error of any call is passed on and stops
  the sequence there, so a failing constructor never starts the SDK.
\<close>

theorem instrument_starts_once:
  assumes "io_baseUrl opts \<noteq> []"
  shows "let (calls, r) = instrument opts (Some f)
    in (r = Inr () \<longleftrightarrow> calls = [New_OTLPTraceExporter (nsc_traceExporter (node_config opts)),
                               New_NodeSDK (node_config opts), Start] \<and> f Start = None) \<and>
       (Start \<notin> set calls \<longleftrightarrow>
          f (New_OTLPTraceExporter (nsc_traceExporter (node_config opts))) \<noteq> None \<or>
          f (New_NodeSDK (node_config opts)) \<noteq> None) \<and>
       otlp_url (nsc_traceExporter (node_config opts)) =
         strip_trailing_slashes (io_baseUrl opts) @ js ''/v1/traces''"
  using assms
  by (auto simp: instrument_def instrumentWithFactory_def node_config_def buildOmnevalExporterConfig_def
      split: option.split)

lemma instrument_starts_once_witness:
  "let opts = \<lparr>io_baseUrl = js ''http://h'', io_apiKey = None, io_serviceName = Some (js ''app'')\<rparr>
   in snd (instrument opts (Some (\<lambda>_. None))) = Inr () \<and>
      Start \<notin> set (fst (instrument opts (Some (\<lambda>c. if c = Start then None else Some SyntaxError))))"
  using instrument_starts_once
      [of "\<lparr>io_baseUrl = js ''http://h'', io_apiKey = None, io_serviceName = Some (js ''app'')\<rparr>" "\<lambda>_. None"]
    instrument_starts_once
      [of "\<lparr>io_baseUrl = js ''http://h'', io_apiKey = None, io_serviceName = Some (js ''app'')\<rparr>"
        "\<lambda>c. if c = Start then None else Some SyntaxError"]
  by (simp add: Let_def split_beta instrument_def instrumentWithFactory_def)

end
