(* ===== verification/Diff.thy ===== *)
theory Diff
  imports JsNumber
begin

text \<open>
  \<open>ui/src/utils/diff.ts\<close>: the line diff of two prompt templates. \<open>fill\<close> is the table built by the
  two nested loops, \<open>backtrack\<close> the \<open>while\<close> loop that reads the diff off it. The specification is the
  length of a longest common subsequence, over all common subsequences.
\<close>

datatype DiffLine = Added jsstring | Removed jsstring | Unchanged jsstring | Header jsstring

section \<open>The table\<close>

type_synonym table = "nat list list"

definition cell :: "jsstring list \<Rightarrow> jsstring list \<Rightarrow> nat \<Rightarrow> nat \<Rightarrow> table \<Rightarrow> nat" where
  "cell oldLines newLines i j dp =
     (if oldLines ! (i - 1) = newLines ! (j - 1) then dp ! (i - 1) ! (j - 1) + 1
      else max (dp ! (i - 1) ! j) (dp ! i ! (j - 1)))"

definition fill_row :: "jsstring list \<Rightarrow> jsstring list \<Rightarrow> nat \<Rightarrow> table \<Rightarrow> table" where
  "fill_row oldLines newLines i dp =
     fold (\<lambda>j dp. dp[i := (dp ! i)[j := cell oldLines newLines i j dp]])
          [1..<length newLines + 1] dp"

definition fill :: "jsstring list \<Rightarrow> jsstring list \<Rightarrow> table" where
  "fill oldLines newLines =
     fold (fill_row oldLines newLines) [1..<length oldLines + 1]
       (replicate (length oldLines + 1) (replicate (length newLines + 1) 0))"

section \<open>Backtracking\<close>

function backtrack ::
    "jsstring list \<Rightarrow> jsstring list \<Rightarrow> table \<Rightarrow> nat \<Rightarrow> nat \<Rightarrow> DiffLine list \<Rightarrow> DiffLine list" where
  "backtrack oldLines newLines dp i j stack =
     (if i = 0 \<and> j = 0 then stack
      else if 0 < i \<and> 0 < j \<and> oldLines ! (i - 1) = newLines ! (j - 1)
        then backtrack oldLines newLines dp (i - 1) (j - 1) (stack @ [Unchanged (oldLines ! (i - 1))])
      else if 0 < j \<and> (i = 0 \<or> dp ! (i - 1) ! j \<le> dp ! i ! (j - 1))
        then backtrack oldLines newLines dp i (j - 1) (stack @ [Added (newLines ! (j - 1))])
      else backtrack oldLines newLines dp (i - 1) j (stack @ [Removed (oldLines ! (i - 1))]))"
  by auto
termination
  by (relation "measure (\<lambda>(_, _, _, i, j, _). i + j)") auto

declare backtrack.simps [simp del]

definition diff_header :: "jsstring \<Rightarrow> jsstring \<Rightarrow> jsstring" where
  "diff_header oldText newText =
     js ''v'' @ (if oldText \<noteq> [] then js ''old'' else js ''(empty)'') @ js '' vs v'' @
     (if newText \<noteq> [] then js ''new'' else js ''(empty)'')"

definition diffText :: "jsstring \<Rightarrow> jsstring \<Rightarrow> DiffLine list" where
  "diffText oldText newText =
     (let oldLines = split_unit 0x0A oldText; newLines = split_unit 0x0A newText;
          stack = backtrack oldLines newLines (fill oldLines newLines)
                    (length oldLines) (length newLines) []
      in Header (diff_header oldText newText) # rev stack)"

section \<open>The table holds common-subsequence lengths\<close>

text \<open>The specification of a table entry: the recurrence on prefix lengths.\<close>

fun lcs :: "'a list \<Rightarrow> 'a list \<Rightarrow> nat \<Rightarrow> nat \<Rightarrow> nat" where
  "lcs a b 0 j = 0"
| "lcs a b (Suc i) 0 = 0"
| "lcs a b (Suc i) (Suc j) =
     (if a ! i = b ! j then lcs a b i j + 1 else max (lcs a b i (Suc j)) (lcs a b (Suc i) j))"

definition row_done :: "jsstring list \<Rightarrow> jsstring list \<Rightarrow> nat \<Rightarrow> nat \<Rightarrow> table \<Rightarrow> bool" where
  "row_done a b i j dp \<longleftrightarrow>
     length dp = length a + 1 \<and> (\<forall>r \<in> set dp. length r = length b + 1) \<and>
     (\<forall>i' \<le> length a. dp ! i' ! 0 = 0) \<and>
     (\<forall>i' < i. \<forall>j' \<le> length b. dp ! i' ! j' = lcs a b i' j') \<and>
     (i \<le> length a \<longrightarrow> (\<forall>j' < j. dp ! i ! j' = lcs a b i j'))"

lemma lcs_0 [simp]: "lcs a b i 0 = 0"
  by (cases i) auto

lemma row_done_cell:
  assumes "row_done a b (Suc i) (Suc j) dp" and "i < length a" "j < length b"
  shows "row_done a b (Suc i) (Suc (Suc j)) (dp[Suc i := (dp ! Suc i)[Suc j := cell a b (Suc i) (Suc j) dp]])"
proof -
  have cell: "cell a b (Suc i) (Suc j) dp = lcs a b (Suc i) (Suc j)"
    using assms by (simp add: cell_def row_done_def)
  let ?x = "cell a b (Suc i) (Suc j) dp"
  let ?dp = "dp[Suc i := (dp ! Suc i)[Suc j := ?x]]"
  have dims: "Suc i < length dp" "length (dp ! Suc i) = length b + 1"
    using assms by (auto simp: row_done_def)
  have acc: "?dp ! r ! c = (if r = Suc i \<and> c = Suc j then ?x else dp ! r ! c)" for r c
    using dims assms(3) by (cases "r = Suc i"; cases "c = Suc j") auto
  have "length ?dp = length a + 1" "\<forall>r \<in> set ?dp. length r = length b + 1"
    using assms(1) dims by (auto simp: row_done_def dest!: set_update_subset_insert [THEN subsetD])
  then show ?thesis
    using assms(1) unfolding row_done_def
    by (auto simp: acc [unfolded cell] cell less_Suc_eq simp del: lcs.simps(3))
qed

lemma fill_row_done:
  assumes "row_done a b (Suc i) 1 dp" and "i < length a"
  shows "row_done a b (Suc (Suc i)) 1 (fill_row a b (Suc i) dp)"
proof -
  have "k \<le> length b \<Longrightarrow> row_done a b (Suc i) (Suc k)
      (fold (\<lambda>j dp. dp[Suc i := (dp ! Suc i)[j := cell a b (Suc i) j dp]]) [1..<k + 1] dp)" for k
  proof (induction k)
    case (Suc k)
    then show ?case using row_done_cell [of a b i k] assms(2) by simp
  qed (use assms in simp)
  from this [of "length b"] assms(2) show ?thesis
    by (auto simp: row_done_def fill_row_def less_Suc_eq_le le_Suc_eq)
qed

lemma fill_lcs:
  assumes "i \<le> length a" and "j \<le> length b"
  shows "fill a b ! i ! j = lcs a b i j"
proof -
  let ?z = "replicate (length a + 1) (replicate (length b + 1) (0::nat))"
  have "k \<le> length a \<Longrightarrow> row_done a b (Suc k) 1 (fold (fill_row a b) [1..<k + 1] ?z)" for k
  proof (induction k)
    case 0
    show ?case by (auto simp: row_done_def Suc_le_eq simp del: replicate_Suc)
  next
    case (Suc k)
    then show ?case using fill_row_done [of a b k] by simp
  qed
  from this [of "length a"] assms show ?thesis
    by (simp add: fill_def row_done_def)
qed

text \<open>\<open>lcs\<close> bounds every common subsequence.\<close>

lemma subseq_snoc:
  assumes "subseq (s @ [x]) (xs @ [y])"
  shows "subseq (s @ [x]) xs \<or> x = y \<and> subseq s xs"
proof -
  obtain u v where "s @ [x] = u @ v" "subseq u xs" "subseq v [y]"
    using assms by (auto simp: subseq_append_iff)
  then show ?thesis
  proof (cases v rule: rev_cases)
    case (snoc ys z)
    with \<open>subseq v [y]\<close> have "ys = []"
      using not_subseq_length [of "[y]" "ys @ [z]"] by (cases ys) auto
    with \<open>subseq v [y]\<close> snoc have "z = y" by (simp split: if_splits)
    with \<open>ys = []\<close> snoc \<open>s @ [x] = u @ v\<close> \<open>subseq u xs\<close> show ?thesis by simp
  qed (auto)
qed

lemma lcs_upper:
  assumes "subseq s (take i a)" and "subseq s (take j b)" and "i \<le> length a" and "j \<le> length b"
  shows "length s \<le> lcs a b i j"
  using assms
proof (induction a b i j arbitrary: s rule: lcs.induct)
  case (3 a b i j)
  show ?case
  proof (cases s rule: rev_cases)
    case (snoc s' x)
    have sub: "subseq (s' @ [x]) (take i a @ [a ! i])" "subseq (s' @ [x]) (take j b @ [b ! j])"
      using 3 snoc by (auto simp: take_Suc_conv_app_nth)
    have shrink: "subseq (s' @ [x]) t \<Longrightarrow> subseq s' t" for t
      by (meson subseq_order.order_trans subseq_rev_drop_many subseq_order.order_refl)
    show ?thesis
    proof (cases "a ! i = b ! j")
      case True
      have "length s' \<le> lcs a b i j"
        using 3 True sub shrink by (auto dest!: subseq_snoc)
      with True snoc show ?thesis by simp
    next
      case False
      have len: "Suc i \<le> length a" "Suc j \<le> length b" "i \<le> length a" "j \<le> length b" using 3 by auto
      have "subseq s (take i a) \<or> subseq s (take j b)"
        using subseq_snoc [OF sub(1)] subseq_snoc [OF sub(2)] False snoc by auto
      then have "length s \<le> lcs a b i (Suc j) \<or> length s \<le> lcs a b (Suc i) j"
        using 3(2,3) [OF False _ _] 3(4,5) len by blast
      with False show ?thesis by auto
    qed
  qed simp
qed auto

section \<open>What the diff says\<close>

text \<open>The lines a diff entry contributes to the old and to the new text.\<close>

fun old_line :: "DiffLine \<Rightarrow> jsstring option" where
  "old_line (Removed t) = Some t" | "old_line (Unchanged t) = Some t" | "old_line _ = None"

fun new_line :: "DiffLine \<Rightarrow> jsstring option" where
  "new_line (Added t) = Some t" | "new_line (Unchanged t) = Some t" | "new_line _ = None"

fun kept_line :: "DiffLine \<Rightarrow> jsstring option" where
  "kept_line (Unchanged t) = Some t" | "kept_line _ = None"

definition lines_of :: "(DiffLine \<Rightarrow> jsstring option) \<Rightarrow> DiffLine list \<Rightarrow> jsstring list" where
  "lines_of f d = List.map_filter f d"

lemma lines_of_simps [simp]:
  "lines_of f [] = []"
  "lines_of f (x # d) = (case f x of Some t \<Rightarrow> t # lines_of f d | None \<Rightarrow> lines_of f d)"
  "lines_of f (d @ d') = lines_of f d @ lines_of f d'"
  by (auto simp: lines_of_def List.map_filter_def split: option.split)

lemma length_lines_of_rev: "length (lines_of f (rev d)) = length (lines_of f d)"
  by (induction d) (auto split: option.split)

lemma backtrack_old:
  "i \<le> length a \<Longrightarrow>
   lines_of old_line (rev (backtrack a b dp i j st)) = take i a @ lines_of old_line (rev st)"
proof (induction a b dp i j st rule: backtrack.induct)
  case (1 a b dp i j st)
  have "0 < i \<Longrightarrow> take i a = take (i - 1) a @ [a ! (i - 1)]"
    using 1(4) take_Suc_conv_app_nth [of "i - 1" a] by simp
  then show ?case
    using 1 by (subst backtrack.simps) auto
qed

lemma backtrack_new:
  "j \<le> length b \<Longrightarrow>
   lines_of new_line (rev (backtrack a b dp i j st)) = take j b @ lines_of new_line (rev st)"
proof (induction a b dp i j st rule: backtrack.induct)
  case (1 a b dp i j st)
  have "0 < j \<Longrightarrow> take j b = take (j - 1) b @ [b ! (j - 1)]"
    using 1(4) take_Suc_conv_app_nth [of "j - 1" b] by simp
  then show ?case
    using 1 by (subst backtrack.simps) auto
qed

lemma backtrack_kept:
  assumes "dp = fill a b"
  shows "i \<le> length a \<Longrightarrow> j \<le> length b \<Longrightarrow>
    length (lines_of kept_line (rev (backtrack a b dp i j st))) =
      lcs a b i j + length (lines_of kept_line st)"
  using assms
proof (induction a b dp i j st rule: backtrack.induct)
  case (1 a b dp i j st)
  show ?case
  proof (cases "0 < i \<and> 0 < j")
    case True
    then obtain i' j' where ij: "i = Suc i'" "j = Suc j'" by (meson gr0_implies_Suc)
    then have dp: "dp ! i' ! j = lcs a b i' j" "dp ! i ! j' = lcs a b i j'"
      using 1 by (auto intro!: fill_lcs)
    show ?thesis
      using 1 dp ij by (subst backtrack.simps) (auto simp: max_def)
  next
    case False
    then show ?thesis
      using 1 by (subst backtrack.simps) (cases i; auto simp: length_lines_of_rev)
  qed
qed

lemma lines_of_kept_subseq:
  "subseq (lines_of kept_line d) (lines_of old_line d)"
  "subseq (lines_of kept_line d) (lines_of new_line d)"
proof -
  have "subseq (lines_of kept_line d) (lines_of old_line d) \<and>
      subseq (lines_of kept_line d) (lines_of new_line d)"
  proof (induction d)
    case (Cons x d)
    then show ?case by (cases x) auto
  qed simp
  then show "subseq (lines_of kept_line d) (lines_of old_line d)"
    "subseq (lines_of kept_line d) (lines_of new_line d)" by auto
qed

text \<open>The lines of the two texts and the diff without its header.\<close>

abbreviation text_lines :: "jsstring \<Rightarrow> jsstring list" where
  "text_lines s \<equiv> split_unit 0x0A s"

lemma diffText_lines:
  "lines_of old_line (diffText s t) = text_lines s"
  "lines_of new_line (diffText s t) = text_lines t"
  "length (lines_of kept_line (diffText s t)) =
     lcs (text_lines s) (text_lines t) (length (text_lines s)) (length (text_lines t))"
  by (simp_all add: diffText_def Let_def backtrack_old backtrack_new backtrack_kept)

text \<open>
  C38: both texts can be read off their diff: the removed and unchanged lines are the old text, the added
  and unchanged lines the new one, in order and up to the last character.
\<close>

theorem diff_reconstructs:
  "join [0x0A] (lines_of old_line (diffText oldText newText)) = oldText \<and>
   join [0x0A] (lines_of new_line (diffText oldText newText)) = newText"
  by (simp add: diffText_lines)

text \<open>
  C3: the diff is minimal: its unchanged lines are a common subsequence of the two texts' lines, and no
  common subsequence is longer.
\<close>

theorem diff_minimal:
  assumes "subseq s (text_lines oldText)" and "subseq s (text_lines newText)"
  shows "let kept = lines_of kept_line (diffText oldText newText)
    in subseq kept (text_lines oldText) \<and> subseq kept (text_lines newText) \<and> length s \<le> length kept"
  using assms lines_of_kept_subseq [of "diffText oldText newText"]
    lcs_upper [of s "length (text_lines oldText)" "text_lines oldText"
      "length (text_lines newText)" "text_lines newText"]
  by (simp add: diffText_lines Let_def)

lemma diff_minimal_witness:
  "1 \<le> length (lines_of kept_line (diffText [0x61, 0x0A, 0x62] [0x62]))"
  using diff_minimal [of "[[0x62]]" "[0x61, 0x0A, 0x62]" "[0x62]"] by (simp add: Let_def)

lemma all_kept:
  "list_all (\<lambda>l. kept_line l = None \<longrightarrow> old_line l = None \<and> new_line l = None) d \<longleftrightarrow>
   length (lines_of kept_line d) = length (lines_of old_line d) \<and>
   length (lines_of kept_line d) = length (lines_of new_line d)"
proof (induction d)
  case (Cons x d)
  have "length (lines_of kept_line d) \<le> length (lines_of old_line d)"
    "length (lines_of kept_line d) \<le> length (lines_of new_line d)"
    using lines_of_kept_subseq [of d] by (auto dest: list_emb_length)
  with Cons show ?case by (cases x) auto
qed simp

text \<open>
  A diff shows no added and no removed line exactly when the two texts are equal.
\<close>

theorem diff_clean_iff:
  "(\<exists>t. Added t \<in> set (diffText s s') \<or> Removed t \<in> set (diffText s s')) \<longleftrightarrow> s \<noteq> s'"
proof -
  have eq: "(\<nexists>t. Added t \<in> set d \<or> Removed t \<in> set d) \<longleftrightarrow>
      list_all (\<lambda>l. kept_line l = None \<longrightarrow> old_line l = None \<and> new_line l = None) d" for d
  proof (induction d)
    case (Cons x d)
    then show ?case by (cases x) auto
  qed simp
  let ?d = "diffText s s'" and ?k = "lines_of kept_line (diffText s s')"
  have sub: "subseq ?k (text_lines s)" "subseq ?k (text_lines s')"
    using lines_of_kept_subseq [of ?d] by (simp_all add: diffText_lines)
  have "length ?k = length (text_lines s) \<and> length ?k = length (text_lines s') \<longleftrightarrow> s = s'"
  proof
    assume "length ?k = length (text_lines s) \<and> length ?k = length (text_lines s')"
    with sub have "text_lines s = text_lines s'"
      using subseq_same_length by metis
    then show "s = s'" by (metis join_split)
  next
    assume "s = s'"
    then show "length ?k = length (text_lines s) \<and> length ?k = length (text_lines s')"
      using diff_minimal [of "text_lines s" s s'] sub by (auto simp: Let_def dest: list_emb_length)
  qed
  with eq [of ?d] all_kept [of ?d] show ?thesis by (simp add: diffText_lines) blast
qed

section \<open>Model configuration\<close>

text \<open>A field of the comparison table: a string or a number.\<close>

datatype cfg_value = CText jsstring | CNum jsnum

record PromptConfig =
  pc_model :: "jsstring option"
  pc_temperature :: "jsnum option"
  pc_max_tokens :: "jsnum option"

record ModelConfigDiff =
  mcd_field :: string
  mcd_old :: cfg_value
  mcd_new :: cfg_value

text \<open>\<open>===\<close>\<close>

fun cfg_same :: "cfg_value \<Rightarrow> cfg_value \<Rightarrow> bool" where
  "cfg_same (CText a) (CText b) = (a = b)"
| "cfg_same (CNum a) (CNum b) = num_eq a b"
| "cfg_same _ _ = False"

text \<open>The values shown for a version, with the placeholder of \<open>??\<close>; \<open>None\<close> is no version.\<close>

definition cfg_fields :: "PromptConfig option \<Rightarrow> (string \<times> cfg_value) list" where
  "cfg_fields c =
     (let shown = (\<lambda>v. case v of Some x \<Rightarrow> x | None \<Rightarrow> CText em_dash)
      in [(''model'', shown (map_option CText (Option.bind c pc_model))),
          (''temperature'', shown (map_option CNum (Option.bind c pc_temperature))),
          (''max_tokens'', shown (map_option CNum (Option.bind c pc_max_tokens)))])"

definition diffModelConfig :: "PromptConfig option \<Rightarrow> PromptConfig option \<Rightarrow> ModelConfigDiff list" where
  "diffModelConfig oldConfig newConfig =
     map (\<lambda>((k, x), (_, y)). \<lparr>mcd_field = k, mcd_old = x, mcd_new = y\<rparr>)
       (filter (\<lambda>((_, x), (_, y)). \<not> cfg_same x y) (zip (cfg_fields oldConfig) (cfg_fields newConfig)))"

text \<open>
  The configuration table lists exactly the fields whose displayed values differ, each with both
  values, each at most once; without a previous version it lists the fields the new one sets.
\<close>

theorem diffModelConfig_spec:
  "(r \<in> set (diffModelConfig c c') \<longleftrightarrow>
      map_of (cfg_fields c) (mcd_field r) = Some (mcd_old r) \<and>
      map_of (cfg_fields c') (mcd_field r) = Some (mcd_new r) \<and> \<not> cfg_same (mcd_old r) (mcd_new r)) \<and>
   distinct (map mcd_field (diffModelConfig c c')) \<and>
   diffModelConfig None None = [] \<and>
   (''temperature'' \<in> mcd_field ` set (diffModelConfig None (Some v)) \<longleftrightarrow> pc_temperature v \<noteq> None)"
proof (intro conjI)
  obtain x y z where c: "cfg_fields c = [(''model'', x), (''temperature'', y), (''max_tokens'', z)]"
    by (simp add: cfg_fields_def Let_def)
  obtain x' y' z' where c': "cfg_fields c' = [(''model'', x'), (''temperature'', y'), (''max_tokens'', z')]"
    by (simp add: cfg_fields_def Let_def)
  show "r \<in> set (diffModelConfig c c') \<longleftrightarrow>
      map_of (cfg_fields c) (mcd_field r) = Some (mcd_old r) \<and>
      map_of (cfg_fields c') (mcd_field r) = Some (mcd_new r) \<and> \<not> cfg_same (mcd_old r) (mcd_new r)"
    by (cases r) (auto simp: diffModelConfig_def c c')
  show "distinct (map mcd_field (diffModelConfig c c'))"
    by (auto simp: diffModelConfig_def c c')
qed (auto simp: diffModelConfig_def cfg_fields_def Let_def split: option.split)

end
