(* ===== verification/JsDate.thy ===== *)
theory JsDate
  imports Json
begin

text \<open>
  JavaScript dates: time values in milliseconds since the epoch (\<open>None\<close> is the \<open>NaN\<close> of an invalid
  date), the calendar of the language standard, \<open>toISOString\<close>, and \<open>Date.parse\<close> on the date formats the
  standard fixes. What the standard leaves to the runtime (the time zone, other formats, the
  locale) is a field of \<open>runtime\<close>.
\<close>

type_synonym time_value = "int option"

section \<open>Calendar\<close>

definition day_from_year :: "int \<Rightarrow> int" where
  "day_from_year y =
     365 * (y - 1970) + (y - 1969) div 4 - (y - 1901) div 100 + (y - 1601) div 400"

definition is_leap :: "int \<Rightarrow> bool" where
  "is_leap y \<longleftrightarrow> y mod 4 = 0 \<and> (y mod 100 \<noteq> 0 \<or> y mod 400 = 0)"

text \<open>The year whose first day is the last one not after \<open>d\<close>.\<close>

definition year_from_day :: "int \<Rightarrow> int" where
  "year_from_day d =
     (let y = 1970 + d * 400 div 146097
      in if d < day_from_year y then y - 1 else if day_from_year (y + 1) \<le> d then y + 1 else y)"

text \<open>Days before month \<open>m\<close> (0 to 11).\<close>

definition days_before :: "bool \<Rightarrow> nat \<Rightarrow> int" where
  "days_before leap m =
     [0, 31, 59, 90, 120, 151, 181, 212, 243, 273, 304, 334, 365] ! m + (if leap \<and> 2 \<le> m then 1 else 0)"

definition month_from_doy :: "bool \<Rightarrow> int \<Rightarrow> nat" where
  "month_from_doy leap doy = length (takeWhile (\<lambda>m. days_before leap m \<le> doy) [1..<12])"

definition make_day :: "int \<Rightarrow> nat \<Rightarrow> int \<Rightarrow> int" where
  "make_day y m dt = day_from_year y + days_before (is_leap y) m + dt - 1"

record calendar_date =
  cd_year :: int
  cd_month :: nat
  cd_date :: int

definition civil_from_day :: "int \<Rightarrow> calendar_date" where
  "civil_from_day d =
     (let y = year_from_day d; doy = d - day_from_year y; m = month_from_doy (is_leap y) doy
      in \<lparr>cd_year = y, cd_month = m, cd_date = doy - days_before (is_leap y) m + 1\<rparr>)"

definition year_len :: "int \<Rightarrow> int" where
  "year_len y = (if is_leap y then 366 else 365)"

lemma div_succ:
  assumes "0 < (k::int)"
  shows "(a + 1) div k = a div k + of_bool ((a + 1) mod k = 0)"
proof (cases "(a + 1) mod k = 0")
  case True
  then obtain c where c: "a + 1 = k * c" by (metis dvdE dvd_eq_mod_eq_0)
  then have "a = k * (c - 1) + (k - 1)" by (simp add: algebra_simps)
  then have "a div k = c - 1" using int_div_pos_eq assms by simp
  with True c assms show ?thesis by simp
next
  case False
  have "a mod k + 1 \<noteq> k"
    using False by (metis mod_add_left_eq mod_self)
  then have "(a + 1) div k = a div k"
    using int_div_pos_eq [of "a + 1" k "a div k" "a mod k + 1"] pos_mod_bound [OF assms, of a]
      pos_mod_sign [OF assms, of a] by (simp add: algebra_simps)
  with False show ?thesis by simp
qed

lemma day_from_year_Suc: "day_from_year (y + 1) = day_from_year y + year_len y"
proof -
  have m: "(y - 1968) mod 4 = y mod 4" "(y - 1900) mod 100 = y mod 100" "(y - 1600) mod 400 = y mod 400"
    using mod_mult_self2 [of y 4 "-492"] mod_mult_self2 [of y 100 "-19"] mod_mult_self2 [of y 400 "-4"]
    by simp_all
  have pred: "a div k = (a - 1) div k + of_bool (a mod k = 0)" if "0 < k" for a k :: int
    using div_succ [OF that, of "a - 1"] by simp
  have p: "y - 1968 - 1 = y - 1969" "y - 1900 - 1 = y - 1901" "y - 1600 - 1 = y - 1601" by simp_all
  have d: "(y - 1968) div 4 = (y - 1969) div 4 + of_bool (y mod 4 = 0)"
    "(y - 1900) div 100 = (y - 1901) div 100 + of_bool (y mod 100 = 0)"
    "(y - 1600) div 400 = (y - 1601) div 400 + of_bool (y mod 400 = 0)"
    using pred [of 4 "y - 1968", OF zero_less_numeral] pred [of 100 "y - 1900", OF zero_less_numeral]
      pred [of 400 "y - 1600", OF zero_less_numeral]
    unfolding m p by blast+
  have imp: "y mod 400 = 0 \<Longrightarrow> y mod 100 = 0" "y mod 100 = 0 \<Longrightarrow> y mod 4 = 0"
    using dvd_trans [of 100 400 y] dvd_trans [of 4 100 y]
    by (simp_all only: mod_eq_0_iff_dvd) simp_all
  have e: "y + 1 - 1969 = y - 1968" "y + 1 - 1901 = y - 1900" "y + 1 - 1601 = y - 1600" by simp_all
  have gen: "365 * (y + 1 - 1970) + (A + of_bool p) - (B + of_bool q) + (C + of_bool r) =
      365 * (y - 1970) + A - B + C + (if p \<and> (\<not> q \<or> r) then 366 else 365)"
    if "r \<Longrightarrow> q" "q \<Longrightarrow> p" for A B C :: int and p q r
    using that by (cases p; cases q; cases r) auto
  show ?thesis
    unfolding day_from_year_def year_len_def is_leap_def e d by (rule gen [OF imp])
qed

lemma year_from_day_bounds:
  "day_from_year (year_from_day d) \<le> d \<and> d < day_from_year (year_from_day d + 1)"
proof -
  define q where "q = d * 400 div 146097"
  define y where "y = 1970 + q"
  have q: "146097 * q \<le> 400 * d" "400 * d < 146097 * q + 146097"
    using div_bounds [of 146097 "d * 400"] by (simp_all add: q_def mult.commute)
  have dy: "400 * day_from_year y \<le> 146097 * (y - 1970) + 1200"
    "146097 * (y - 1970) - 1200 \<le> 400 * day_from_year y" for y
  proof -
    note b = div_bounds [of 4 "y - 1969", OF zero_less_numeral]
      div_bounds [of 100 "y - 1901", OF zero_less_numeral]
      div_bounds [of 400 "y - 1601", OF zero_less_numeral]
    have gen: "400 * (365 * (y - 1970) + p - q + r) \<le> 146097 * (y - 1970) + 1200 \<and>
        146097 * (y - 1970) - 1200 \<le> 400 * (365 * (y - 1970) + p - q + r)"
      if "4 * p \<le> y - 1969" "y - 1969 < 4 * p + 4" "100 * q \<le> y - 1901" "y - 1901 < 100 * q + 100"
        "400 * r \<le> y - 1601" "y - 1601 < 400 * r + 400" for p q r
      using that by (simp add: algebra_simps)
    show "400 * day_from_year y \<le> 146097 * (y - 1970) + 1200"
      "146097 * (y - 1970) - 1200 \<le> 400 * day_from_year y"
      using gen [OF b] unfolding day_from_year_def by blast+
  qed
  have "y - 1 - 1970 = q - 1" "y + 1 + 1 - 1970 = q + 2" by (simp_all add: y_def)
  with dy(1) [of "y - 1"] dy(2) [of "y + 1 + 1"]
  have "400 * day_from_year (y - 1) \<le> 146097 * (q - 1) + 1200"
    "146097 * (q + 2) - 1200 \<le> 400 * day_from_year (y + 1 + 1)" by simp_all
  with q have b: "day_from_year (y - 1) \<le> d" "d < day_from_year (y + 1 + 1)"
    by (simp_all add: algebra_simps)
  have "year_from_day d =
      (if d < day_from_year y then y - 1 else if day_from_year (y + 1) \<le> d then y + 1 else y)"
    by (simp only: year_from_day_def Let_def q_def [symmetric] y_def [symmetric])
  with b show ?thesis by simp
qed

lemma month_from_doy_bounds:
  assumes "0 \<le> doy" "doy < 365 + of_bool leap"
  shows "month_from_doy leap doy < 12"
    "days_before leap (month_from_doy leap doy) \<le> doy"
    "doy < days_before leap (month_from_doy leap doy) + 31"
proof -
  have "month_from_doy leap doy < 12 \<and> days_before leap (month_from_doy leap doy) \<le> doy \<and>
      doy < days_before leap (month_from_doy leap doy) + 31"
    using assms by (cases leap) (auto simp: month_from_doy_def days_before_def upt_rec numeral_eq_Suc)
  then show "month_from_doy leap doy < 12"
    "days_before leap (month_from_doy leap doy) \<le> doy"
    "doy < days_before leap (month_from_doy leap doy) + 31" by auto
qed

lemma civil_from_day_inverse:
  "make_day (cd_year (civil_from_day d)) (cd_month (civil_from_day d)) (cd_date (civil_from_day d)) = d"
  by (simp add: make_day_def civil_from_day_def Let_def)

lemma civil_from_day_range:
  "cd_month (civil_from_day d) < 12 \<and> 1 \<le> cd_date (civil_from_day d) \<and> cd_date (civil_from_day d) \<le> 31"
proof -
  let ?y = "year_from_day d"
  have "0 \<le> d - day_from_year ?y" "d - day_from_year ?y < 365 + of_bool (is_leap ?y)"
    using year_from_day_bounds [of d] by (auto simp: day_from_year_Suc year_len_def)
  from month_from_doy_bounds [OF this] show ?thesis
    by (simp add: civil_from_day_def Let_def)
qed

section \<open>Texts\<close>

definition pad2 :: "nat \<Rightarrow> jsstring" where "pad2 n = pad_start 2 0x30 (dec_nat n)"

definition ms_per_day :: int where "ms_per_day = 86400000"

definition iso_year :: "int \<Rightarrow> jsstring" where
  "iso_year y =
     (if 0 \<le> y \<and> y \<le> 9999 then pad_start 4 0x30 (dec_nat (nat y))
      else (if y < 0 then js ''-'' else js ''+'') @ pad_start 6 0x30 (dec_nat (nat \<bar>y\<bar>)))"

definition iso_text :: "int \<Rightarrow> jsstring" where
  "iso_text t =
     (let c = civil_from_day (t div ms_per_day); tod = nat (t mod ms_per_day)
      in iso_year (cd_year c) @ js ''-'' @ pad2 (cd_month c + 1) @ js ''-'' @ pad2 (nat (cd_date c)) @
         js ''T'' @ pad2 (tod div 3600000) @ js '':'' @ pad2 (tod div 60000 mod 60) @ js '':'' @
         pad2 (tod div 1000 mod 60) @ js ''.'' @ pad_start 3 0x30 (dec_nat (tod mod 1000)) @ js ''Z'')"

definition toISOString :: "time_value \<Rightarrow> (js_error, jsstring) result" where
  "toISOString tv = (case tv of None \<Rightarrow> Inl (RangeError ''Invalid time value'') | Some t \<Rightarrow> Inr (iso_text t))"

text \<open>\<open>n\<close> digits, or one fixed unit, at the front.\<close>

definition take_digits :: "nat \<Rightarrow> jsstring \<Rightarrow> (nat \<times> jsstring) option" where
  "take_digits n s =
     (if length s < n \<or> \<not> list_all is_digit_unit (take n s) then None
      else Some (nat_of_digits (take n s), drop n s))"

definition take_lit :: "unit16 \<Rightarrow> jsstring \<Rightarrow> jsstring option" where
  "take_lit u s = (case s of v # r \<Rightarrow> if v = u then Some r else None | [] \<Rightarrow> None)"

definition days_in_month :: "int \<Rightarrow> nat \<Rightarrow> int" where
  "days_in_month y m = days_before (is_leap y) (m + 1) - days_before (is_leap y) m"

text \<open>\<open>YYYY-MM-DD\<close>, as a day number.\<close>

definition parse_date :: "jsstring \<Rightarrow> (int \<times> jsstring) option" where
  "parse_date s =
     Option.bind (take_digits 4 s) (\<lambda>(y, s).
     Option.bind (take_lit 0x2D s) (\<lambda>s.
     Option.bind (take_digits 2 s) (\<lambda>(m, s).
     Option.bind (take_lit 0x2D s) (\<lambda>s.
     Option.bind (take_digits 2 s) (\<lambda>(d, s).
       if 1 \<le> m \<and> m \<le> 12 \<and> 1 \<le> d \<and> int d \<le> days_in_month (int y) (m - 1)
       then Some (make_day (int y) (m - 1) (int d), s) else None)))))"

text \<open>\<open>HH:mm\<close>, in minutes; \<open>:ss\<close> and \<open>.sss\<close>, both optional, in milliseconds.\<close>

definition parse_hm :: "jsstring \<Rightarrow> (nat \<times> jsstring) option" where
  "parse_hm s =
     Option.bind (take_digits 2 s) (\<lambda>(h, s).
     Option.bind (take_lit 0x3A s) (\<lambda>s.
     Option.bind (take_digits 2 s) (\<lambda>(m, s).
       if h \<le> 23 \<and> m \<le> 59 then Some (60 * h + m, s) else None)))"

definition parse_sec :: "jsstring \<Rightarrow> (nat \<times> jsstring) option" where
  "parse_sec s =
     (case take_lit 0x3A s of
        None \<Rightarrow> Some (0, s)
      | Some s \<Rightarrow>
          Option.bind (take_digits 2 s) (\<lambda>(sec, s).
            if 59 < sec then None
            else case take_lit 0x2E s of
                   None \<Rightarrow> Some (1000 * sec, s)
                 | Some s \<Rightarrow> Option.bind (take_digits 3 s) (\<lambda>(ms, s). Some (1000 * sec + ms, s))))"

text \<open>\<open>Z\<close> or an offset, in minutes, up to the end of the text.\<close>

definition parse_zone :: "jsstring \<Rightarrow> int option" where
  "parse_zone s =
     (if s = js ''Z'' then Some 0
      else case s of
             u # r \<Rightarrow>
               if u = 0x2B \<or> u = 0x2D
               then Option.bind (parse_hm r) (\<lambda>(m, r).
                 if r = [] then Some (if u = 0x2B then int m else - int m) else None)
               else None
           | [] \<Rightarrow> None)"

text \<open>The formats of the standard whose value does not depend on the runtime.\<close>

definition iso_parse :: "jsstring \<Rightarrow> int option" where
  "iso_parse s =
     Option.bind (parse_date s) (\<lambda>(d, s).
       if s = [] then Some (d * ms_per_day)
       else Option.bind (take_lit 0x54 s) (\<lambda>s.
         Option.bind (parse_hm s) (\<lambda>(hm, s).
         Option.bind (parse_sec s) (\<lambda>(ms, s).
         Option.bind (parse_zone s) (\<lambda>z.
           Some (d * ms_per_day + 60000 * int hm + int ms - 60000 * z))))))"

section \<open>What the runtime decides\<close>

datatype locale_method = ToLocaleString | ToLocaleTimeString | ToLocaleDateString

record runtime =
  rt_date_parse :: "jsstring \<Rightarrow> time_value"
  rt_tz_offset :: "int \<Rightarrow> int"
  rt_locale :: "locale_method \<Rightarrow> (string \<times> string) list \<Rightarrow> time_value \<Rightarrow> jsstring"
  rt_locale_number :: "jsnum \<Rightarrow> jsstring"

text \<open>\<open>new Date(s)\<close>, and \<open>getTime\<close> as a number.\<close>

definition date_parse :: "runtime \<Rightarrow> jsstring \<Rightarrow> time_value" where
  "date_parse rt s = (case iso_parse s of Some t \<Rightarrow> Some t | None \<Rightarrow> rt_date_parse rt s)"

definition getTime :: "time_value \<Rightarrow> jsnum" where
  "getTime tv = (case tv of Some t \<Rightarrow> num_of_int t | None \<Rightarrow> NaN)"

text \<open>Calendar fields in local time.\<close>

definition local_time :: "runtime \<Rightarrow> int \<Rightarrow> int" where
  "local_time rt t = t + rt_tz_offset rt t"

definition local_date :: "runtime \<Rightarrow> int \<Rightarrow> calendar_date" where
  "local_date rt t = civil_from_day (local_time rt t div ms_per_day)"

definition getFullYear :: "runtime \<Rightarrow> time_value \<Rightarrow> jsnum" where
  "getFullYear rt tv = (case tv of Some t \<Rightarrow> num_of_int (cd_year (local_date rt t)) | None \<Rightarrow> NaN)"

section \<open>Reading back an ISO text\<close>

lemma take_digits_pad:
  assumes "n < 10 ^ k" and "0 < k"
  shows "take_digits k (pad_start k 0x30 (dec_nat n) @ s) = Some (n, s)"
proof -
  have len: "length (radix_nat 10 m) \<le> j" if "m < 10 ^ j" "0 < j" for m j
    using that
  proof (induction j arbitrary: m)
    case (Suc j)
    show ?case
    proof (cases "m < 10")
      case False
      then have "0 < j" using Suc.prems by (cases j) auto
      with False Suc show ?thesis by (simp add: radix_nat_step less_mult_imp_div_less mult.commute)
    qed (simp add: radix_nat_less)
  qed simp
  have zeros: "nat_of_digits (replicate j 0x30 @ ds) = nat_of_digits ds" for j ds
    by (induction j) (simp_all add: nat_of_digits_def digit_value_def)
  let ?p = "pad_start k 0x30 (dec_nat n)"
  have "length ?p = k" using len [OF assms] by (simp add: length_pad_start dec_nat_def)
  moreover have "list_all is_digit_unit ?p"
    by (auto simp: pad_start_def list_all_iff is_digit_unit_def [of "0x30"] dest: dec_nat_digits split: if_splits)
  moreover have "nat_of_digits ?p = n" by (simp add: pad_start_def zeros)
  ultimately show ?thesis by (simp add: take_digits_def)
qed

lemma take_lit_simps [simp]:
  "take_lit 0x2D (js ''-'' @ s) = Some s" "take_lit 0x54 (js ''T'' @ s) = Some s"
  "take_lit 0x3A (js '':'' @ s) = Some s" "take_lit 0x2E (js ''.'' @ s) = Some s"
  by (simp_all add: take_lit_def js_def)

lemma days_before_mono_31: "m < 12 \<Longrightarrow> days_before l m + 28 \<le> days_before l (m + 1)"
  by (auto simp: days_before_def less_Suc_eq numeral_eq_Suc)

text \<open>
  \<open>Date.parse\<close> reads \<open>toISOString\<close> back, for the years of the four-digit format.
\<close>

lemma civil_date_in_month:
  "cd_date (civil_from_day d) \<le> days_in_month (cd_year (civil_from_day d)) (cd_month (civil_from_day d))"
proof -
  let ?y = "year_from_day d"
  have doy: "0 \<le> d - day_from_year ?y" "d - day_from_year ?y < 365 + of_bool (is_leap ?y)"
    using year_from_day_bounds [of d] by (auto simp: day_from_year_Suc year_len_def)
  have "doy < days_before l (month_from_doy l doy + 1)"
    if "0 \<le> doy" "doy < 365 + of_bool l" for doy l
    using that by (cases l) (auto simp: month_from_doy_def days_before_def upt_rec numeral_eq_Suc)
  from this [OF doy] show ?thesis
    by (simp add: civil_from_day_def days_in_month_def Let_def)
qed

lemma parse_date_civil:
  assumes "0 \<le> cd_year (civil_from_day d)" and "cd_year (civil_from_day d) \<le> 9999"
  shows "parse_date (iso_year (cd_year (civil_from_day d)) @ js ''-'' @ pad2 (cd_month (civil_from_day d) + 1) @
    js ''-'' @ pad2 (nat (cd_date (civil_from_day d))) @ s) = Some (d, s)"
proof -
  define c where "c = civil_from_day d"
  have c: "cd_month c < 12" "1 \<le> cd_date c" "cd_date c \<le> 31"
      "cd_date c \<le> days_in_month (cd_year c) (cd_month c)" "0 \<le> cd_year c" "cd_year c \<le> 9999"
    using civil_from_day_range civil_date_in_month assms by (simp_all add: c_def)
  have "make_day (cd_year c) (cd_month c) (cd_date c) = d"
    by (simp add: c_def civil_from_day_inverse)
  then show ?thesis
    using c unfolding c_def [symmetric]
    by (simp add: parse_date_def iso_year_def pad2_def take_digits_pad nat_less_iff le_nat_iff)
qed

lemma parse_hm_text:
  assumes "m < 1440"
  shows "parse_hm (pad2 (m div 60) @ js '':'' @ pad2 (m mod 60) @ s) = Some (m, s)"
proof -
  have "m div 60 \<le> 23" using assms by simp
  then show ?thesis by (simp add: parse_hm_def pad2_def take_digits_pad less_imp_le_nat)
qed

theorem iso_roundtrip:
  assumes "0 \<le> cd_year (civil_from_day (t div ms_per_day))"
    and "cd_year (civil_from_day (t div ms_per_day)) \<le> 9999"
  shows "iso_parse (iso_text t) = Some t"
proof -
  define c where "c = civil_from_day (t div ms_per_day)"
  define tod where "tod = nat (t mod ms_per_day)"
  have tod: "tod < 86400000" "int tod = t mod ms_per_day"
    by (simp_all add: tod_def ms_per_day_def nat_less_iff)
  have c: "cd_month c < 12" "1 \<le> cd_date c" "cd_date c \<le> 31"
      "cd_date c \<le> days_in_month (cd_year c) (cd_month c)" "0 \<le> cd_year c" "cd_year c \<le> 9999"
    using civil_from_day_range civil_date_in_month assms by (simp_all add: c_def)
  have day: "make_day (cd_year c) (cd_month c) (cd_date c) = t div ms_per_day"
    by (simp add: c_def civil_from_day_inverse)
  have hms: "60 * (tod div 3600000) + tod div 60000 mod 60 = tod div 60000"
    "1000 * (tod div 1000 mod 60) + tod mod 1000 = tod mod 60000"
    using div_mult2_eq [of tod 60000 60] mod_mult2_eq [of tod 1000 60] by simp_all
  have "tod div 3600000 \<le> 23" using tod(1) by simp
  have date: "parse_date (iso_year (cd_year c) @ js ''-'' @ pad2 (cd_month c + 1) @ js ''-'' @
      pad2 (nat (cd_date c)) @ s) = Some (t div ms_per_day, s)" for s
    using assms unfolding c_def by (rule parse_date_civil)
  have hm: "parse_hm (pad2 (tod div 3600000) @ js '':'' @ pad2 (tod div 60000 mod 60) @ s) =
      Some (tod div 60000, s)" for s
    using \<open>tod div 3600000 \<le> 23\<close> hms(1) by (simp add: parse_hm_def pad2_def take_digits_pad less_imp_le_nat)
  have sec: "parse_sec (js '':'' @ pad2 (tod div 1000 mod 60) @ js ''.'' @
      pad_start 3 0x30 (dec_nat (tod mod 1000)) @ s) = Some (tod mod 60000, s)" for s
    using hms(2) by (simp add: parse_sec_def pad2_def take_digits_pad not_less less_Suc_eq_le [symmetric])
  have "t = t div ms_per_day * ms_per_day + int tod" by (simp add: tod(2))
  also have "int tod = 60000 * int (tod div 60000) + int (tod mod 60000)"
    by (metis div_mult_mod_eq mult.commute of_nat_add of_nat_mult of_nat_numeral)
  finally have t: "t = t div ms_per_day * ms_per_day + 60000 * int (tod div 60000) + int (tod mod 60000)"
    by simp
  have "iso_parse (iso_text t) =
      Some (t div ms_per_day * ms_per_day + 60000 * int (tod div 60000) + int (tod mod 60000))"
    unfolding iso_parse_def iso_text_def c_def [symmetric] tod_def [symmetric] Let_def append_assoc date
    by (simp add: hm sec parse_zone_def)
  with t show ?thesis by simp
qed

end
