(* ===== verification/TimeRange.thy ===== *)
theory TimeRange
  imports JsDate
begin

text \<open>
  \<open>ui/src/utils/timeRange.ts\<close>: the presets of the header and the window a preset stands for. The
  current time is an argument.
\<close>

definition TIME_RANGE_MS :: "(string \<times> int) list" where
  "TIME_RANGE_MS =
     [(''1h'', 60 * 60 * 1000), (''6h'', 6 * 60 * 60 * 1000), (''1d'', 24 * 60 * 60 * 1000),
      (''7d'', 7 * 24 * 60 * 60 * 1000), (''30d'', 30 * 24 * 60 * 60 * 1000)]"

definition TIME_RANGE_LABELS :: "(string \<times> string) list" where
  "TIME_RANGE_LABELS =
     [(''1h'', ''Past 1 hour''), (''6h'', ''Past 6 hours''), (''1d'', ''Past 24 hours''),
      (''7d'', ''Past 7 days''), (''30d'', ''Past 30 days''), (''custom'', ''Custom range'')]"

definition DEFAULT_RANGE_DAYS :: int where "DEFAULT_RANGE_DAYS = 7"

text \<open>
  Indexing the table by a name that every object inherits finds a function, so the arithmetic on it
  gives \<open>NaN\<close>.
\<close>

definition inherited_keys :: "string list" where
  "inherited_keys =
     [''constructor'', ''toString'', ''toLocaleString'', ''valueOf'', ''hasOwnProperty'', ''isPrototypeOf'',
      ''propertyIsEnumerable'', ''__proto__'', ''__defineGetter__'', ''__defineSetter__'',
      ''__lookupGetter__'', ''__lookupSetter__'']"

definition is_inherited :: "jsstring \<Rightarrow> bool" where
  "is_inherited s \<longleftrightarrow> s \<in> js ` set inherited_keys"

definition preset_ms :: "jsstring \<Rightarrow> int option" where
  "preset_ms p = map_of (map (apfst js) TIME_RANGE_MS) p"

definition preset_duration :: "jsstring option \<Rightarrow> time_value" where
  "preset_duration preset =
     (case preset of
        None \<Rightarrow> Some (DEFAULT_RANGE_DAYS * 24 * 60 * 60 * 1000)
      | Some p \<Rightarrow>
          if is_inherited p then None
          else (case preset_ms p of
                  Some d \<Rightarrow> Some d
                | None \<Rightarrow> Some (DEFAULT_RANGE_DAYS * 24 * 60 * 60 * 1000)))"

record time_window =
  tw_from :: jsstring
  tw_to :: jsstring

definition presetToFromTo :: "int \<Rightarrow> jsstring option \<Rightarrow> (js_error, time_window) result" where
  "presetToFromTo now preset =
     and_then (toISOString (map_option (\<lambda>d. now - d) (preset_duration preset))) (\<lambda>from'.
     and_then (toISOString (Some now)) (\<lambda>to'.
       Inr \<lparr>tw_from = from', tw_to = to'\<rparr>))"

text \<open>Clocks from the year 1971 to the year 9999.\<close>

definition clock_ok :: "int \<Rightarrow> bool" where
  "clock_ok t \<longleftrightarrow> 31536000000 \<le> t \<and> t < 253402300800000"

lemma day_from_year_mono: "y \<le> y' \<Longrightarrow> day_from_year y \<le> day_from_year y'"
proof (induction y' rule: int_ge_induct)
  case (step i)
  then show ?case by (simp add: day_from_year_Suc year_len_def)
qed simp

lemma four_digit_year:
  assumes "0 \<le> t" and "t < 253402300800000"
  shows "0 \<le> cd_year (civil_from_day (t div ms_per_day)) \<and> cd_year (civil_from_day (t div ms_per_day)) \<le> 9999"
proof -
  let ?d = "t div ms_per_day" and ?y = "year_from_day (t div ms_per_day)"
  have lt: "86400000 * q \<le> t \<Longrightarrow> q < 2932897" for q using assms(2) by linarith
  have d: "?d < 2932897" "0 \<le> ?d"
  proof -
    show "?d < 2932897"
      unfolding ms_per_day_def by (rule lt) (rule div_bounds(1), rule zero_less_numeral)
    show "0 \<le> ?d"
      unfolding ms_per_day_def pos_imp_zdiv_nonneg_iff [OF zero_less_numeral] by (rule assms(1))
  qed
  have y: "day_from_year ?y \<le> ?d" "?d < day_from_year (?y + 1)"
    using year_from_day_bounds by blast+
  have ends: "day_from_year 0 \<le> 0" "2932897 \<le> day_from_year 10000"
    by (simp_all add: day_from_year_def)
  have "\<not> ?y < 0"
  proof
    assume "?y < 0"
    then have "day_from_year (?y + 1) \<le> day_from_year 0" by (intro day_from_year_mono) simp
    with y d ends show False by linarith
  qed
  moreover have "\<not> 9999 < ?y"
  proof
    assume "9999 < ?y"
    then have "day_from_year 10000 \<le> day_from_year ?y" by (intro day_from_year_mono) simp
    with y d ends show False by linarith
  qed
  ultimately show ?thesis by (simp add: civil_from_day_def Let_def)
qed

text \<open>
  The window of a preset ends now and is as long as the preset says, read back from the texts that
  go to the server; an unknown preset, \<open>custom\<close> or none at all is seven days.
\<close>

theorem presetToFromTo_window:
  assumes "clock_ok now" and "\<forall>p. preset = Some p \<longrightarrow> \<not> is_inherited p"
  shows "\<exists>w. presetToFromTo now preset = Inr w \<and> iso_parse (tw_to w) = Some now \<and>
    iso_parse (tw_from w) = Some (now -
      (case Option.bind preset preset_ms of Some d \<Rightarrow> d | None \<Rightarrow> 7 * 24 * 60 * 60 * 1000))"
proof -
  define d where "d = (case Option.bind preset preset_ms of Some d \<Rightarrow> d | None \<Rightarrow> 7 * 24 * 60 * 60 * 1000)"
  have "0 \<le> d \<and> d \<le> 2592000000"
    by (auto simp: d_def preset_ms_def TIME_RANGE_MS_def split: option.split bind_splits if_splits)
  with assms(1) have t: "iso_parse (iso_text now) = Some now" "iso_parse (iso_text (now - d)) = Some (now - d)"
    using four_digit_year [of now] four_digit_year [of "now - d"]
    by (auto simp: clock_ok_def intro!: iso_roundtrip)
  have "preset_duration preset = Some d"
    using assms(2) by (auto simp: preset_duration_def d_def DEFAULT_RANGE_DAYS_def split: option.split)
  with t show ?thesis
    by (simp add: presetToFromTo_def toISOString_def d_def)
qed

lemma presetToFromTo_window_witness:
  "\<exists>w. presetToFromTo 1700000000000 (Some (js ''1h'')) = Inr w \<and>
     iso_parse (tw_from w) = Some 1699996400000"
  using presetToFromTo_window [of 1700000000000 "Some (js ''1h'')"]
  by (auto simp: clock_ok_def is_inherited_def inherited_keys_def preset_ms_def TIME_RANGE_MS_def)

end
