(* ===== verification/JsConvert.thy ===== *)
theory JsConvert
  imports Json
begin

text \<open>
  JavaScript's conversions of the values that come out of \<open>JSON.parse\<close>: to a string (template
  literals), to a number (\<open>Number\<close>), and \<open>parseFloat\<close>.
\<close>

section \<open>To a string\<close>

text \<open>
  An object with an own \<open>toString\<close> (which JSON cannot make a function) has no primitive value; every
  other object is \<open>[object Object]\<close>. An array joins its elements, \<open>null\<close> as the empty string.
\<close>

fun to_text :: "json \<Rightarrow> (js_error, jsstring) result" where
  "to_text JNull = Inr (js ''null'')"
| "to_text (JBool b) = Inr (if b then js ''true'' else js ''false'')"
| "to_text (JNum n) = Inr (num_to_string n)"
| "to_text (JStr s) = Inr s"
| "to_text (JArr xs) =
     and_then (map_result (\<lambda>x. if x = JNull then Inr [] else to_text x) xs) (\<lambda>ts. Inr (join (js '','') ts))"
| "to_text (JObj m) =
     (if js ''toString'' \<in> fst ` set m then Inl (TypeError ''Cannot convert object to primitive value'')
      else Inr (js ''[object Object]''))"

definition to_text_opt :: "json option \<Rightarrow> (js_error, jsstring) result" where
  "to_text_opt v = (case v of None \<Rightarrow> Inr (js ''undefined'') | Some j \<Rightarrow> to_text j)"

section \<open>To a number\<close>

text \<open>The longest decimal literal without a sign at the front of a string, and the rest.\<close>

definition decimal_prefix :: "jsstring \<Rightarrow> (rat \<times> jsstring) option" where
  "decimal_prefix s =
     (let (ds, r) = span_digits s;
          (fs, r2) = (case r of u # t \<Rightarrow> if u = 0x2E \<and> (ds \<noteq> [] \<or> fst (span_digits t) \<noteq> [])
                                        then span_digits t else ([], r)
                      | [] \<Rightarrow> ([], []))
      in if ds = [] \<and> fs = [] then None
         else let (e, r3) = (case exponent_part r2 of Some x \<Rightarrow> x | None \<Rightarrow> (0, r2))
              in Some (of_nat (nat_of_digits (ds @ fs)) * 10 powi (e - int (length fs)), r3))"

definition split_sign :: "jsstring \<Rightarrow> bool \<times> jsstring" where
  "split_sign s =
     (case s of u # t \<Rightarrow> if u = 0x2D then (True, t) else if u = 0x2B then (False, t) else (False, s)
      | [] \<Rightarrow> (False, []))"

definition parse_float :: "jsstring \<Rightarrow> jsnum" where
  "parse_float str =
     (let (neg, s) = split_sign (trim_start str)
      in if starts_with s (js ''Infinity'') then (if neg then NegInf else PosInf)
         else case decimal_prefix s of
                Some (v, _) \<Rightarrow> to_double (if neg then - v else v)
              | None \<Rightarrow> NaN)"

text \<open>\<open>parseInt(str)\<close>: the longest run of digits, hexadecimal after \<open>0x\<close>.\<close>

definition is_hex_unit :: "unit16 \<Rightarrow> bool" where
  "is_hex_unit u \<longleftrightarrow> hex_value u \<noteq> None"

definition nat_of_hex :: "jsstring \<Rightarrow> nat" where
  "nat_of_hex s = foldl (\<lambda>n u. 16 * n + the (hex_value u)) 0 s"

definition parse_int :: "jsstring \<Rightarrow> jsnum" where
  "parse_int str =
     (let (neg, s) = split_sign (trim_start str);
          hex = starts_with s (js ''0x'') \<or> starts_with s (js ''0X'');
          ds = (if hex then takeWhile is_hex_unit (drop 2 s) else takeWhile is_digit_unit s);
          n = (if hex then nat_of_hex ds else nat_of_digits ds)
      in if ds = [] then NaN else to_double (if neg then - of_nat n else of_nat n))"

text \<open>The outcome is a whole number, an infinity or \<open>NaN\<close>.\<close>

lemma parse_int_whole: "parse_int s = Fin x \<Longrightarrow> x \<in> \<int>"
  using to_double_whole [of "- int n" for n] to_double_whole [of "int n" for n]
  by (auto simp: parse_int_def Let_def split: prod.splits if_splits)

text \<open>A numeral of a given radix that fills the string.\<close>

definition radix_literal :: "nat \<Rightarrow> jsstring \<Rightarrow> jsnum" where
  "radix_literal r s =
     (if s \<noteq> [] \<and> list_all (\<lambda>u. case hex_value u of Some d \<Rightarrow> d < r | None \<Rightarrow> False) s
      then to_double (of_nat (foldl (\<lambda>n u. r * n + (case hex_value u of Some d \<Rightarrow> d | None \<Rightarrow> 0)) 0 s))
      else NaN)"

definition string_to_number :: "jsstring \<Rightarrow> jsnum" where
  "string_to_number str =
     (let t = trim str
      in if t = [] then Fin 0
         else if starts_with t (js ''0x'') \<or> starts_with t (js ''0X'') then radix_literal 16 (drop 2 t)
         else if starts_with t (js ''0o'') \<or> starts_with t (js ''0O'') then radix_literal 8 (drop 2 t)
         else if starts_with t (js ''0b'') \<or> starts_with t (js ''0B'') then radix_literal 2 (drop 2 t)
         else let (neg, s) = split_sign t
              in if s = js ''Infinity'' then (if neg then NegInf else PosInf)
                 else case decimal_prefix s of
                        Some (v, []) \<Rightarrow> to_double (if neg then - v else v)
                      | _ \<Rightarrow> NaN)"

text \<open>
  \<open>Number(v)\<close>: an object or array is converted through its string. An object whose own \<open>toString\<close>
  is not a function throws.
\<close>

definition to_number :: "json \<Rightarrow> (js_error, jsnum) result" where
  "to_number v =
     (case v of
        JNull \<Rightarrow> Inr (Fin 0)
      | JBool b \<Rightarrow> Inr (Fin (if b then 1 else 0))
      | JNum n \<Rightarrow> Inr n
      | JStr s \<Rightarrow> Inr (string_to_number s)
      | _ \<Rightarrow> and_then (to_text v) (\<lambda>s. Inr (string_to_number s)))"

section \<open>Regular expressions\<close>

text \<open>Removing every occurrence of a literal, as \<open>replace\<close> with a global literal pattern does.\<close>

function remove_all :: "jsstring \<Rightarrow> jsstring \<Rightarrow> jsstring" where
  "remove_all p s =
     (if s = [] then []
      else if p \<noteq> [] \<and> starts_with s p then remove_all p (drop (length p) s)
      else hd s # remove_all p (tl s))"
  by auto
termination
  by (relation "measure (\<lambda>(_, s). length s)") auto

declare remove_all.simps [simp del]

text \<open>What \<open>.\<close> does not match.\<close>

definition is_line_terminator :: "unit16 \<Rightarrow> bool" where
  "is_line_terminator u \<longleftrightarrow> u = 10 \<or> u = 13 \<or> u = 0x2028 \<or> u = 0x2029"

end
