(* ===== verification/Formatters.thy ===== *)
theory Formatters
  imports JsConvert JsDate
begin

text \<open>
  \<open>ui/src/utils/formatters.ts\<close>: numbers, times, chat previews and tool summaries as the UI shows
  them. An absent string is \<open>None\<close>; the current time is an argument.
\<close>

section \<open>Times and durations\<close>

definition formatTimeWithYear :: "runtime \<Rightarrow> int \<Rightarrow> jsstring \<Rightarrow> jsstring" where
  "formatTimeWithYear rt now stamp =
     (if stamp = [] then js ''N/A''
      else let d = date_parse rt stamp;
               sameYear = num_eq (getFullYear rt d) (getFullYear rt (Some now))
           in rt_locale rt ToLocaleString
                ([(''month'', ''short''), (''day'', ''numeric'')] @
                 (if sameYear then [] else [(''year'', ''numeric'')]) @
                 [(''hour'', ''2-digit''), (''minute'', ''2-digit'')]) d)"

definition formatTime :: "runtime \<Rightarrow> int \<Rightarrow> jsstring \<Rightarrow> jsstring" where
  "formatTime rt now stamp = formatTimeWithYear rt now stamp"

text \<open>The minute form; seconds that round up to 60 carry.\<close>

definition minutes_form :: "jsnum \<Rightarrow> jsstring" where
  "minutes_form ms =
     (let minutes = num_floor (num_div ms (Fin 60000));
          seconds = num_round (num_div (num_rem ms (Fin 60000)) (Fin 1000));
          (minutes, seconds) = (if num_eq seconds (Fin 60) then (num_add minutes (Fin 1), Fin 0)
                                else (minutes, seconds))
      in if num_eq minutes (Fin 60) then js ''1h''
         else if num_eq seconds (Fin 0) then num_to_string minutes @ js ''m''
         else num_to_string minutes @ js ''m '' @ num_to_string seconds @ js ''s'')"

definition hours_form :: "jsnum \<Rightarrow> jsstring" where
  "hours_form ms =
     (let hours = num_floor (num_div ms (Fin 3600000));
          minutes = num_floor (num_div (num_rem ms (Fin 3600000)) (Fin 60000))
      in if num_eq minutes (Fin 0) then num_to_string hours @ js ''h''
         else num_to_string hours @ js ''h '' @ num_to_string minutes @ js ''m'')"

definition formatDurationMs :: "jsnum \<Rightarrow> jsstring" where
  "formatDurationMs ms =
     (if num_le ms (Fin 0) then js ''0ms''
      else if num_lt ms (Fin 1) then js ''< 1ms''
      else if num_lt ms (Fin 1000) then num_to_string (num_round ms) @ js ''ms''
      else if num_lt ms (Fin 60000) \<and> to_fixed 1 (num_div ms (Fin 1000)) \<noteq> js ''60.0''
        then to_fixed 1 (num_div ms (Fin 1000)) @ js ''s''
      else if num_lt ms (Fin 3600000) then minutes_form ms
      else hours_form ms)"

definition formatDuration :: "runtime \<Rightarrow> jsstring \<Rightarrow> jsstring \<Rightarrow> jsstring" where
  "formatDuration rt start end' =
     (if start = [] \<or> end' = [] then js ''N/A''
      else formatDurationMs (num_sub (getTime (date_parse rt end')) (getTime (date_parse rt start))))"

definition formatMs :: "jsnum \<Rightarrow> jsstring" where
  "formatMs ms = formatDurationMs ms"

definition timeRangeLabel :: "runtime \<Rightarrow> int \<Rightarrow> jsstring \<Rightarrow> jsstring" where
  "timeRangeLabel rt now from' =
     (let diffHours = num_div (num_sub (num_of_int now) (getTime (date_parse rt from'))) (Fin 3600000)
      in if num_le diffHours (Fin 1) then js ''Past hour''
         else if num_le diffHours (Fin 24) then js ''Past 24 hours''
         else if num_le diffHours (Fin 168) then js ''Past 7 days''
         else js ''Custom range'')"

section \<open>Costs and counts\<close>

definition trim_zero :: "jsstring \<Rightarrow> jsstring" where
  "trim_zero s = (if ends_with s (js ''0'') then butlast s else s)"

definition formatCost :: "jsnum option \<Rightarrow> jsstring" where
  "formatCost cost =
     (case cost of
        None \<Rightarrow> js ''$0.00''
      | Some c \<Rightarrow>
          if c = NaN \<or> num_le c (Fin 0) then js ''$0.00''
          else if num_le (Fin 1) c then js ''$'' @ to_fixed 2 c
          else if num_lt c (to_double (1 / 1000)) then js ''< $0.001''
          else js ''$'' @ trim_zero (to_fixed 3 c))"

definition truncate_text :: "jsstring option \<Rightarrow> nat \<Rightarrow> jsstring" where
  "truncate_text str len =
     (case str of
        None \<Rightarrow> em_dash
      | Some s \<Rightarrow> if s = [] then em_dash
                 else if len < length s then take len s @ ellipsis else s)"

definition formatNumber :: "json option \<Rightarrow> (js_error, jsstring) result" where
  "formatNumber v =
     (case v of
        None \<Rightarrow> Inr (js ''0'')
      | Some JNull \<Rightarrow> Inr (js ''0'')
      | Some x \<Rightarrow>
          and_then (case x of JStr s \<Rightarrow> Inr (parse_float s) | _ \<Rightarrow> to_number x) (\<lambda>num. Inr
            (if num = NaN then js ''0''
             else if num_le (Fin 1000000) num then to_fixed 1 (num_div num (Fin 1000000)) @ js ''M''
             else if num_le (Fin 1000) num then to_fixed 1 (num_div num (Fin 1000)) @ js ''K''
             else to_fixed 2 num)))"

definition totalTokens :: "jsnum \<Rightarrow> jsnum \<Rightarrow> jsnum" where
  "totalTokens input_tokens output_tokens =
     num_add (num_max (Fin 0) input_tokens) (num_max (Fin 0) output_tokens)"

definition formatStatus :: "jsstring option \<Rightarrow> jsstring" where
  "formatStatus code =
     (case code of
        None \<Rightarrow> em_dash
      | Some c \<Rightarrow> if c = [] then em_dash
                 else if to_upper c = js ''UNSET'' then js ''No status'' else c)"

section \<open>Chat messages\<close>

text \<open>\<open>v[0]\<close>: the first element, the first character, or the property \<open>0\<close>.\<close>

fun index_0 :: "json \<Rightarrow> (js_error, json option) result" where
  "index_0 JNull = Inl (TypeError ''0'')"
| "index_0 (JArr xs) = Inr (case xs of x # _ \<Rightarrow> Some x | [] \<Rightarrow> None)"
| "index_0 (JStr s) = Inr (case s of u # _ \<Rightarrow> Some (JStr [u]) | [] \<Rightarrow> None)"
| "index_0 (JObj m) = Inr (map_of m (js ''0''))"
| "index_0 _ = Inr None"

definition safeExtractInputOutput :: "jsstring \<Rightarrow> jsstring" where
  "safeExtractInputOutput s =
     (case and_then (JSON_parse s) index_0 of
        Inr (Some first) \<Rightarrow>
          (case get_prop_opt first ''content'' of Some (JStr c) \<Rightarrow> c | _ \<Rightarrow> s)
      | _ \<Rightarrow> s)"

record ChatTurn =
  ct_role :: jsstring
  ct_content :: jsstring

text \<open>A message with string \<open>role\<close> and \<open>content\<close>.\<close>

definition chat_turn :: "json \<Rightarrow> ChatTurn option" where
  "chat_turn m =
     (case (get_prop_opt m ''content'', get_prop_opt m ''role'') of
        (Some (JStr c), Some (JStr r)) \<Rightarrow> Some \<lparr>ct_role = r, ct_content = c\<rparr>
      | _ \<Rightarrow> None)"

text \<open>The turns of a JSON array whose first element is a message.\<close>

definition json_turns :: "jsstring \<Rightarrow> ChatTurn list option" where
  "json_turns raw =
     (case JSON_parse raw of
        Inr (JArr (m # ms)) \<Rightarrow>
          (case chat_turn m of
             Some _ \<Rightarrow> Some (List.map_filter chat_turn (m # ms))
           | None \<Rightarrow> None)
      | _ \<Rightarrow> None)"

text \<open>\<open>\s+role:(\w+)\]\<close> at the front: both runs are maximal, so there is one way to match.\<close>

definition match_role :: "jsstring \<Rightarrow> (jsstring \<times> jsstring) option" where
  "match_role s =
     (let r = trim_start s; w = takeWhile is_word_unit (drop 5 r); rest = dropWhile is_word_unit (drop 5 r)
      in if length r < length s \<and> starts_with r (js ''role:'') \<and> w \<noteq> [] \<and> starts_with rest (js '']'')
         then Some (w, drop 1 rest) else None)"

text \<open>\<open>(.*?)\<close> before it: as few characters as possible, none of them a line terminator.\<close>

fun match_lazy :: "jsstring \<Rightarrow> (jsstring \<times> jsstring \<times> jsstring) option" where
  "match_lazy s =
     (case match_role s of
        Some (w, r) \<Rightarrow> Some ([], w, r)
      | None \<Rightarrow> (case s of
                   [] \<Rightarrow> None
                 | u # t \<Rightarrow> if is_line_terminator u then None
                           else map_option (apfst (Cons u)) (match_lazy t)))"

declare match_lazy.simps [simp del]

lemma match_role_shorter: "match_role s = Some (w, r) \<Longrightarrow> length r < length s"
proof -
  assume a: "match_role s = Some (w, r)"
  let ?t = "drop 5 (trim_start s)"
  have "length ?t \<le> length s"
    by (simp add: trim_start_def) (meson diff_le_self length_dropWhile_le order_trans)
  moreover from a have r: "r = drop 1 (dropWhile is_word_unit ?t)"
    and "starts_with (dropWhile is_word_unit ?t) (js '']'')"
    by (simp_all add: match_role_def Let_def split: if_splits)
  then have "dropWhile is_word_unit ?t \<noteq> []"
    by (metis js_Nil(3) list.distinct(1) starts_with_def take_Nil)
  moreover have "length (dropWhile is_word_unit ?t) \<le> length ?t" by (rule length_dropWhile_le)
  ultimately show ?thesis using r by (cases "dropWhile is_word_unit ?t") auto
qed

lemma match_lazy_shorter: "match_lazy s = Some (c, w, r) \<Longrightarrow> length r \<le> length s"
proof (induction s arbitrary: c)
  case Nil
  then show ?case
    by (subst (asm) match_lazy.simps) (auto dest!: match_role_shorter split: option.splits)
next
  case (Cons u t)
  show ?case
  proof (cases "match_role (u # t)")
    case None
    with Cons show ?thesis
      by (subst (asm) (2) match_lazy.simps) (auto split: if_splits dest: le_SucI)
  next
    case (Some p)
    with Cons.prems show ?thesis
      by (subst (asm) match_lazy.simps) (auto dest!: match_role_shorter)
  qed
qed

text \<open>\<open>matchAll(/map\[content:(.*?)\s+role:(\w+)\]/g)\<close>\<close>

function go_map_pairs :: "jsstring \<Rightarrow> (jsstring \<times> jsstring) list" where
  "go_map_pairs s =
     (if s = [] then []
      else if starts_with s (js ''map[content:'')
      then (case match_lazy (drop 12 s) of
              Some (c, w, r) \<Rightarrow> (c, w) # go_map_pairs r
            | None \<Rightarrow> go_map_pairs (tl s))
      else go_map_pairs (tl s))"
  by auto
termination
  by (relation "measure length") (auto dest!: match_lazy_shorter simp: neq_Nil_conv)

declare go_map_pairs.simps [simp del]

definition parseChatTurns :: "jsstring \<Rightarrow> ChatTurn list option" where
  "parseChatTurns raw =
     (if raw = [] then None
      else case json_turns raw of
             Some turns \<Rightarrow> Some turns
           | None \<Rightarrow>
               if str_includes raw (js ''map['') \<and> str_includes raw (js ''content:'') \<and>
                  str_includes raw (js ''role:'') \<and> go_map_pairs raw \<noteq> []
               then Some (map (\<lambda>(c, w). \<lparr>ct_role = trim w, ct_content = trim c\<rparr>) (go_map_pairs raw))
               else None)"

text \<open>\<open>(?:\s+\w+:|])\<close> at the front: what is left after it.\<close>

definition match_value_end :: "jsstring \<Rightarrow> jsstring option" where
  "match_value_end s =
     (let r = trim_start s; w = takeWhile is_word_unit r; rest = dropWhile is_word_unit r
      in if length r < length s \<and> w \<noteq> [] \<and> starts_with rest (js '':'') then Some (drop 1 rest)
         else if starts_with s (js '']'') then Some (drop 1 s) else None)"

text \<open>\<open>([^\]]*?)\<close> before it.\<close>

fun match_value :: "jsstring \<Rightarrow> (jsstring \<times> jsstring) option" where
  "match_value s =
     (case match_value_end s of
        Some r \<Rightarrow> Some ([], r)
      | None \<Rightarrow> (case s of
                   [] \<Rightarrow> None
                 | u # t \<Rightarrow> if u = 0x5D then None else map_option (apfst (Cons u)) (match_value t)))"

declare match_value.simps [simp del]

lemma match_value_end_shorter: "match_value_end s = Some r \<Longrightarrow> length r \<le> length s"
proof -
  assume a: "match_value_end s = Some r"
  have "length (dropWhile is_word_unit (trim_start s)) \<le> length s"
    by (metis length_dropWhile_le order_trans trim_start_def)
  with a show ?thesis by (auto simp: match_value_end_def Let_def split: if_splits)
qed

lemma match_value_shorter: "match_value s = Some (c, r) \<Longrightarrow> length r \<le> length s"
proof (induction s arbitrary: c)
  case Nil
  then show ?case
    by (subst (asm) match_value.simps) (auto dest!: match_value_end_shorter split: option.splits)
next
  case (Cons u t)
  show ?case
  proof (cases "match_value_end (u # t)")
    case None
    with Cons show ?thesis
      by (subst (asm) (2) match_value.simps) (auto split: if_splits dest: le_SucI)
  next
    case (Some p)
    with Cons.prems show ?thesis
      by (subst (asm) match_value.simps) (auto dest!: match_value_end_shorter)
  qed
qed

text \<open>\<open>matchAll(/content:([^\]]*?)(?:\s+\w+:|])/g)\<close>, first groups.\<close>

function content_values :: "jsstring \<Rightarrow> jsstring list" where
  "content_values s =
     (if s = [] then []
      else if starts_with s (js ''content:'')
      then (case match_value (drop 8 s) of
              Some (c, r) \<Rightarrow> c # content_values r
            | None \<Rightarrow> content_values (tl s))
      else content_values (tl s))"
  by auto
termination
  by (relation "measure length") (auto dest!: match_value_shorter simp: neq_Nil_conv)

declare content_values.simps [simp del]

text \<open>\<open>`${m.role}: ${m.content}`\<close> for a message with string content.\<close>

definition preview_line :: "json \<Rightarrow> (js_error, jsstring) result" where
  "preview_line m =
     and_then (to_text_opt (get_prop_opt m ''role'')) (\<lambda>r.
       Inr (r @ js '': '' @ string_of (get_prop_opt m ''content'')))"

definition json_preview :: "jsstring \<Rightarrow> jsstring option" where
  "json_preview raw =
     (case JSON_parse raw of
        Inr (JArr (m # ms)) \<Rightarrow>
          (case chat_turn m of
             None \<Rightarrow> None
           | Some _ \<Rightarrow>
               (case map_result preview_line
                       (filter (\<lambda>m. is_string (get_prop_opt m ''content'')) (m # ms)) of
                  Inr ls \<Rightarrow> Some (join (js '' | '') ls)
                | Inl _ \<Rightarrow> None))
      | _ \<Rightarrow> None)"

definition extractChatPreview :: "jsstring \<Rightarrow> jsstring option" where
  "extractChatPreview raw =
     (case json_preview raw of
        Some p \<Rightarrow> Some p
      | None \<Rightarrow>
          if str_includes raw (js ''map['') \<and> str_includes raw (js ''content:'')
          then (if content_values raw \<noteq> []
                then Some (join (js '' | '') (filter (\<lambda>t. t \<noteq> []) (map trim (content_values raw))))
                else let cleaned = trim (remove_all (js '']'') (remove_all (js '']]'')
                                     (remove_all (js ''map['') (remove_all (js ''[map['') raw))))
                     in if cleaned \<noteq> [] then Some cleaned else None)
          else None)"

text \<open>A text of at most \<open>maxLen\<close> units, or its start and an ellipsis.\<close>

definition clip :: "nat \<Rightarrow> jsstring \<Rightarrow> jsstring" where
  "clip maxLen s = (if length s \<le> maxLen then s else take maxLen s @ ellipsis)"

definition formatJsonPreview :: "jsstring \<Rightarrow> nat \<Rightarrow> jsstring" where
  "formatJsonPreview s maxLen =
     (if s = [] then em_dash
      else case extractChatPreview s of
             Some chat \<Rightarrow> clip maxLen chat
           | None \<Rightarrow> (case JSON_parse s of
                        Inr obj \<Rightarrow> clip maxLen (JSON_stringify obj)
                      | Inl _ \<Rightarrow> clip maxLen (trim s)))"

section \<open>Tool summaries\<close>

record ToolSummary =
  sum_title :: jsstring
  sum_detail :: jsstring

definition tryParseObject :: "jsstring option \<Rightarrow> attrs option" where
  "tryParseObject raw =
     (case raw of
        None \<Rightarrow> None
      | Some s \<Rightarrow> if s = [] then None
                 else (case JSON_parse s of Inr (JObj m) \<Rightarrow> Some m | _ \<Rightarrow> None))"

fun firstStringField :: "attrs option \<Rightarrow> string list \<Rightarrow> jsstring option" where
  "firstStringField None ks = None"
| "firstStringField (Some m) [] = None"
| "firstStringField (Some m) (k # ks) =
     (case map_of m (js k) of
        Some (JStr s) \<Rightarrow> if s \<noteq> [] then Some s else firstStringField (Some m) ks
      | _ \<Rightarrow> firstStringField (Some m) ks)"

definition TOOL_DETAIL_MAX_LEN :: nat where "TOOL_DETAIL_MAX_LEN = 500"

definition nonempty :: "jsstring option \<Rightarrow> bool" where
  "nonempty v \<longleftrightarrow> (case v of Some s \<Rightarrow> s \<noteq> [] | None \<Rightarrow> False)"

text \<open>The four recognised shapes, each \<open>None\<close> when it does not apply.\<close>

definition terminal_summary :: "jsstring \<Rightarrow> attrs option \<Rightarrow> attrs option \<Rightarrow> ToolSummary option" where
  "terminal_summary nm inputObj outputObj =
     (let command = firstStringField inputObj [''command'', ''cmd'']
      in if matches_any_ci nm [''terminal'', ''shell'', ''bash'', ''exec''] \<or> command \<noteq> None
         then (case command of
                 None \<Rightarrow> None
               | Some c \<Rightarrow>
                   (let stdout = firstStringField outputObj [''output'', ''stdout'', ''result''];
                        stderr = firstStringField outputObj [''stderr''];
                        combined = join (js [CHR 0x0A]) (filter (\<lambda>t. t \<noteq> []) (List.map_filter id [stdout, stderr]))
                    in Some \<lparr>sum_title = js ''$ '' @ c,
                             sum_detail = (if combined \<noteq> [] then truncate_text (Some combined) TOOL_DETAIL_MAX_LEN
                                           else js ''(no output)'')\<rparr>))
         else None)"

definition file_summary :: "jsstring \<Rightarrow> attrs option \<Rightarrow> ToolSummary option" where
  "file_summary nm inputObj =
     (let path = firstStringField inputObj [''path'', ''file_path'', ''filepath'', ''file'']
      in if matches_any_ci nm [''file'', ''edit''] \<or> path \<noteq> None
         then (case path of
                 None \<Rightarrow> None
               | Some p \<Rightarrow>
                   (let detail = firstStringField inputObj [''diff'', ''content'', ''new_content'', ''patch'']
                    in Some \<lparr>sum_title = p,
                             sum_detail = (case detail of
                                 Some d \<Rightarrow> truncate_text (Some d) TOOL_DETAIL_MAX_LEN
                               | None \<Rightarrow> js ''(no diff/content)'')\<rparr>))
         else None)"

definition skill_summary :: "jsstring \<Rightarrow> attrs option \<Rightarrow> ToolSummary option" where
  "skill_summary nm inputObj =
     (let skill = firstStringField inputObj [''skill'', ''skill_name'']
      in if matches_any_ci nm [''invokeskill'', ''skill''] \<or> skill \<noteq> None
         then (case skill of
                 None \<Rightarrow> None
               | Some sk \<Rightarrow>
                   (let obj = JObj (case inputObj of Some m \<Rightarrow> m | None \<Rightarrow> []);
                        args = or_else (get_prop_opt obj ''args'') (get_prop_opt obj ''arguments'')
                    in Some \<lparr>sum_title = js ''skill: '' @ sk,
                             sum_detail = (case args of
                                 Some a \<Rightarrow> truncate_text (Some (JSON_stringify a)) TOOL_DETAIL_MAX_LEN
                               | None \<Rightarrow> js ''(no args)'')\<rparr>))
         else None)"

definition think_summary :: "jsstring \<Rightarrow> jsstring option \<Rightarrow> attrs option \<Rightarrow> ToolSummary option" where
  "think_summary nm output outputObj =
     (if matches_any_ci nm [''think'', ''reason''] \<and> nonempty output \<and> outputObj = None
      then Some \<lparr>sum_title = js ''thought'', sum_detail = truncate_text output TOOL_DETAIL_MAX_LEN\<rparr>
      else None)"

definition generic_summary :: "jsstring option \<Rightarrow> jsstring option \<Rightarrow> ToolSummary" where
  "generic_summary input output =
     \<lparr>sum_title = (if nonempty input then formatJsonPreview (the input) 120 else js ''(no input)''),
      sum_detail = (if nonempty output
                    then truncate_text (Some (formatJsonPreview (the output) TOOL_DETAIL_MAX_LEN)) TOOL_DETAIL_MAX_LEN
                    else js ''(no output)'')\<rparr>"

definition getToolSummary ::
    "jsstring option \<Rightarrow> jsstring option \<Rightarrow> jsstring option \<Rightarrow> ToolSummary option" where
  "getToolSummary actionName input output =
     (if \<not> nonempty input \<and> \<not> nonempty output then None
      else let inputObj = tryParseObject input; outputObj = tryParseObject output;
               nm = (case actionName of Some n \<Rightarrow> n | None \<Rightarrow> [])
           in case terminal_summary nm inputObj outputObj of
                Some s \<Rightarrow> Some s
              | None \<Rightarrow> (case file_summary nm inputObj of
                           Some s \<Rightarrow> Some s
                         | None \<Rightarrow> (case skill_summary nm inputObj of
                                      Some s \<Rightarrow> Some s
                                    | None \<Rightarrow> (case think_summary nm output outputObj of
                                                 Some s \<Rightarrow> Some s
                                               | None \<Rightarrow> Some (generic_summary input output)))))"

section \<open>Durations of a whole number of milliseconds\<close>

lemma minutes_form_int:
  assumes "0 \<le> n" "n < 3600000"
  shows "minutes_form (num_of_int n) =
    (let s = (n + 500) div 1000 in
     if s = 3600 then js ''1h''
     else if s mod 60 = 0 then dec_int (s div 60) @ js ''m''
     else dec_int (s div 60) @ js ''m '' @ dec_int (s mod 60) @ js ''s'')"
proof -
  define m where "m = n div 60000"
  define k where "k = (n mod 60000 + 500) div 1000"
  have n: "n = 60000 * m + n mod 60000" "0 \<le> n mod 60000" "n mod 60000 < 60000"
    by (simp_all add: m_def)
  have m: "0 \<le> m" "m < 60" using n assms by linarith+
  have k: "0 \<le> k" "k \<le> 60" using n div_bounds [of 1000 "n mod 60000 + 500"] by (simp_all add: k_def)
  have s: "(n + 500) div 1000 = 60 * m + k"
  proof -
    have "n + 500 = (n mod 60000 + 500) + (60 * m) * 1000" using n(1) by simp
    then show ?thesis by (simp add: k_def)
  qed
  have fl: "num_floor (num_div (num_of_int n) (Fin 60000)) = num_of_int m"
    using floor_num_div [of n 60000] assms m by (simp add: m_def)
  have rd: "num_round (num_div (num_rem (num_of_int n) (Fin 60000)) (Fin 1000)) = num_of_int k"
    using num_rem_int [of n 60000] round_num_div [of "n mod 60000"] assms by (simp add: k_def)
  have add: "num_add (num_of_int m) (Fin 1) = num_of_int (m + 1)"
    using num_add_int [of m 1] m by simp
  have str: "num_to_string (num_of_int i) = dec_int i" if "0 \<le> i" "i \<le> 60" for i
    using num_to_string_int [of i] that by simp
  have eq: "num_eq (num_of_int i) (Fin 60) \<longleftrightarrow> i = 60" "num_eq (num_of_int i) (Fin 0) \<longleftrightarrow> i = 0"
      "num_eq (Fin 0) (Fin 0)" for i
    by simp_all
  have form: "minutes_form (num_of_int n) =
      (if k = 60 then if m + 1 = 60 then js ''1h'' else num_to_string (num_of_int (m + 1)) @ js ''m''
       else if m = 60 then js ''1h'' else if k = 0 then num_to_string (num_of_int m) @ js ''m''
       else num_to_string (num_of_int m) @ js ''m '' @ num_to_string (num_of_int k) @ js ''s'')"
    unfolding minutes_form_def fl rd Let_def eq
    by (cases "k = 60") (simp_all only: add eq if_True if_False prod.case refl)
  show ?thesis
  proof (cases "k = 60")
    case True
    then have "60 * m + k = 60 * (m + 1)" by simp
    then have "(60 * m + k) div 60 = m + 1" "(60 * m + k) mod 60 = 0" "60 * m + k = 3600 \<longleftrightarrow> m + 1 = 60"
      by (simp_all only: mult.commute nonzero_mult_div_cancel_left mod_mult_self2_is_0) auto
    with True show ?thesis
      using str [of "m + 1"] m unfolding form Let_def s by (simp del: of_int_add)
  next
    case False
    then have "(60 * m + k) div 60 = m" "(60 * m + k) mod 60 = k" "60 * m + k \<noteq> 3600"
      using k m by simp_all
    with False show ?thesis
      using str [of m] str [of k] m k unfolding form Let_def s by (simp del: num_to_string.simps)
  qed
qed

text \<open>
  C4: a whole number of milliseconds is shown as milliseconds below a second; from a minute on as
  minutes and seconds, rounded to the nearest second and carried into minutes and the hour; from an
  hour on as hours and whole minutes.
\<close>

theorem formatDurationMs_int:
  assumes "0 \<le> n" and "n < 2 ^ 50" and "n < 1000 \<or> 60000 \<le> n"
  shows "formatDurationMs (num_of_int n) =
    (if n < 1000 then dec_int n @ js ''ms''
     else if n < 3600000
     then (let s = (n + 500) div 1000 in
           if s = 3600 then js ''1h''
           else if s mod 60 = 0 then dec_int (s div 60) @ js ''m''
           else dec_int (s div 60) @ js ''m '' @ dec_int (s mod 60) @ js ''s'')
     else (let h = n div 3600000; m = n mod 3600000 div 60000 in
           if m = 0 then dec_int h @ js ''h'' else dec_int h @ js ''h '' @ dec_int m @ js ''m''))"
proof -
  have cmp: "num_le (num_of_int n) (Fin 0) \<longleftrightarrow> n \<le> 0" "num_lt (num_of_int n) (Fin 1) \<longleftrightarrow> n < 1"
    "num_lt (num_of_int n) (Fin 1000) \<longleftrightarrow> n < 1000" "num_lt (num_of_int n) (Fin 60000) \<longleftrightarrow> n < 60000"
    "num_lt (num_of_int n) (Fin 3600000) \<longleftrightarrow> n < 3600000"
    by (auto simp: num_le_def order_le_less)
  have ms: "num_to_string (num_round (num_of_int n)) = dec_int n"
  proof -
    have "\<lfloor>rat_of_int n + 1/2\<rfloor> = n" by (rule floor_unique) auto
    then show ?thesis using num_to_string_int [of n] assms(1,2) by simp
  qed
  have zero: "js ''0ms'' = dec_int 0 @ js ''ms''"
    by (simp add: dec_int_def dec_nat_def radix_nat_less digit_unit_def js_def)
  consider (ms) "n < 1000" | (min) "60000 \<le> n" "n < 3600000" | (hours) "3600000 \<le> n"
    using assms(3) by linarith
  then show ?thesis
  proof cases
    case ms
    with assms(1) \<open>num_to_string _ = _\<close> show ?thesis
      unfolding formatDurationMs_def cmp by (auto simp: zero simp del: num_round.simps)
  next
    case min
    then show ?thesis
      using minutes_form_int [of n] unfolding formatDurationMs_def cmp by simp
  next
    case hours
    let ?h = "n div 3600000" and ?m = "n mod 3600000 div 60000"
    have h: "?h < 2 ^ 30"
      using div_bounds [of 3600000 n] assms(2) by simp
    have r: "0 \<le> n mod 3600000" "n mod 3600000 < 3600000" by simp_all
    have m: "0 \<le> ?m" "?m < 60"
      using div_bounds [of 60000 "n mod 3600000"] r by (simp_all add: pos_imp_zdiv_nonneg_iff)
    have "num_floor (num_div (num_of_int n) (Fin 3600000)) = num_of_int ?h"
      using floor_num_div [of n 3600000] assms h by simp
    moreover have "num_floor (num_div (num_rem (num_of_int n) (Fin 3600000)) (Fin 60000)) = num_of_int ?m"
      using num_rem_int [of n 3600000] floor_num_div [of "n mod 3600000" 60000] assms r m by simp
    moreover have "num_eq (num_of_int ?m) (Fin 0) \<longleftrightarrow> ?m = 0" by simp
    ultimately have "hours_form (num_of_int n) =
        (if ?m = 0 then num_to_string (num_of_int ?h) @ js ''h''
         else num_to_string (num_of_int ?h) @ js ''h '' @ num_to_string (num_of_int ?m) @ js ''m'')"
      unfolding hours_form_def Let_def by (simp only:)
    moreover have "num_to_string (num_of_int ?h) = dec_int ?h" "num_to_string (num_of_int ?m) = dec_int ?m"
      using num_to_string_int [of ?h] num_to_string_int [of ?m] h m hours
      by (simp_all add: pos_imp_zdiv_nonneg_iff)
    ultimately show ?thesis
      using hours unfolding formatDurationMs_def cmp by (simp add: Let_def del: num_to_string.simps)
  qed
qed

lemma formatDurationMs_int_witness:
  "formatDurationMs (num_of_int 3599500) = js ''1h'' \<and> formatDurationMs (num_of_int 7260000) = js ''2h 1m''"
proof -
  have "dec_int 1 = js ''1''" "dec_int 2 = js ''2''"
    by (simp_all add: dec_int_def dec_nat_def radix_nat_less digit_unit_def js_def)
  then show ?thesis
    using formatDurationMs_int [of 3599500] formatDurationMs_int [of 7260000]
    by (simp add: Let_def flip: js_append)
qed

end
