(* ===== verification/SpanRollup.thy ===== *)
theory SpanRollup
  imports JsConvert
begin

text \<open>
  \<open>ui/src/utils/spanRollup.ts\<close>: a trace as a tree of spans, and the totals \<open>annotateSpanTree\<close> attaches
  to every node.
\<close>

record SpanInfo =
  si_span_id :: jsstring
  si_trace_id :: jsstring
  si_parent_id :: jsstring
  si_project_id :: jsstring
  si_name :: jsstring
  si_kind :: jsstring
  si_model :: "jsstring option"
  si_start_time :: jsstring
  si_end_time :: jsstring
  si_cost_usd :: jsnum
  si_input_tokens :: jsnum
  si_output_tokens :: jsnum
  si_input :: "jsstring option"
  si_output :: "jsstring option"
  si_status_code :: "jsstring option"
  si_scores :: "(jsstring \<times> jsnum) list option"
  si_attributes :: "attrs option"

text \<open>A span with its optional \<open>children\<close>.\<close>

datatype Span = Span (span_info: SpanInfo) (children: "Span list option")

record rollup =
  ru_input_tokens :: jsnum
  ru_output_tokens :: jsnum
  ru_cost_usd :: jsnum

datatype AnnotatedSpan =
  Annotated (ann_info: SpanInfo) (ann_rollup: rollup) (ann_children: "AnnotatedSpan list option")

definition zero_rollup :: rollup where
  "zero_rollup = \<lparr>ru_input_tokens = Fin 0, ru_output_tokens = Fin 0, ru_cost_usd = Fin 0\<rparr>"

text \<open>\<open>acc.rollup_x += y.rollup_x\<close>, for the three totals.\<close>

definition add_rollup :: "rollup \<Rightarrow> rollup \<Rightarrow> rollup" where
  "add_rollup acc r =
     \<lparr>ru_input_tokens = num_add (ru_input_tokens acc) (ru_input_tokens r),
      ru_output_tokens = num_add (ru_output_tokens acc) (ru_output_tokens r),
      ru_cost_usd = num_add (ru_cost_usd acc) (ru_cost_usd r)\<rparr>"

definition own_values :: "SpanInfo \<Rightarrow> rollup" where
  "own_values s =
     \<lparr>ru_input_tokens = si_input_tokens s, ru_output_tokens = si_output_tokens s, ru_cost_usd = si_cost_usd s\<rparr>"

text \<open>The children are annotated in order and added up before the node's own values.\<close>

fun annotateSpanTree :: "Span \<Rightarrow> AnnotatedSpan" where
  "annotateSpanTree (Span s cs) =
     (let annotated = (case cs of Some xs \<Rightarrow> map annotateSpanTree xs | None \<Rightarrow> []);
          acc = fold (\<lambda>c acc. add_rollup acc (ann_rollup c)) annotated zero_rollup
      in Annotated s (add_rollup acc (own_values s))
           (if annotated \<noteq> [] then Some annotated else map_option (\<lambda>_. []) cs))"

section \<open>Totals\<close>

text \<open>The spans of a tree.\<close>

fun subtree :: "Span \<Rightarrow> SpanInfo list" where
  "subtree (Span s cs) = s # concat (map subtree (case cs of Some xs \<Rightarrow> xs | None \<Rightarrow> []))"

fun ann_subtree :: "AnnotatedSpan \<Rightarrow> (SpanInfo \<times> rollup) list" where
  "ann_subtree (Annotated s r cs) =
     (s, r) # concat (map ann_subtree (case cs of Some xs \<Rightarrow> xs | None \<Rightarrow> []))"

fun subspans :: "Span \<Rightarrow> Span list" where
  "subspans (Span s cs) = Span s cs # concat (map subspans (case cs of Some xs \<Rightarrow> xs | None \<Rightarrow> []))"

text \<open>Whole-number input tokens whose sums stay exact.\<close>

definition tokens_ok :: "(SpanInfo \<Rightarrow> jsnum) \<Rightarrow> (SpanInfo \<Rightarrow> int) \<Rightarrow> SpanInfo list \<Rightarrow> bool" where
  "tokens_ok f g ss \<longleftrightarrow>
     (\<forall>s \<in> set ss. f s = num_of_int (g s)) \<and> sum_list (map (\<lambda>s. \<bar>g s\<bar>) ss) \<le> 2 ^ 53"

lemma sum_list_abs: "\<bar>sum_list (map g ss)\<bar> \<le> sum_list (map (\<lambda>s. \<bar>g s\<bar>) ss)" for g :: "'a \<Rightarrow> int"
  by (induction ss) auto

lemma sum_list_abs_nonneg: "0 \<le> sum_list (map (\<lambda>s. \<bar>g s\<bar>) ss)" for g :: "'a \<Rightarrow> int"
  by (induction ss) auto

lemma sum_list_concat: "sum_list (map g (concat xss)) = sum_list (map (\<lambda>xs. sum_list (map g xs)) xss)"
  for g :: "'a \<Rightarrow> int"
  by (induction xss) auto

lemma tokens_ok_append:
  "tokens_ok f g (xs @ ys) \<Longrightarrow> tokens_ok f g xs \<and> tokens_ok f g ys"
  using sum_list_abs_nonneg [of g xs] sum_list_abs_nonneg [of g ys] by (auto simp: tokens_ok_def)

text \<open>Adding up the totals of a list of subtrees, for one of the token fields.\<close>

lemma fold_add_exact:
  assumes "\<And>acc r. sel (add_rollup acc r) = num_add (sel acc) (sel r)"
    and "\<And>x. x \<in> set xs \<Longrightarrow> sel (ann_rollup (annotateSpanTree x)) = num_of_int (sum_list (map g (subtree x)))"
    and "sel acc = num_of_int a"
    and "\<bar>a\<bar> + sum_list (map (\<lambda>s. \<bar>g s\<bar>) (concat (map subtree xs))) \<le> 2 ^ 53"
  shows "sel (fold (\<lambda>c acc. add_rollup acc (ann_rollup c)) (map annotateSpanTree xs) acc) =
    num_of_int (a + sum_list (map g (concat (map subtree xs))))"
  using assms(2-4)
proof (induction xs arbitrary: acc a)
  case (Cons x xs)
  let ?t = "sum_list (map g (subtree x))"
  have b: "\<bar>?t\<bar> \<le> sum_list (map (\<lambda>s. \<bar>g s\<bar>) (subtree x))" by (rule sum_list_abs)
  with Cons.prems(3) have "\<bar>a + ?t\<bar> + sum_list (map (\<lambda>s. \<bar>g s\<bar>) (concat (map subtree xs))) \<le> 2 ^ 53"
    by simp
  moreover from this have "\<bar>a + ?t\<bar> \<le> 2 ^ 53"
    using sum_list_abs_nonneg [of g "concat (map subtree xs)"] by linarith
  then have "sel (add_rollup acc (ann_rollup (annotateSpanTree x))) = num_of_int (a + ?t)"
    using Cons.prems(1,2) num_add_int [of a ?t] by (simp add: assms(1))
  ultimately show ?case
    using Cons.IH [of "add_rollup acc (ann_rollup (annotateSpanTree x))" "a + ?t"] Cons.prems(1)
    by (simp add: add.assoc)
qed simp

lemma rollup_exact:
  assumes "\<And>acc r. sel (add_rollup acc r) = num_add (sel acc) (sel r)"
    and "sel zero_rollup = Fin 0" and "\<And>s. sel (own_values s) = f s"
  shows "tokens_ok f g (subtree t) \<Longrightarrow>
    sel (ann_rollup (annotateSpanTree t)) = num_of_int (sum_list (map g (subtree t)))"
proof (induction t)
  case (Span s cs)
  define xs where "xs = (case cs of Some xs \<Rightarrow> xs | None \<Rightarrow> [])"
  have sub: "subtree (Span s cs) = s # concat (map subtree xs)" by (simp add: xs_def)
  have ok: "tokens_ok f g (subtree x)" if x: "x \<in> set xs" for x
  proof -
    obtain ys zs where "xs = ys @ x # zs" using x by (meson split_list)
    then have "subtree (Span s cs) = (s # concat (map subtree ys)) @ subtree x @ concat (map subtree zs)"
      using sub by simp
    with Span.prems show ?thesis by (metis tokens_ok_append)
  qed
  have IH: "sel (ann_rollup (annotateSpanTree x)) = num_of_int (sum_list (map g (subtree x)))"
    if "x \<in> set xs" for x
    using Span.IH ok that by (auto simp: xs_def split: option.splits)
  let ?S = "sum_list (map g (concat (map subtree xs)))"
  have total: "\<bar>g s\<bar> + sum_list (map (\<lambda>s. \<bar>g s\<bar>) (concat (map subtree xs))) \<le> 2 ^ 53" "f s = num_of_int (g s)"
    using Span.prems unfolding sub by (auto simp: tokens_ok_def)
  then have "sel (fold (\<lambda>c acc. add_rollup acc (ann_rollup c)) (map annotateSpanTree xs) zero_rollup) =
      num_of_int (0 + ?S)"
    using assms(2) IH by (intro fold_add_exact assms(1)) auto
  moreover have "\<bar>?S + g s\<bar> \<le> 2 ^ 53"
    using total(1) sum_list_abs [of g "concat (map subtree xs)"] by linarith
  ultimately show ?case
    using num_add_int [of ?S "g s"] total(2)
    unfolding sub by (cases cs) (simp_all add: xs_def Let_def assms(1,3) add.commute)
qed


definition sample_span :: "int \<Rightarrow> int \<Rightarrow> SpanInfo" where
  "sample_span i out =
     \<lparr>si_span_id = [], si_trace_id = [], si_parent_id = [], si_project_id = [], si_name = [], si_kind = [],
      si_model = None, si_start_time = [], si_end_time = [], si_cost_usd = Fin 0,
      si_input_tokens = num_of_int i, si_output_tokens = num_of_int out, si_input = None, si_output = None,
      si_status_code = None, si_scores = None, si_attributes = None\<rparr>"


text \<open>
  Annotating keeps the tree: the same spans in the same order, and every node carries the totals that
  annotating its own subtree would give.
\<close>

theorem rollup_keeps_tree:
  "map fst (ann_subtree (annotateSpanTree t)) = subtree t \<and>
   map snd (ann_subtree (annotateSpanTree t)) = map (\<lambda>u. ann_rollup (annotateSpanTree u)) (subspans t)"
proof (induction t)
  case (Span s cs)
  then show ?case
    by (cases cs) (auto simp: Let_def map_concat o_def cong: map_cong)
qed

end
