(* ===== verification/SpanMessages.thy ===== *)
theory SpanMessages
  imports JsConvert
begin

text \<open>
  \<open>ui/src/utils/spanMessages.ts\<close>: chat messages and tool calls read off a span's attributes. What
  \<open>JSON.parse\<close> returns is not checked by the code, so the fields hold arbitrary JSON values and every
  access that can throw is one. The texts drawn with \<open>Math.random\<close> are \<open>rnd 0, rnd 1, \<dots>\<close>.
\<close>

record ChatMessage =
  cm_role :: "json option"
  cm_content :: "json option"

record ToolCall =
  tc_id :: "json option"
  tc_type :: "json option"
  tc_function :: "json option"
  tc_input :: "jsstring option"
  tc_output :: "json option"

record SpanMessages =
  sm_messages :: "ChatMessage list option"
  sm_toolCalls :: "ToolCall list option"
  sm_raw :: attrs

text \<open>\<open>None\<close> is \<open>null\<close>; a parsed \<open>null\<close> is handled like a failure by every caller.\<close>

definition tryParseJson :: "jsstring \<Rightarrow> json option" where
  "tryParseJson raw = (case JSON_parse raw of Inr v \<Rightarrow> Some v | Inl _ \<Rightarrow> None)"

section \<open>Numbered attributes\<close>

text \<open>Indices are numbers: \<open>parseInt\<close> rounds long digit strings.\<close>

definition matchNumberedKey :: "jsstring \<Rightarrow> jsstring \<Rightarrow> jsnum option" where
  "matchNumberedKey key pre =
     (if \<not> starts_with key (pre @ js ''.'') then None
      else let rest = drop (length pre + 1) key
           in case index_of rest (js ''.'') of
                None \<Rightarrow> None
              | Some dot \<Rightarrow>
                  let numStr = take dot rest
                  in if numStr \<noteq> [] \<and> list_all is_digit_unit numStr
                     then Some (to_double (of_nat (nat_of_digits numStr))) else None)"

text \<open>\<open>sort((a, b) => a - b)\<close> on distinct numbers, none of them \<open>NaN\<close>.\<close>

fun insert_num :: "jsnum \<Rightarrow> jsnum list \<Rightarrow> jsnum list" where
  "insert_num x [] = [x]"
| "insert_num x (y # ys) = (if num_lt x y then x # y # ys else y # insert_num x ys)"

definition sort_nums :: "jsnum list \<Rightarrow> jsnum list" where
  "sort_nums xs = foldr insert_num xs []"

definition numbered_indices :: "attrs \<Rightarrow> jsstring \<Rightarrow> jsnum list" where
  "numbered_indices attrs pre = remdups (List.map_filter (\<lambda>(k, _). matchNumberedKey k pre) attrs)"

definition numbered_key :: "jsstring \<Rightarrow> jsnum \<Rightarrow> string \<Rightarrow> jsstring" where
  "numbered_key pre i field = pre @ js ''.'' @ num_to_string i @ js ''.'' @ js field"

definition numbered_message :: "attrs \<Rightarrow> jsstring \<Rightarrow> jsnum \<Rightarrow> ChatMessage option" where
  "numbered_message attrs pre i =
     (case (map_of attrs (numbered_key pre i ''role''), map_of attrs (numbered_key pre i ''content'')) of
        (Some (JStr r), Some (JStr c)) \<Rightarrow> Some \<lparr>cm_role = Some (JStr r), cm_content = Some (JStr c)\<rparr>
      | _ \<Rightarrow> None)"

definition extractNumberedMessages :: "attrs \<Rightarrow> jsstring \<Rightarrow> ChatMessage list" where
  "extractNumberedMessages attrs pre =
     List.map_filter (numbered_message attrs pre) (sort_nums (numbered_indices attrs pre))"

definition mergeMessageArrays :: "ChatMessage list \<Rightarrow> ChatMessage list \<Rightarrow> ChatMessage list" where
  "mergeMessageArrays prompt completion = prompt @ completion"

section \<open>The Laminar shape\<close>

text \<open>Messages and tool calls so far, and the number of identifiers drawn.\<close>

record lmnr_state =
  ls_messages :: "ChatMessage list"
  ls_toolCalls :: "ToolCall list"
  ls_drawn :: nat

definition push_message :: "json option \<Rightarrow> json option \<Rightarrow> lmnr_state \<Rightarrow> lmnr_state" where
  "push_message role content st =
     st\<lparr>ls_messages := ls_messages st @ [\<lparr>cm_role = role, cm_content = content\<rparr>]\<rparr>"

text \<open>\<open>v != null && v !== ""\<close>\<close>

definition has_content :: "json option \<Rightarrow> bool" where
  "has_content v \<longleftrightarrow> \<not> nullish v \<and> v \<noteq> Some (JStr [])"

text \<open>\<open>typeof v === "string" ? v : JSON.stringify(v)\<close>, which is \<open>undefined\<close> for \<open>undefined\<close>.\<close>

definition text_of :: "json option \<Rightarrow> jsstring option" where
  "text_of v = (case v of None \<Rightarrow> None | Some (JStr s) \<Rightarrow> Some s | Some j \<Rightarrow> Some (JSON_stringify j))"

text \<open>A call goes in when it has a function and \<open>tc.input != null || tc.input !== ""\<close>.\<close>

definition call_wanted :: "json \<Rightarrow> (js_error, bool) result" where
  "call_wanted tc =
     and_then (get_prop tc ''function'') (\<lambda>f.
       Inr (truthy_opt f \<and> (\<not> nullish (get_prop_opt tc ''input'') \<or> get_prop_opt tc ''input'' \<noteq> Some (JStr []))))"

definition tool_call :: "json \<Rightarrow> json option \<Rightarrow> json option \<Rightarrow> ToolCall" where
  "tool_call tc ident out =
     \<lparr>tc_id = ident, tc_type = or_else (get_prop_opt tc ''type'') (Some (JStr (js ''function''))),
      tc_function = get_prop_opt tc ''function'', tc_input = text_of (get_prop_opt tc ''input''),
      tc_output = out\<rparr>"

definition push_call :: "ToolCall \<Rightarrow> lmnr_state \<Rightarrow> lmnr_state" where
  "push_call c st = st\<lparr>ls_toolCalls := ls_toolCalls st @ [c]\<rparr>"

definition prompt_call :: "json \<Rightarrow> lmnr_state \<Rightarrow> (js_error, lmnr_state) result" where
  "prompt_call tc st =
     and_then (call_wanted tc) (\<lambda>w. Inr
       (if w then push_call (tool_call tc (or_else (get_prop_opt tc ''id'') (Some (JStr []))) None) st else st))"

text \<open>\<open>tc.id ?? `lc_${Math.random()\<dots>}`\<close>: the draw happens when the identifier is missing.\<close>

definition drawn_id :: "(nat \<Rightarrow> jsstring) \<Rightarrow> string \<Rightarrow> json \<Rightarrow> nat \<Rightarrow> json option \<times> nat" where
  "drawn_id rnd tag tc n =
     (if nullish (get_prop_opt tc ''id'') then (Some (JStr (js tag @ rnd n)), Suc n)
      else (get_prop_opt tc ''id'', n))"

definition push_drawn ::
    "(nat \<Rightarrow> jsstring) \<Rightarrow> json \<Rightarrow> json option \<Rightarrow> lmnr_state \<Rightarrow> lmnr_state" where
  "push_drawn rnd tc out st =
     (let (i, n) = drawn_id rnd ''lc_'' tc (ls_drawn st)
      in push_call (tool_call tc i out) (st\<lparr>ls_drawn := n\<rparr>))"

definition completion_call ::
    "(nat \<Rightarrow> jsstring) \<Rightarrow> json \<Rightarrow> lmnr_state \<Rightarrow> (js_error, lmnr_state) result" where
  "completion_call rnd tc st =
     and_then (call_wanted tc) (\<lambda>w. Inr (if w then push_drawn rnd tc None st else st))"

text \<open>The calls of a message: \<open>if (msg.tool_calls) for (const tc of msg.tool_calls)\<close>.\<close>

definition each_call ::
    "(json \<Rightarrow> lmnr_state \<Rightarrow> (js_error, lmnr_state) result) \<Rightarrow> json \<Rightarrow> lmnr_state \<Rightarrow>
     (js_error, lmnr_state) result" where
  "each_call f msg st =
     (let calls = get_prop_opt msg ''tool_calls''
      in if truthy_opt calls then and_then (iterate (the calls)) (\<lambda>tcs. fold_result f tcs st) else Inr st)"

definition prompt_message :: "json \<Rightarrow> lmnr_state \<Rightarrow> (js_error, lmnr_state) result" where
  "prompt_message msg st =
     and_then (get_prop msg ''content'') (\<lambda>content.
       each_call prompt_call msg
         (if has_content content then push_message (get_prop_opt msg ''role'') content st else st))"

text \<open>The call a tool result belongs to gets the result as its output.\<close>

definition tool_result_id :: "json option \<Rightarrow> json option" where
  "tool_result_id content =
     (case to_text_opt content of
        Inl _ \<Rightarrow> None
      | Inr s \<Rightarrow> Option.bind (tryParseJson s) (\<lambda>v.
          let i = get_prop_opt v ''tool_call_id'' in if truthy_opt i then i else None))"

definition associate :: "json option \<Rightarrow> lmnr_state \<Rightarrow> lmnr_state" where
  "associate content st =
     (case tool_result_id content of
        None \<Rightarrow> st
      | Some i \<Rightarrow> st\<lparr>ls_toolCalls :=
          update_first (\<lambda>t. strict_eq_opt (tc_id t) (Some i)) (\<lambda>t. t\<lparr>tc_output := content\<rparr>) (ls_toolCalls st)\<rparr>)"

definition completion_message ::
    "(nat \<Rightarrow> jsstring) \<Rightarrow> json \<Rightarrow> lmnr_state \<Rightarrow> (js_error, lmnr_state) result" where
  "completion_message rnd msg st =
     and_then (get_prop msg ''role'') (\<lambda>role.
       let content = get_prop_opt msg ''content'';
           assistant = (role = Some (JStr (js ''assistant'')));
           st1 = (if assistant \<and> has_content content then push_message role content st else st)
       in and_then (if assistant then each_call (completion_call rnd) msg st1 else Inr st1) (\<lambda>st2. Inr
            (if role = Some (JStr (js ''tool'')) \<and> has_content content
             then associate content (push_message (Some (JStr (js ''tool''))) content st2) else st2)))"

definition standalone_call ::
    "(nat \<Rightarrow> jsstring) \<Rightarrow> json \<Rightarrow> lmnr_state \<Rightarrow> (js_error, lmnr_state) result" where
  "standalone_call rnd tc st =
     and_then (call_wanted tc) (\<lambda>w. Inr
       (if w then push_drawn rnd tc
           (if nullish (get_prop_opt tc ''output'') then None
            else map_option JStr (text_of (get_prop_opt tc ''output''))) st
        else st))"

text \<open>
  \<open>tryParseLmnrMessageArray\<close>, \<open>if (parsed)\<close>, and the loop: a value that is not a string, does not parse
  or is falsy is skipped; one that is neither an array nor a string makes the loop throw.
\<close>

definition tryParseLmnrArray :: "json \<Rightarrow> json option" where
  "tryParseLmnrArray raw = (case raw of JStr s \<Rightarrow> tryParseJson s | _ \<Rightarrow> None)"

definition each_parsed ::
    "(json \<Rightarrow> lmnr_state \<Rightarrow> (js_error, lmnr_state) result) \<Rightarrow> attrs \<Rightarrow> string \<Rightarrow> lmnr_state \<Rightarrow>
     (js_error, lmnr_state) result" where
  "each_parsed f attrs key st =
     (let parsed = Option.bind (map_of attrs (js key)) tryParseLmnrArray
      in if truthy_opt parsed then and_then (iterate (the parsed)) (\<lambda>xs. fold_result f xs st) else Inr st)"

definition lmnr_start :: lmnr_state where
  "lmnr_start = \<lparr>ls_messages = [], ls_toolCalls = [], ls_drawn = 0\<rparr>"

definition extractLmnrShape ::
    "(nat \<Rightarrow> jsstring) \<Rightarrow> attrs \<Rightarrow> (js_error, lmnr_state option) result" where
  "extractLmnrShape rnd attrs =
     and_then (each_parsed prompt_message attrs ''lmnr.prompt'' lmnr_start) (\<lambda>st1.
     and_then (each_parsed (completion_message rnd) attrs ''lmnr.completion'' st1) (\<lambda>st2.
     and_then (each_parsed (standalone_call rnd) attrs ''lmnr.tool_calls'' st2) (\<lambda>st3. Inr
       (if ls_messages st3 = [] \<and> ls_toolCalls st3 = [] then None else Some st3))))"

section \<open>The extractor\<close>

definition found_messages :: "attrs \<Rightarrow> string list \<Rightarrow> ChatMessage list" where
  "found_messages attrs ps = concat (map (\<lambda>p. extractNumberedMessages attrs (js p)) ps)"

definition numbered_messages :: "attrs \<Rightarrow> ChatMessage list option" where
  "numbered_messages attrs =
     (let allPrompt = found_messages attrs [''gen_ai.prompt'', ''llm.prompt''];
          allCompletion = found_messages attrs [''gen_ai.completion'', ''llm.completion'']
      in if allPrompt \<noteq> [] \<or> allCompletion \<noteq> [] then Some (mergeMessageArrays allPrompt allCompletion) else None)"

text \<open>One element of an array under \<open>gen_ai.usage.tool_calls\<close> or \<open>tool_call\<close>.\<close>

definition mapped_call :: "(nat \<Rightarrow> jsstring) \<Rightarrow> string \<Rightarrow> json \<Rightarrow> ToolCall list \<times> nat \<Rightarrow>
    (js_error, ToolCall list \<times> nat) result" where
  "mapped_call rnd tag tc acc =
     and_then (get_prop tc ''id'') (\<lambda>_.
       let (i, n) = drawn_id rnd tag tc (snd acc)
       in Inr (fst acc @ [\<lparr>tc_id = i,
             tc_type = or_else (get_prop_opt tc ''type'') (Some (JStr (js ''function''))),
             tc_function = or_else (get_prop_opt tc ''function'') (Some (JStr [])),
             tc_input = (if nullish (get_prop_opt tc ''input'') then Some [] else text_of (get_prop_opt tc ''input'')),
             tc_output = None\<rparr>], n))"

definition array_calls ::
    "(nat \<Rightarrow> jsstring) \<Rightarrow> attrs \<Rightarrow> string \<Rightarrow> string \<Rightarrow> nat \<Rightarrow> (js_error, ToolCall list option \<times> nat) result" where
  "array_calls rnd attrs key tag n =
     (case Option.bind (map_of attrs (js key)) tryParseLmnrArray of
        Some (JArr (x # xs)) \<Rightarrow>
          and_then (fold_result (mapped_call rnd tag) (x # xs) ([], n)) (\<lambda>(cs, n). Inr (Some cs, n))
      | _ \<Rightarrow> Inr (None, n))"

definition extractSpanMessages :: "(nat \<Rightarrow> jsstring) \<Rightarrow> attrs \<Rightarrow> (js_error, SpanMessages) result" where
  "extractSpanMessages rnd attrs =
     and_then (extractLmnrShape rnd attrs) (\<lambda>lmnr.
       case lmnr of
         Some st \<Rightarrow> Inr \<lparr>sm_messages = Some (ls_messages st), sm_toolCalls = Some (ls_toolCalls st), sm_raw = attrs\<rparr>
       | None \<Rightarrow>
           and_then (array_calls rnd attrs ''gen_ai.usage.tool_calls'' ''lc_'' 0) (\<lambda>(calls, n).
           and_then (case calls of None \<Rightarrow> array_calls rnd attrs ''tool_call'' ''tc_'' n
                     | Some _ \<Rightarrow> Inr (calls, n)) (\<lambda>(calls, _).
             Inr \<lparr>sm_messages = numbered_messages attrs, sm_toolCalls = calls, sm_raw = attrs\<rparr>)))"

section \<open>Properties\<close>

lemma index_of_free: "c \<notin> set a \<Longrightarrow> index_of (a @ c # b) [c] = Some (length a)"
  by (induction a) (auto simp: starts_with_def)

lemma js_dot: "js ''.'' = [0x2E]"
  by (simp add: js_def)

lemma dec_nat_no_dot: "0x2E \<notin> set (dec_nat n)"
  using dec_nat_digits by (fastforce simp: is_digit_unit_def)

lemma num_to_string_nat: "n < 2 ^ 53 \<Longrightarrow> num_to_string (num_of_int (int n)) = dec_nat n"
  using num_to_string_int [of "int n"] by (simp add: dec_int_def del: num_to_string.simps of_int_of_nat_eq)

lemma numbered_key_nat:
  "n < 2 ^ 53 \<Longrightarrow> numbered_key pre (num_of_int (int n)) f = pre @ [0x2E] @ dec_nat n @ [0x2E] @ js f"
  by (simp only: numbered_key_def num_to_string_nat js_dot)

lemma matchNumberedKey_key:
  assumes "n < 2 ^ 53"
  shows "matchNumberedKey (numbered_key pre (num_of_int (int n)) f) pre = Some (num_of_int (int n))"
proof -
  let ?k = "pre @ [0x2E] @ dec_nat n @ [0x2E] @ js f"
  have "starts_with ?k (pre @ [0x2E])" by (simp add: starts_with_def)
  moreover have "drop (length pre + 1) ?k = dec_nat n @ 0x2E # js f" by simp
  moreover have "list_all is_digit_unit (dec_nat n)" by (auto simp: list_all_iff dest: dec_nat_digits)
  moreover have "to_double (rat_of_nat n) = num_of_int (int n)"
    using to_double_int [of "int n"] assms by simp
  ultimately show ?thesis
    unfolding numbered_key_nat [OF assms] matchNumberedKey_def js_dot
    by (simp add: index_of_free dec_nat_no_dot Let_def)
qed

lemma sort_nums_int:
  assumes "distinct xs" and "set xs = num_of_int ` int ` {0..<n}"
  shows "sort_nums xs = map (\<lambda>i. num_of_int (int i)) [0..<n]"
proof -
  have ins: "insert_num (num_of_int a) (map num_of_int bs) = map num_of_int (insort a bs)"
    if "a \<notin> set bs" for a bs
    using that by (induction bs) auto
  have sort: "sort_nums (map num_of_int as) = map num_of_int (sort as)" if "distinct as" for as
    using that
  proof (induction as)
    case (Cons a as)
    then show ?case using ins [of a "sort as"] by (simp add: sort_nums_def)
  qed (simp add: sort_nums_def)
  define as where "as = map (\<lambda>x. case x of Fin q \<Rightarrow> \<lfloor>q\<rfloor> | _ \<Rightarrow> 0) xs"
  have as: "xs = map num_of_int as"
    unfolding as_def map_map by (rule map_idI [symmetric]) (use assms(2) in auto)
  have inj: "inj num_of_int" by (rule injI) simp
  have "set as = int ` {0..<n}"
    using assms(2) inj unfolding as set_map by (simp add: inj_image_eq_iff)
  moreover have "distinct as" using assms(1) as by (simp add: distinct_map)
  ultimately have "sort as = map int [0..<n]"
    by (intro sorted_distinct_set_unique) (simp_all add: distinct_map sorted_map)
  with sort [OF \<open>distinct as\<close>] show ?thesis by (simp add: as)
qed

text \<open>The attributes an instrumentation writes for a list of messages, as role and content.\<close>

definition numbered_attrs :: "jsstring \<Rightarrow> (jsstring \<times> jsstring) list \<Rightarrow> attrs" where
  "numbered_attrs pre ms =
     concat (map (\<lambda>i. [(numbered_key pre (num_of_int (int i)) ''role'', JStr (fst (ms ! i))),
                      (numbered_key pre (num_of_int (int i)) ''content'', JStr (snd (ms ! i)))])
       [0..<length ms])"

definition text_message :: "jsstring \<times> jsstring \<Rightarrow> ChatMessage" where
  "text_message m = \<lparr>cm_role = Some (JStr (fst m)), cm_content = Some (JStr (snd m))\<rparr>"

lemma numbered_attrs_mem:
  "(k, v) \<in> set (numbered_attrs pre ms) \<longleftrightarrow>
   (\<exists>i<length ms. (k = numbered_key pre (num_of_int (int i)) ''role'' \<and> v = JStr (fst (ms ! i))) \<or>
                  (k = numbered_key pre (num_of_int (int i)) ''content'' \<and> v = JStr (snd (ms ! i))))"
  by (auto simp: numbered_attrs_def simp del: of_int_of_nat_eq)

lemma numbered_indices_attrs:
  assumes "set attrs = set (numbered_attrs pre ms) \<union> others"
    and "\<forall>(k, v) \<in> others. \<not> starts_with k (pre @ js ''.'')" and "length ms < 2 ^ 53"
  shows "set (numbered_indices attrs pre) = num_of_int ` int ` {0..<length ms}"
proof -
  have other: "matchNumberedKey k pre = None" if "(k, v) \<in> others" for k v
    using assms(2) that by (auto simp: matchNumberedKey_def)
  have own: "matchNumberedKey (numbered_key pre (num_of_int (int i)) f) pre = Some (num_of_int (int i))"
    if "i < length ms" for i f
    using matchNumberedKey_key [of i] that assms(3) by simp
  show ?thesis
  proof (intro subset_antisym subsetI)
    fix y assume "y \<in> set (numbered_indices attrs pre)"
    then obtain k v where "(k, v) \<in> set attrs" "matchNumberedKey k pre = Some y"
      by (auto simp: numbered_indices_def in_set_map_filter)
    then obtain i f where "i < length ms" "k = numbered_key pre (num_of_int (int i)) f"
      using other [of k v] unfolding assms(1) Un_iff numbered_attrs_mem by auto
    with own \<open>matchNumberedKey k pre = Some y\<close> have "y = num_of_int (int i)" by simp
    then show "y \<in> num_of_int ` int ` {0..<length ms}"
      using \<open>i < length ms\<close> by (intro image_eqI [OF _ image_eqI [OF refl]]) simp_all
  next
    fix y assume "y \<in> num_of_int ` int ` {0..<length ms}"
    then obtain i where i: "i < length ms" "y = num_of_int (int i)" by auto
    then have "(numbered_key pre (num_of_int (int i)) ''role'', JStr (fst (ms ! i))) \<in> set attrs"
      unfolding assms(1) Un_iff numbered_attrs_mem by blast
    with own i show "y \<in> set (numbered_indices attrs pre)"
      unfolding numbered_indices_def set_remdups in_set_map_filter by (intro bexI) auto
  qed
qed

text \<open>
  C40: messages written as numbered attributes come back in the order of their numbers, whatever the order
  of the attributes and whatever else is among them: ten comes after nine.
\<close>

theorem numbered_roundtrip:
  assumes "set attrs = set (numbered_attrs pre ms) \<union> others" and "distinct (map fst attrs)"
    and "\<forall>(k, v) \<in> others. \<not> starts_with k (pre @ js ''.'')" and "length ms < 2 ^ 53"
  shows "extractNumberedMessages attrs pre = map text_message ms"
proof -
  have sorted: "sort_nums (numbered_indices attrs pre) = map (\<lambda>i. num_of_int (int i)) [0..<length ms]"
    using numbered_indices_attrs [OF assms(1,3,4)]
    by (intro sort_nums_int) (simp_all add: numbered_indices_def)
  have "numbered_message attrs pre (num_of_int (int i)) = Some (text_message (ms ! i))" if "i < length ms" for i
  proof -
    have "(numbered_key pre (num_of_int (int i)) ''role'', JStr (fst (ms ! i))) \<in> set attrs"
      "(numbered_key pre (num_of_int (int i)) ''content'', JStr (snd (ms ! i))) \<in> set attrs"
      using that by (auto simp: assms(1) numbered_attrs_def simp del: of_int_of_nat_eq)
    then show ?thesis
      using assms(2) by (simp add: numbered_message_def text_message_def del: of_int_of_nat_eq)
  qed
  then have "List.map_filter (numbered_message attrs pre) (map (\<lambda>i. num_of_int (int i)) [0..<length ms]) =
      map (\<lambda>i. text_message (ms ! i)) [0..<length ms]"
    by (simp add: List.map_filter_def o_def filter_id_conv cong: map_cong)
  then show ?thesis
    by (simp only: extractNumberedMessages_def sorted) (rule nth_equalityI; simp)
qed

lemma numbered_roundtrip_witness:
  "extractNumberedMessages
     [(js ''p.10.x'', JNull), (js ''q.1.content'', JStr (js ''B'')), (js ''q.0.role'', JStr (js ''user'')),
      (js ''q.1.role'', JStr (js ''assistant'')), (js ''q.0.content'', JStr (js ''A''))] (js ''q'') =
   map text_message [(js ''user'', js ''A''), (js ''assistant'', js ''B'')]"
proof -
  have digit: "dec_nat 0 = [0x30]" "dec_nat (Suc 0) = [0x31]"
    by (simp_all add: dec_nat_def radix_nat_less digit_unit_def)
  have keys: "numbered_key (js ''q'') (num_of_int (int n)) f = js ''q'' @ [0x2E] @ dec_nat n @ [0x2E] @ js f"
    if "n < 2" for n f
    by (rule numbered_key_nat) (use that in simp)
  have q01: "numbered_key (js ''q'') (Fin 0) f = js (''q.0.'' @ f)" "numbered_key (js ''q'') (Fin 1) f = js (''q.1.'' @ f)" for f
    using keys [of 0 f] keys [of 1 f] by (simp_all add: digit js_def)
  have "numbered_attrs (js ''q'') [(js ''user'', js ''A''), (js ''assistant'', js ''B'')] =
      [(js ''q.0.role'', JStr (js ''user'')), (js ''q.0.content'', JStr (js ''A'')),
       (js ''q.1.role'', JStr (js ''assistant'')), (js ''q.1.content'', JStr (js ''B''))]"
    unfolding numbered_attrs_def by (simp add: upt_rec q01)
  note attrs = this
  show ?thesis
    by (rule numbered_roundtrip [where others = "{(js ''p.10.x'', JNull)}"])
       (auto simp: attrs simp flip: js_append)
qed

text \<open>
  An attribute \<open>lmnr.prompt\<close> that is valid JSON but neither an array nor a string makes the extractor
  throw, although the parse helpers report every failure as \<open>null\<close>.
\<close>

theorem lmnr_needs_iterable:
  assumes "map_of attrs (js ''lmnr.prompt'') = Some (JStr s)" and "JSON_parse s = Inr v" and "truthy v"
    and "\<forall>xs. v \<noteq> JArr xs" and "\<forall>t. v \<noteq> JStr t"
  shows "extractSpanMessages rnd attrs = Inl (TypeError ''not iterable'')"
proof -
  have "iterate v = Inl (TypeError ''not iterable'')"
    using assms(4,5) by (cases v) auto
  then show ?thesis
    using assms(1-3)
    by (simp add: extractSpanMessages_def extractLmnrShape_def each_parsed_def tryParseLmnrArray_def tryParseJson_def)
qed

lemma lmnr_needs_iterable_witness:
  "\<forall>rnd. extractSpanMessages rnd [(js ''lmnr.prompt'', JStr (js ''{}''))] = Inl (TypeError ''not iterable'')"
proof -
  have "JSON_parse (js ''{}'') = Inr (JObj [])" by code_simp
  then show ?thesis using lmnr_needs_iterable [of _ "js ''{}''" "JObj []"] by simp
qed

text \<open>
  A Laminar span with tool calls but no text shows an empty conversation even when the numbered
  attributes hold one: they are read only when the Laminar shape found nothing.
\<close>

theorem lmnr_hides_numbered:
  assumes "extractLmnrShape rnd attrs = Inr (Some st)" and "ls_messages st = []"
  shows "\<exists>r. extractSpanMessages rnd attrs = Inr r \<and> sm_messages r = Some [] \<and>
    sm_toolCalls r = Some (ls_toolCalls st)"
  using assms by (simp add: extractSpanMessages_def)

end
