(* ===== verification/View.thy ===== *)
theory View
  imports JsConvert
begin

text \<open>
  What a React component renders, as far as a user can tell: elements with their tag, the properties
  that carry behaviour (value, type, placeholder, title, labels, disabled), texts, children, and the
  handlers, each with the message it sends to the component's owner. Class names, inline styles, hover
  effects and drawings are left out.
\<close>

datatype prop_value = PStr jsstring | PNum jsnum | PBool bool

datatype 'm handler =
    OnClick 'm
  | OnChange "jsstring \<Rightarrow> 'm option"
  | OnToggle 'm
  | OnKeyDown "jsstring \<Rightarrow> 'm option"
  | OnSubmit 'm

datatype 'm view =
    Text jsstring
  | Elem (tag: string) (props: "(string \<times> prop_value) list") (handlers: "'m handler list")
      (kids: "'m view list")

abbreviation tx :: "string \<Rightarrow> 'm view" where
  "tx s \<equiv> Text (js s)"

abbreviation pstr :: "string \<Rightarrow> prop_value" where
  "pstr s \<equiv> PStr (js s)"

text \<open>\<open>{c && v}\<close>\<close>

definition shown :: "bool \<Rightarrow> 'm view list \<Rightarrow> 'm view list" where
  "shown c vs = (if c then vs else [])"

definition box :: "'m view list \<Rightarrow> 'm view" where
  "box vs = Elem ''div'' [] [] vs"

definition para :: "'m view list \<Rightarrow> 'm view" where
  "para vs = Elem ''p'' [] [] vs"

definition inline :: "'m view list \<Rightarrow> 'm view" where
  "inline vs = Elem ''span'' [] [] vs"

definition button :: "'m \<Rightarrow> 'm view list \<Rightarrow> 'm view" where
  "button m vs = Elem ''button'' [] [OnClick m] vs"

definition button_with :: "(string \<times> prop_value) list \<Rightarrow> 'm \<Rightarrow> 'm view list \<Rightarrow> 'm view" where
  "button_with ps m vs = Elem ''button'' ps [OnClick m] vs"

definition option_tag :: "jsstring \<Rightarrow> jsstring \<Rightarrow> 'm view" where
  "option_tag v label = Elem ''option'' [(''value'', PStr v)] [] [Text label]"

section \<open>What a user can do\<close>

text \<open>
  The values a \<open>select\<close> can be changed to are those of its options; an \<open>input\<close> or \<open>textarea\<close> takes any
  text. A disabled element sends nothing.
\<close>

fun option_values :: "'m view list \<Rightarrow> jsstring list" where
  "option_values [] = []"
| "option_values (Elem t ps hs ks # vs) =
     (if t = ''option'' \<and> map_of ps ''disabled'' \<noteq> Some (PBool True)
      then (case map_of ps ''value'' of Some (PStr v) \<Rightarrow> [v] | Some (PNum n) \<Rightarrow> [num_to_string n] | _ \<Rightarrow> [])
      else []) @ option_values vs"
| "option_values (Text s # vs) = option_values vs"

fun sends :: "string \<Rightarrow> 'm view list \<Rightarrow> 'm handler \<Rightarrow> 'm set" where
  "sends t ks (OnClick m) = {m}"
| "sends t ks (OnChange f) =
     (if t = ''select'' then {m. \<exists>v \<in> set (option_values ks). f v = Some m} else {m. \<exists>v. f v = Some m})"
| "sends t ks (OnToggle m) = {m}"
| "sends t ks (OnKeyDown f) = {m. \<exists>k. f k = Some m}"
| "sends t ks (OnSubmit m) = {m}"

fun emits :: "'m view \<Rightarrow> 'm set" where
  "emits (Text s) = {}"
| "emits (Elem t ps hs ks) =
     (if map_of ps ''disabled'' = Some (PBool True) then {} else \<Union> (sends t ks ` set hs)) \<union>
     \<Union> (emits ` set ks)"

text \<open>The visible text, in order.\<close>

fun view_texts :: "'m view \<Rightarrow> jsstring list" where
  "view_texts (Text s) = [s]"
| "view_texts (Elem t ps hs ks) = concat (map view_texts ks)"

definition emits_all :: "'m view list \<Rightarrow> 'm set" where
  "emits_all vs = \<Union> (emits ` set vs)"

lemma emits_all_simps [simp]:
  "emits_all [] = {}" "emits_all (v # vs) = emits v \<union> emits_all vs"
  "emits_all (vs @ ws) = emits_all vs \<union> emits_all ws"
  "emits_all (shown c vs) = (if c then emits_all vs else {})"
  by (auto simp: emits_all_def shown_def)

lemma emits_Elem:
  "emits (Elem t ps hs ks) =
     (if map_of ps ''disabled'' = Some (PBool True) then {} else \<Union> (sends t ks ` set hs)) \<union> emits_all ks"
  by (simp add: emits_all_def)

lemma emits_simps [simp]:
  "emits (box vs) = emits_all vs" "emits (para vs) = emits_all vs" "emits (inline vs) = emits_all vs"
  "emits (button m vs) = insert m (emits_all vs)"
  "emits (option_tag v l) = {}"
  by (auto simp: box_def para_def inline_def button_def option_tag_def emits_all_def)

lemma emits_button_with [simp]:
  "map_of ps ''disabled'' \<noteq> Some (PBool True) \<Longrightarrow> emits (button_with ps m vs) = insert m (emits_all vs)"
  "map_of ps ''disabled'' = Some (PBool True) \<Longrightarrow> emits (button_with ps m vs) = emits_all vs"
  by (simp_all add: button_with_def emits_all_def)

declare emits.simps(2) [simp del]
lemmas emits_Elem [simp]

lemma option_values_append: "option_values (vs @ ws) = option_values vs @ option_values ws"
  by (induction vs rule: option_values.induct) auto

lemma option_values_map [simp]:
  "option_values (map (\<lambda>x. option_tag (v x) (l x)) xs) = map v xs"
  "option_values (option_tag w k # vs) = w # option_values vs"
  by (induction xs) (simp_all add: option_tag_def)

lemma emits_all_options [simp]: "emits_all (map (\<lambda>x. option_tag (v x) (l x)) xs) = {}"
  by (auto simp: emits_all_def)

lemma emits_all_map: "emits_all (map f xs) = (\<Union>x\<in>set xs. emits (f x))"
  by (simp add: emits_all_def)

lemma emits_map_result:
  "map_result f xs = Inr vs \<Longrightarrow> (\<And>x w. x \<in> set xs \<Longrightarrow> f x = Inr w \<Longrightarrow> emits w \<subseteq> M) \<Longrightarrow> emits_all vs \<subseteq> M"
proof (induction xs arbitrary: vs)
  case (Cons x xs)
  then obtain w ws where ws: "f x = Inr w" "map_result f xs = Inr ws" "vs = w # ws"
    by (auto simp: and_then_Inr_iff)
  have "emits_all ws \<subseteq> M" by (rule Cons.IH [OF ws(2)]) (rule Cons.prems(2); simp)
  moreover have "emits w \<subseteq> M" by (rule Cons.prems(2) [OF _ ws(1)]) simp
  ultimately show ?case by (simp add: ws(3))
qed simp

text \<open>A child's messages wrapped by its parent.\<close>

lemma option_values_map_view [simp]: "option_values (map (map_view f) ks) = option_values ks"
  by (induction ks rule: option_values.induct) auto

lemma sends_map: "sends t (map (map_view f) ks) (map_handler f h) = f ` sends t ks h"
  by (cases h) (auto simp: image_iff Bex_def)

lemma emits_map_view: "emits (map_view f v) = f ` emits v"
proof (induction v)
  case (Elem t ps hs ks)
  then have "emits_all (map (map_view f) ks) = f ` emits_all ks"
    by (auto simp: emits_all_def)
  then show ?case by (auto simp: sends_map image_UN image_Un)
qed simp

end
