(* ===== verification/FilterGroup.thy ===== *)
theory FilterGroup
  imports View
begin

text \<open>
  \<open>ui/src/components/FilterGroup.tsx\<close>: the editor for the filter of an eval rule. A filter is a tree; the
  component renders it recursively, and every control reports the whole new filter to its owner, so
  the messages of the view are filters.
\<close>

section \<open>Filters\<close>

text \<open>
  The leaf fields of a node are kept as the object they are (\<open>in\<close> and \<open>delete\<close> observe which are present);
  \<open>and\<close>, \<open>or\<close> and \<open>not\<close> apart. The key of a group can be absent, or present with \<open>undefined\<close>.
\<close>

datatype 'a group = NoKey | Undef | Subs "'a list"

datatype EvalFilter =
  EvalFilter (fields: attrs) (and_of: "EvalFilter group") (or_of: "EvalFilter group")
    (not_of: "EvalFilter option")

fun members :: "'a group \<Rightarrow> 'a list" where
  "members (Subs xs) = xs" | "members _ = []"

definition SPAN_KINDS :: "(string \<times> string) list" where
  "SPAN_KINDS = [(''llm'', ''LLM''), (''tool'', ''Tool''), (''agent'', ''Agent''), (''chain'', ''Chain''),
     (''internal'', ''Internal'')]"

definition STATUS_CODES :: "string list" where
  "STATUS_CODES = [''OK'', ''ERROR'', ''CANCELLED'', ''UNKNOWN'']"

definition LEAF_CONDITIONS :: "(string \<times> string) list" where
  "LEAF_CONDITIONS =
     [(''kind'', ''Span Kind''), (''model'', ''Model''), (''service_name'', ''Service Name''),
      (''status_code'', ''Status Code''), (''min_cost_usd'', ''Min Cost ($)''),
      (''max_cost_usd'', ''Max Cost ($)''), (''min_duration_ms'', ''Min Duration (ms)''),
      (''max_duration_ms'', ''Max Duration (ms)'')]"

definition leaf_keys :: "jsstring list" where
  "leaf_keys = map (\<lambda>(k, _). js k) LEAF_CONDITIONS"

definition createEmptyFilter :: EvalFilter where
  "createEmptyFilter = EvalFilter [] NoKey NoKey None"

definition activeLeaf :: "EvalFilter \<Rightarrow> jsstring option" where
  "activeLeaf f = List.find (\<lambda>k. k \<in> fst ` set (fields f)) leaf_keys"

text \<open>The other leaf fields are deleted, so one condition is active at a time.\<close>

definition withField :: "EvalFilter \<Rightarrow> jsstring \<Rightarrow> json \<Rightarrow> EvalFilter" where
  "withField f key v =
     EvalFilter (obj_put key v (filter (\<lambda>(k, _). k \<notin> set leaf_keys \<or> k = key) (fields f)))
       (and_of f) (or_of f) (not_of f)"

section \<open>Leaf conditions\<close>

definition Field :: "string \<Rightarrow> 'm view \<Rightarrow> 'm view" where
  "Field label child = box [Elem ''label'' [] [] [tx label], child]"

definition Input :: "jsstring \<Rightarrow> (jsstring \<Rightarrow> 'm option) \<Rightarrow> (string \<times> prop_value) list \<Rightarrow> 'm view" where
  "Input v onChange rest = Elem ''input'' ((''value'', PStr v) # rest) [OnChange onChange] []"

definition Select :: "jsstring \<Rightarrow> (jsstring \<Rightarrow> 'm option) \<Rightarrow> 'm view list \<Rightarrow> 'm view" where
  "Select v onChange opts = Elem ''select'' [(''value'', PStr v)] [OnChange onChange] opts"

text \<open>\<open>filter.kind ?? ""\<close> and \<open>String(filter.min_cost_usd ?? "")\<close>: the fields hold strings or numbers.\<close>

definition field_text :: "EvalFilter \<Rightarrow> string \<Rightarrow> jsstring" where
  "field_text f k =
     (case map_of (fields f) (js k) of Some (JStr s) \<Rightarrow> s | Some (JNum n) \<Rightarrow> num_to_string n | _ \<Rightarrow> [])"

definition set_field :: "EvalFilter \<Rightarrow> string \<Rightarrow> jsstring \<Rightarrow> EvalFilter option" where
  "set_field f k v = Some (withField f (js k) (JStr v))"

definition value_select :: "EvalFilter \<Rightarrow> string \<Rightarrow> string \<Rightarrow> (string \<times> string) list \<Rightarrow> EvalFilter view" where
  "value_select f k none opts =
     Select (field_text f k) (set_field f k)
       (option_tag [] (js none) # map (\<lambda>x. option_tag (js (fst x)) (js (snd x))) opts)"

definition value_input :: "EvalFilter \<Rightarrow> string \<Rightarrow> (string \<times> prop_value) list \<Rightarrow> EvalFilter view" where
  "value_input f k rest = Input (field_text f k) (set_field f k) rest"

definition number_props :: "string \<Rightarrow> (string \<times> prop_value) list" where
  "number_props placeholder = [(''type'', pstr ''number''), (''placeholder'', pstr placeholder)]"

text \<open>The value field: shown only when a type is selected.\<close>

definition value_field :: "EvalFilter \<Rightarrow> EvalFilter view list" where
  "value_field f =
     (let active = activeLeaf f in
      shown (active = Some (js ''kind'')) [Field ''Kind Value'' (value_select f ''kind'' ''Select kind...'' SPAN_KINDS)] @
      shown (active = Some (js ''model''))
        [Field ''Model'' (value_input f ''model'' [(''placeholder'', pstr ''e.g. gpt-4-turbo'')])] @
      shown (active = Some (js ''service_name''))
        [Field ''Service Name'' (value_input f ''service_name'' [(''placeholder'', pstr ''e.g. my-service'')])] @
      shown (active = Some (js ''status_code''))
        [Field ''Status Code'' (value_select f ''status_code'' ''Select status...'' (map (\<lambda>s. (s, s)) STATUS_CODES))] @
      shown (active = Some (js ''min_cost_usd''))
        [Field ''Min Cost ($)'' (value_input f ''min_cost_usd'' (number_props ''0.00''))] @
      shown (active = Some (js ''max_cost_usd''))
        [Field ''Max Cost ($)'' (value_input f ''max_cost_usd'' (number_props ''999.99''))] @
      shown (active = Some (js ''min_duration_ms''))
        [Field ''Min Duration (ms)'' (value_input f ''min_duration_ms'' (number_props ''100''))] @
      shown (active = Some (js ''max_duration_ms''))
        [Field ''Max Duration (ms)'' (value_input f ''max_duration_ms'' (number_props ''30000''))])"

definition choose_type :: "EvalFilter \<Rightarrow> jsstring \<Rightarrow> EvalFilter option" where
  "choose_type f key = (if key \<noteq> [] then Some (withField f key (JStr [])) else None)"

definition type_select :: "EvalFilter \<Rightarrow> EvalFilter view" where
  "type_select f =
     Select (case activeLeaf f of Some k \<Rightarrow> k | None \<Rightarrow> []) (choose_type f)
       (option_tag [] (js ''Select...'') # map (\<lambda>x. option_tag (js (fst x)) (js (snd x))) LEAF_CONDITIONS)"

definition named_button :: "string \<Rightarrow> 'm \<Rightarrow> 'm view list \<Rightarrow> 'm view" where
  "named_button title m vs = button_with [(''title'', pstr title), (''aria-label'', pstr title)] m vs"

definition LeafConditionRow :: "EvalFilter \<Rightarrow> EvalFilter option \<Rightarrow> bool \<Rightarrow> EvalFilter view" where
  "LeafConditionRow f onDelete showDelete =
     Elem ''div'' [(''data-testid'', pstr ''condition-row'')] []
       [box (Field ''Condition Type'' (type_select f) # value_field f),
        box (case onDelete of
               Some d \<Rightarrow> shown showDelete [named_button ''Remove condition'' d []]
             | None \<Rightarrow> [])]"

section \<open>Groups\<close>

datatype operator = OpOr | OpAnd

fun operator_name :: "operator \<Rightarrow> string" where
  "operator_name OpOr = ''OR''" | "operator_name OpAnd = ''AND''"

text \<open>\<open>value[key] ?? []\<close>, and \<open>{ ...value, [key]: arr }\<close>.\<close>

fun subs :: "operator \<Rightarrow> EvalFilter \<Rightarrow> EvalFilter list" where
  "subs OpOr f = members (or_of f)"
| "subs OpAnd f = members (and_of f)"

fun set_subs :: "operator \<Rightarrow> EvalFilter group \<Rightarrow> EvalFilter \<Rightarrow> EvalFilter" where
  "set_subs OpOr v f = EvalFilter (fields f) (and_of f) v (not_of f)"
| "set_subs OpAnd v f = EvalFilter (fields f) v (or_of f) (not_of f)"

definition addSub :: "operator \<Rightarrow> EvalFilter \<Rightarrow> EvalFilter" where
  "addSub key f = set_subs key (Subs (subs key f @ [createEmptyFilter])) f"

definition updateSub :: "operator \<Rightarrow> nat \<Rightarrow> EvalFilter \<Rightarrow> EvalFilter \<Rightarrow> EvalFilter" where
  "updateSub key i f sub = set_subs key (Subs ((subs key f)[i := sub])) f"

definition removeSub :: "operator \<Rightarrow> nat \<Rightarrow> EvalFilter \<Rightarrow> EvalFilter" where
  "removeSub key i f =
     (let arr = take i (subs key f) @ drop (Suc i) (subs key f)
      in set_subs key (if arr \<noteq> [] then Subs arr else Undef) f)"

definition updateNot :: "EvalFilter \<Rightarrow> EvalFilter \<Rightarrow> EvalFilter" where
  "updateNot f sub = EvalFilter (fields f) (and_of f) (or_of f) (Some sub)"

definition removeNot :: "EvalFilter \<Rightarrow> EvalFilter" where
  "removeNot f = EvalFilter (fields f) (and_of f) (or_of f) None"

definition hasOr :: "EvalFilter \<Rightarrow> bool" where "hasOr f \<longleftrightarrow> subs OpOr f \<noteq> []"
definition hasAnd :: "EvalFilter \<Rightarrow> bool" where "hasAnd f \<longleftrightarrow> subs OpAnd f \<noteq> []"
definition hasNot :: "EvalFilter \<Rightarrow> bool" where "hasNot f \<longleftrightarrow> not_of f \<noteq> None"

definition isLeaf :: "EvalFilter \<Rightarrow> bool" where
  "isLeaf f \<longleftrightarrow> \<not> hasOr f \<and> \<not> hasAnd f \<and> \<not> hasNot f"

definition shown_operator :: "EvalFilter \<Rightarrow> operator" where
  "shown_operator f = (if hasOr f then OpOr else OpAnd)"

definition groupLabel :: "EvalFilter \<Rightarrow> string" where
  "groupLabel f = (if hasNot f then ''NOT'' else if hasOr f then ''OR'' else if hasAnd f then ''AND'' else [])"

definition truthy_field :: "EvalFilter \<Rightarrow> string \<Rightarrow> bool" where
  "truthy_field f k = truthy_opt (map_of (fields f) (js k))"

definition sibling :: "EvalFilter \<Rightarrow> EvalFilter" where
  "sibling f = EvalFilter [] (Subs [f, createEmptyFilter]) NoKey None"

definition wrap_or :: "EvalFilter \<Rightarrow> EvalFilter" where
  "wrap_or f =
     (if truthy_field f ''kind'' \<or> truthy_field f ''model''
      then EvalFilter [] NoKey (Subs [f, createEmptyFilter]) None
      else EvalFilter [] NoKey (Subs [createEmptyFilter, createEmptyFilter]) None)"

definition ActionButton :: "'m \<Rightarrow> 'm view list \<Rightarrow> 'm view" where
  "ActionButton m vs = button m vs"

lemma size_in_list: "x \<in> set xs \<Longrightarrow> size x \<le> size_list size xs"
  by (induction xs) auto

lemma size_subs: "i < length (subs oper f) \<Longrightarrow> size (subs oper f ! i) < size f"
proof (cases f)
  case (EvalFilter m as os g)
  assume i: "i < length (subs oper f)"
  then have "size (subs oper f ! i) \<le> size_list size (subs oper f)"
    by (intro size_in_list nth_mem)
  also have "\<dots> < size f"
    using EvalFilter by (cases oper; cases os; cases as) auto
  finally show ?thesis .
qed

lemma size_not: "not_of f = Some g \<Longrightarrow> size g < size f"
  by (cases f) auto

function FilterGroup :: "nat \<Rightarrow> EvalFilter \<Rightarrow> EvalFilter view" where
  "FilterGroup depth f =
     (let oper = shown_operator f; opname = operator_name oper in
      Elem ''div''
        [(''role'', pstr ''group''),
         (''aria-label'', if groupLabel f \<noteq> [] then pstr (groupLabel f) else pstr ''Filter group'')] []
        [box (shown (groupLabel f \<noteq> [] \<and> 0 < depth) [inline [tx (groupLabel f)]]),
         box (if isLeaf f
          then [LeafConditionRow f (if depth = 0 then None else Some createEmptyFilter) (depth \<noteq> 0)]
          else shown (hasOr f \<or> hasAnd f)
                 [box (map (\<lambda>i. box
                    [map_view (updateSub oper i f) (FilterGroup (depth + 1) (subs oper f ! i)),
                     named_button (''Remove '' @ opname @ '' condition'') (removeSub oper i f) [Text [0xD7]]])
                    [0..<length (subs oper f)]),
                  ActionButton (addSub oper f) [tx (''+ Add '' @ opname @ '' Condition'')]] @
               (case not_of f of
                  None \<Rightarrow> []
                | Some g \<Rightarrow> [box [inline [tx ''NOT''], map_view (updateNot f) (FilterGroup (depth + 1) g),
                              named_button ''Remove NOT condition'' (removeNot f) [Text [0xD7]]]])),
         box (shown (depth = 0 \<and> isLeaf f) [ActionButton (sibling f) [tx ''+ Add Condition'']]),
         box (shown (isLeaf f \<and> depth \<noteq> 0 \<and> \<not> hasNot f) [button (wrap_or f) [tx ''+ Add OR/AND Group'']])])"
  by auto
termination
  by (relation "measure (\<lambda>(_, f). size f)") (auto simp: size_subs size_not)

declare FilterGroup.simps [simp del]


section \<open>What the editor can do to a filter\<close>

definition kind_values :: "jsstring \<Rightarrow> jsstring set" where
  "kind_values k =
     (if k = js ''kind'' then insert [] (js ` fst ` set SPAN_KINDS)
      else if k = js ''status_code'' then insert [] (js ` set STATUS_CODES) else UNIV)"

text \<open>
  One action of the user on the filter shown at a node; \<open>outer\<close> is the root of the editor.
\<close>

inductive edit :: "bool \<Rightarrow> EvalFilter \<Rightarrow> EvalFilter \<Rightarrow> bool" where
  choose: "isLeaf f \<Longrightarrow> k \<in> set leaf_keys \<Longrightarrow> edit outer f (withField f k (JStr []))"
| set_value: "isLeaf f \<Longrightarrow> activeLeaf f = Some k \<Longrightarrow> v \<in> kind_values k \<Longrightarrow> edit outer f (withField f k (JStr v))"
| clear: "isLeaf f \<Longrightarrow> edit False f createEmptyFilter"
| add_sibling: "isLeaf f \<Longrightarrow> edit True f (sibling f)"
| wrap: "isLeaf f \<Longrightarrow> edit False f (wrap_or f)"
| add: "hasOr f \<or> hasAnd f \<Longrightarrow> edit outer f (addSub (shown_operator f) f)"
| remove: "i < length (subs (shown_operator f) f) \<Longrightarrow> edit outer f (removeSub (shown_operator f) i f)"
| within: "i < length (subs (shown_operator f) f) \<Longrightarrow> edit False (subs (shown_operator f) f ! i) g \<Longrightarrow>
    edit outer f (updateSub (shown_operator f) i f g)"
| remove_not: "hasNot f \<Longrightarrow> edit outer f (removeNot f)"
| within_not: "not_of f = Some h \<Longrightarrow> edit False h g \<Longrightarrow> edit outer f (updateNot f g)"

inductive_simps edit_iff: "edit outer f g"

lemma keys_Nil: "k \<in> set leaf_keys \<Longrightarrow> k \<noteq> []"
  by (auto simp: leaf_keys_def LEAF_CONDITIONS_def)

lemma emits_Field [simp]: "emits (Field l v) = emits v"
  by (simp add: Field_def)

lemma emits_named_button [simp]: "emits (named_button t m vs) = insert m (emits_all vs)"
  by (simp add: named_button_def)

lemma emits_ActionButton [simp]: "emits (ActionButton m vs) = insert m (emits_all vs)"
  by (simp add: ActionButton_def)

lemma emits_type_select: "emits (type_select f) = (\<lambda>k. withField f k (JStr [])) ` set leaf_keys"
proof -
  have "set (map (\<lambda>x. js (fst x)) LEAF_CONDITIONS) = set leaf_keys"
    by (simp add: leaf_keys_def case_prod_beta)
  then show ?thesis
    using keys_Nil by (auto simp: type_select_def Select_def choose_type_def)
qed

lemma emits_value_input:
  "map_of rest ''disabled'' = None \<Longrightarrow> emits (value_input f k rest) = range (\<lambda>v. withField f (js k) (JStr v))"
  by (auto simp: value_input_def Input_def set_field_def)

lemma emits_value_select:
  "emits (value_select f k none opts) = (\<lambda>v. withField f (js k) (JStr v)) ` insert [] (js ` fst ` set opts)"
  by (auto simp: value_select_def Select_def set_field_def image_iff)

lemma activeLeaf_keys: "activeLeaf f = Some k \<Longrightarrow> k \<in> set leaf_keys"
  by (auto simp: activeLeaf_def dest: find_Some_in)

lemma emits_value_field:
  "emits_all (value_field f) =
     (case activeLeaf f of None \<Rightarrow> {} | Some k \<Rightarrow> (\<lambda>v. withField f k (JStr v)) ` kind_values k)"
proof (cases "activeLeaf f")
  case (Some k)
  then have "k \<in> set leaf_keys" by (rule activeLeaf_keys)
  then consider "k = js ''kind''" | "k = js ''model''" | "k = js ''service_name''" | "k = js ''status_code''"
    | "k = js ''min_cost_usd''" | "k = js ''max_cost_usd''" | "k = js ''min_duration_ms''"
    | "k = js ''max_duration_ms''"
    by (auto simp: leaf_keys_def LEAF_CONDITIONS_def)
  then show ?thesis
    using Some
    by cases (simp_all add: value_field_def Let_def emits_value_input emits_value_select kind_values_def
        number_props_def image_image)
qed (simp add: value_field_def Let_def)

lemma emits_leaf_row:
  "emits (LeafConditionRow f d show) =
     (\<lambda>k. withField f k (JStr [])) ` set leaf_keys \<union>
     (case activeLeaf f of None \<Rightarrow> {} | Some k \<Rightarrow> (\<lambda>v. withField f k (JStr v)) ` kind_values k) \<union>
     (case d of Some g \<Rightarrow> if show then {g} else {} | None \<Rightarrow> {})"
  by (auto simp: LeafConditionRow_def emits_type_select emits_value_field split: option.split)

lemma leaf_no_groups:
  "isLeaf f \<Longrightarrow> subs oper f = [] \<and> not_of f = None \<and> \<not> hasOr f \<and> \<not> hasAnd f \<and> \<not> hasNot f"
  by (cases oper) (auto simp: isLeaf_def hasOr_def hasAnd_def hasNot_def)

lemma has_groups: "hasOr f \<or> hasAnd f \<longleftrightarrow> subs (shown_operator f) f \<noteq> []"
  by (auto simp: hasOr_def hasAnd_def shown_operator_def)

lemma edit_leaf:
  assumes "isLeaf f"
  shows "{g. edit outer f g} =
    (\<lambda>k. withField f k (JStr [])) ` set leaf_keys \<union>
    (case activeLeaf f of None \<Rightarrow> {} | Some k \<Rightarrow> (\<lambda>v. withField f k (JStr v)) ` kind_values k) \<union>
    (if outer then {sibling f} else {createEmptyFilter, wrap_or f})"
  using assms leaf_no_groups [OF assms]
  by (auto simp: edit_iff [of outer f] image_iff split: option.splits)

lemma edit_group:
  assumes "\<not> isLeaf f"
  shows "{g. edit outer f g} =
    (let oper = shown_operator f in
     (if subs oper f \<noteq> [] then {addSub oper f} else {}) \<union>
     (\<Union>i<length (subs oper f). insert (removeSub oper i f) (updateSub oper i f ` {g. edit False (subs oper f ! i) g})) \<union>
     (case not_of f of None \<Rightarrow> {} | Some h \<Rightarrow> insert (removeNot f) (updateNot f ` {g. edit False h g})))"
  using assms
  by (auto simp: edit_iff [of outer f] image_iff has_groups hasNot_def Let_def split: option.splits)

lemma emits_FilterGroup: "emits (FilterGroup depth f) = {g. edit (depth = 0) f g}"
proof (induction depth f rule: FilterGroup.induct)
  case (1 depth f)
  let ?op = "shown_operator f"
  have sub: "emits (FilterGroup (depth + 1) (subs ?op f ! i)) = {g. edit False (subs ?op f ! i) g}"
    if "\<not> isLeaf f" "i < length (subs ?op f)" for i
    using 1(1) [OF refl refl that(1)] that(2) by simp
  have neg: "emits (FilterGroup (depth + 1) h) = {g. edit False h g}" if "\<not> isLeaf f" "not_of f = Some h" for h
    using 1(2) [OF refl refl that(1)] that(2) by simp
  show ?case
  proof (cases "isLeaf f")
    case True
    then show ?thesis
      using leaf_no_groups [OF True]
      by (subst FilterGroup.simps) (simp add: Let_def emits_leaf_row edit_leaf Un_ac insert_commute split: option.split)
  next
    case False
    have list: "emits_all (map (\<lambda>i. box [map_view (updateSub ?op i f) (FilterGroup (Suc depth) (subs ?op f ! i)),
          named_button t (removeSub ?op i f) [Text c]]) [0..<length (subs ?op f)]) =
        (\<Union>i<length (subs ?op f). insert (removeSub ?op i f) (updateSub ?op i f ` {g. edit False (subs ?op f ! i) g}))"
      for t c
      using sub [OF False] by (auto simp: emits_all_def [of "map _ _"] emits_map_view atLeast0LessThan)
    show ?thesis
    proof (cases "not_of f")
      case None
      then show ?thesis
        unfolding edit_group [OF False] Let_def
        using False has_groups [of f]
        by (subst FilterGroup.simps) (simp add: Let_def list Un_ac)
    next
      case (Some h)
      then have "emits (FilterGroup (Suc depth) h) = {g. edit False h g}"
        using neg [OF False] by simp
      with Some list False has_groups [of f] show ?thesis
        unfolding edit_group [OF False] Let_def
        by (subst FilterGroup.simps, cases "depth = 0")
          (simp_all add: Let_def emits_map_view Un_ac insert_commute)
    qed
  qed
qed


section \<open>Filters built with the editor\<close>

text \<open>
  A node is a leaf with at most one condition, or one non-empty group without conditions of its own.
\<close>

inductive canonical :: "EvalFilter \<Rightarrow> bool" where
  leaf: "length m \<le> 1 \<Longrightarrow> fst ` set m \<subseteq> set leaf_keys \<Longrightarrow> a \<in> {NoKey, Undef} \<Longrightarrow> b \<in> {NoKey, Undef} \<Longrightarrow>
    canonical (EvalFilter m a b None)"
| and_group: "xs \<noteq> [] \<Longrightarrow> \<forall>x\<in>set xs. canonical x \<Longrightarrow> canonical (EvalFilter [] (Subs xs) NoKey None)"
| or_group: "xs \<noteq> [] \<Longrightarrow> \<forall>x\<in>set xs. canonical x \<Longrightarrow> canonical (EvalFilter [] NoKey (Subs xs) None)"

inductive_cases canonicalE: "canonical f"
inductive_simps canonical_leaf: "canonical (EvalFilter m NoKey NoKey None)"
inductive_simps canonical_and: "canonical (EvalFilter m (Subs xs) a n)"
inductive_simps canonical_or: "canonical (EvalFilter m a (Subs xs) n)"

lemma canonical_empty: "canonical createEmptyFilter"
  by (simp add: createEmptyFilter_def canonical_leaf)

lemma canonical_withField:
  assumes "canonical f" "isLeaf f" "k \<in> set leaf_keys"
  shows "canonical (withField f k v)"
  using assms(1)
proof (cases rule: canonical.cases)
  case (leaf m a b)
  then consider "m = []" | k' w where "m = [(k', w)]" "k' \<in> set leaf_keys"
    by (cases m) auto
  then show ?thesis
    using leaf assms(3) by cases (auto simp: withField_def obj_put_def intro!: canonical.leaf)
next
  case (and_group xs)
  then show ?thesis using assms(2) by (simp add: isLeaf_def hasAnd_def)
next
  case (or_group xs)
  then show ?thesis using assms(2) by (simp add: isLeaf_def hasOr_def)
qed

text \<open>The group of a canonical node: its operator, its members, and how to put new members in.\<close>

lemma canonical_group:
  assumes "canonical f" and "subs (shown_operator f) f \<noteq> []"
  shows "\<forall>x\<in>set (subs (shown_operator f) f). canonical x"
    and "xs \<noteq> [] \<Longrightarrow> \<forall>x\<in>set xs. canonical x \<Longrightarrow> canonical (set_subs (shown_operator f) (Subs xs) f)"
    and "canonical (set_subs (shown_operator f) Undef f)"
proof -
  have "(\<forall>x\<in>set (subs (shown_operator f) f). canonical x) \<and>
      (xs \<noteq> [] \<longrightarrow> (\<forall>x\<in>set xs. canonical x) \<longrightarrow> canonical (set_subs (shown_operator f) (Subs xs) f)) \<and>
      canonical (set_subs (shown_operator f) Undef f)"
    using assms(1)
  proof (cases rule: canonical.cases)
    case (leaf m a b)
    then show ?thesis using assms(2) by (auto simp: shown_operator_def hasOr_def)
  qed (auto simp: shown_operator_def hasOr_def canonical_and canonical_or intro!: canonical.leaf)
  then show "\<forall>x\<in>set (subs (shown_operator f) f). canonical x"
    and "xs \<noteq> [] \<Longrightarrow> \<forall>x\<in>set xs. canonical x \<Longrightarrow> canonical (set_subs (shown_operator f) (Subs xs) f)"
    and "canonical (set_subs (shown_operator f) Undef f)" by auto
qed

lemma canonical_no_not: "canonical f \<Longrightarrow> not_of f = None"
  by (auto elim: canonicalE)

lemma edit_canonical: "edit outer f g \<Longrightarrow> canonical f \<Longrightarrow> canonical g"
proof (induction rule: edit.induct)
  case (choose f k outer)
  then show ?case by (intro canonical_withField)
next
  case (set_value f k v outer)
  then show ?case by (intro canonical_withField) (auto dest: activeLeaf_keys)
next
  case (clear f)
  then show ?case by (simp add: canonical_empty)
next
  case (add_sibling f)
  then show ?case by (simp add: sibling_def canonical_and canonical_empty)
next
  case (wrap f)
  then show ?case by (simp add: wrap_or_def canonical_or canonical_empty)
next
  case (add f outer)
  then show ?case
    using canonical_group [OF add.prems] by (auto simp: addSub_def has_groups canonical_empty)
next
  case (remove i f outer)
  then have "subs (shown_operator f) f \<noteq> []" by auto
  note group = canonical_group [OF remove.prems this]
  let ?arr = "take i (subs (shown_operator f) f) @ drop (Suc i) (subs (shown_operator f) f)"
  have "\<forall>x\<in>set ?arr. canonical x"
    using group(1) by (auto dest: in_set_takeD in_set_dropD)
  then show ?case
    using group(2) [of ?arr] group(3) by (cases "?arr = []") (simp_all only: removeSub_def Let_def if_True if_False simp_thms)
next
  case (within i f g outer)
  then have ne: "subs (shown_operator f) f \<noteq> []" by auto
  have "canonical g"
    using within canonical_group(1) [OF within.prems ne] by (auto simp: nth_mem)
  then show ?case
    unfolding updateSub_def
    using canonical_group(1) [OF within.prems ne] ne
    by (intro canonical_group(2) [OF within.prems ne])
      (auto dest!: set_update_subset_insert [THEN subsetD])
next
  case (remove_not f outer)
  then show ?case using canonical_no_not by (auto simp: hasNot_def)
next
  case (within_not f h g outer)
  then show ?case using canonical_no_not by fastforce
qed

text \<open>
  However a user works with the editor, starting from the empty filter, every node of the filter stays
  either a leaf with at most one condition or one non-empty group of such nodes, without a \<open>NOT\<close>.
\<close>

theorem editor_keeps_canonical:
  assumes "(\<lambda>f g. g \<in> emits (FilterGroup 0 f))^** createEmptyFilter f"
  shows "canonical f"
  using assms
proof (induction rule: rtranclp_induct)
  case (step f g)
  then show ?case by (auto simp: emits_FilterGroup intro: edit_canonical)
qed (rule canonical_empty)

definition sample_filter :: EvalFilter where
  "sample_filter = EvalFilter [(js ''model'', JStr (js ''gpt''))] NoKey NoKey None"

lemma editor_keeps_canonical_witness: "canonical sample_filter"
proof -
  have one: "withField createEmptyFilter (js ''model'') (JStr []) = EvalFilter [(js ''model'', JStr [])] NoKey NoKey None"
    "withField (EvalFilter [(js ''model'', JStr [])] NoKey NoKey None) (js ''model'') (JStr (js ''gpt'')) = sample_filter"
    by (simp_all add: withField_def createEmptyFilter_def obj_put_def sample_filter_def)
  have "edit True createEmptyFilter (EvalFilter [(js ''model'', JStr [])] NoKey NoKey None)"
    unfolding one(1) [symmetric]
    by (rule edit.choose) (simp_all add: isLeaf_def hasOr_def hasAnd_def hasNot_def createEmptyFilter_def
        leaf_keys_def LEAF_CONDITIONS_def)
  moreover have "edit True (EvalFilter [(js ''model'', JStr [])] NoKey NoKey None) sample_filter"
    unfolding one(2) [symmetric]
    by (rule edit.set_value) (simp_all add: isLeaf_def hasOr_def hasAnd_def hasNot_def activeLeaf_def
        leaf_keys_def LEAF_CONDITIONS_def kind_values_def)
  ultimately have "(\<lambda>f g. g \<in> emits (FilterGroup 0 f))^** createEmptyFilter sample_filter"
    by (auto simp: emits_FilterGroup intro: converse_rtranclp_into_rtranclp)
  then show ?thesis by (rule editor_keeps_canonical)
qed

text \<open>
  Wrapping a condition into a group keeps it only when it is a kind or a model that was filled in; any
  other condition is replaced by an empty one, although the code says it keeps the current value.
\<close>

theorem wrap_drops_condition:
  assumes "canonical f" and "isLeaf f" and "activeLeaf f = Some k"
  shows "wrap_or f = EvalFilter [] NoKey
    (Subs [if k \<in> {js ''kind'', js ''model''} \<and> truthy_opt (map_of (fields f) k) then f else createEmptyFilter,
           createEmptyFilter]) None"
proof -
  have k: "k \<in> fst ` set (fields f)" using assms(3) by (auto simp: activeLeaf_def dest: find_Some_in)
  have "\<exists>v. fields f = [(k, v)]"
    using assms(1)
  proof (cases rule: canonical.cases)
    case (leaf m a b)
    with k show ?thesis by (cases m) auto
  next
    case (and_group xs)
    then show ?thesis using k by simp
  next
    case (or_group xs)
    then show ?thesis using k by simp
  qed
  then show ?thesis by (auto simp: wrap_or_def truthy_field_def split: if_splits)
qed

lemma wrap_drops_condition_witness:
  "wrap_or (EvalFilter [(js ''service_name'', JStr (js ''api''))] NoKey NoKey None) =
   EvalFilter [] NoKey (Subs [createEmptyFilter, createEmptyFilter]) None"
  using wrap_drops_condition [of "EvalFilter [(js ''service_name'', JStr (js ''api''))] NoKey NoKey None"
      "js ''service_name''"]
  by (simp add: canonical_leaf isLeaf_def hasOr_def hasAnd_def hasNot_def activeLeaf_def leaf_keys_def
      LEAF_CONDITIONS_def)

end
