(* ===== verification/Ui.thy ===== *)
theory Ui
  imports View
begin

text \<open>
  Components every page of the UI uses: \<open>Skeleton\<close>, \<open>EmptyState\<close>, \<open>LoadingState\<close>, the banners and the
  error boundary of \<open>ErrorBanner.tsx\<close>, \<open>Breadcrumb\<close>, \<open>CopyButton\<close> and the onboarding page. A handler a
  caller may leave out is an option.
\<close>

section \<open>Placeholders\<close>

text \<open>A bar that pulses while data loads; nothing but its class tells it from an empty box.\<close>

definition Skeleton :: "'m view" where
  "Skeleton = Elem ''div'' [(''class'', pstr ''animate-pulse'')] [] []"

datatype EmptyStateVariant = Default | Onboarding | Search | ErrorVariant | Loading

fun defaultConfig :: "EmptyStateVariant \<Rightarrow> string \<times> string" where
  "defaultConfig Onboarding = (''No traces yet'', ''Get started by sending your first trace to omneval'')"
| "defaultConfig Search = (''No results found'', ''Try adjusting your filters or search query'')"
| "defaultConfig ErrorVariant = (''Something went wrong'', ''Please try refreshing the page'')"
| "defaultConfig Default = (''Nothing here'', ''Create something to get started'')"
| "defaultConfig Loading = ([], [])"

definition EmptyState ::
    "EmptyStateVariant \<Rightarrow> jsstring option \<Rightarrow> jsstring option \<Rightarrow> jsstring option \<Rightarrow> 'm option \<Rightarrow> 'm view" where
  "EmptyState variant title description actionLabel onAction =
     (let (t, d) = defaultConfig variant;
          resolvedTitle = (case title of Some s \<Rightarrow> s | None \<Rightarrow> js t);
          resolvedDescription = (case description of Some s \<Rightarrow> s | None \<Rightarrow> js d)
      in Elem ''div'' [(''role'', pstr ''status'')] []
           ([box [], para [Text resolvedTitle]] @
            shown (resolvedDescription \<noteq> []) [para [Text resolvedDescription]] @
            (case (onAction, actionLabel) of
               (Some m, Some l) \<Rightarrow> shown (l \<noteq> []) [button m [Text l]]
             | _ \<Rightarrow> [])))"

definition LoadingState :: "nat \<Rightarrow> bool \<Rightarrow> 'm view" where
  "LoadingState rows showTitle = box (shown showTitle [Skeleton] @ replicate rows Skeleton)"

text \<open>The pages mostly give a title and a description.\<close>

definition nothing_yet :: "string \<Rightarrow> string \<Rightarrow> 'm view" where
  "nothing_yet t d = EmptyState Default (Some (js t)) (Some (js d)) None None"

section \<open>Banners\<close>

definition alert :: "'m view list \<Rightarrow> 'm view" where
  "alert vs = Elem ''div'' [(''role'', pstr ''alert'')] [] vs"

definition ErrorBanner :: "jsstring \<Rightarrow> 'm option \<Rightarrow> 'm option \<Rightarrow> jsstring \<Rightarrow> 'm view" where
  "ErrorBanner message onDismiss onRetry retryLabel =
     alert ([inline [Text message]] @
       (case onDismiss of Some m \<Rightarrow> [button_with [(''aria-label'', pstr ''Dismiss'')] m []] | None \<Rightarrow> []) @
       (case onRetry of Some m \<Rightarrow> [button m [Text retryLabel]] | None \<Rightarrow> []))"

definition WarningBanner :: "jsstring \<Rightarrow> 'm view" where
  "WarningBanner message = alert [inline [Text message]]"

definition InfoBanner :: "jsstring \<Rightarrow> 'm view" where
  "InfoBanner message = box [inline [Text message]]"

section \<open>The error boundary\<close>

text \<open>A caught error is kept as its message, which may be missing.\<close>

record ErrorBoundaryState =
  hasError :: bool
  caught :: "jsstring option"

definition new_ErrorBoundary :: ErrorBoundaryState where
  "new_ErrorBoundary = \<lparr>hasError = False, caught = None\<rparr>"

definition getDerivedStateFromError :: "jsstring option \<Rightarrow> ErrorBoundaryState" where
  "getDerivedStateFromError e = \<lparr>hasError = True, caught = e\<rparr>"

text \<open>\<open>handleReload\<close> clears the error and reloads the page, which starts from a new state anyway.\<close>

definition handleReload :: "ErrorBoundaryState \<Rightarrow> ErrorBoundaryState" where
  "handleReload st = \<lparr>hasError = False, caught = None\<rparr>"

definition error_text :: "jsstring option \<Rightarrow> jsstring" where
  "error_text e =
     (case e of Some m \<Rightarrow> if m \<noteq> [] then m else js ''An unexpected error occurred''
      | None \<Rightarrow> js ''An unexpected error occurred'')"

text \<open>The button sends the reload message of the boundary; the children send their own.\<close>

definition ErrorBoundary :: "'m \<Rightarrow> ErrorBoundaryState \<Rightarrow> 'm view option \<Rightarrow> 'm view list \<Rightarrow> 'm view list" where
  "ErrorBoundary reload st fallback children =
     (if hasError st
      then (case fallback of
              Some v \<Rightarrow> [v]
            | None \<Rightarrow> [box [para [tx ''Something went wrong''], para [Text (error_text (caught st))],
                          button reload [tx ''Reload Page'']]])
      else children)"

section \<open>Breadcrumb\<close>

definition BreadcrumbButton :: "jsstring \<Rightarrow> 'm option \<Rightarrow> bool \<Rightarrow> 'm view" where
  "BreadcrumbButton label onClick isLast =
     Elem ''button''
       ((''disabled'', PBool isLast) # (if isLast then [(''aria-current'', pstr ''page'')] else []))
       (case onClick of Some m \<Rightarrow> [OnClick m] | None \<Rightarrow> [])
       [Text label]"

definition crumb :: "(jsstring \<times> 'm option) list \<Rightarrow> nat \<Rightarrow> 'm view" where
  "crumb items index =
     (let isLast = (index = length items - 1);
          b = BreadcrumbButton (fst (items ! index)) (if isLast then None else snd (items ! index)) isLast
      in if index = 0 then b else box [b])"

definition Breadcrumb :: "(jsstring \<times> 'm option) list \<Rightarrow> 'm view list" where
  "Breadcrumb items =
     (if items = [] then []
      else [Elem ''nav'' [(''aria-label'', pstr ''Breadcrumb'')] [] (map (crumb items) [0..<length items])])"

text \<open>Every crumb but the last leads somewhere; the last one is the current page.\<close>

lemma emits_crumb:
  "emits (crumb items i) = (if i = length items - 1 then {} else {m. snd (items ! i) = Some m})"
  by (auto simp: crumb_def Let_def BreadcrumbButton_def split: option.splits)

lemma Breadcrumb_emits:
  "emits_all (Breadcrumb items) = {m. \<exists>i < length items - 1. snd (items ! i) = Some m}"
proof -
  have "emits_all (map (crumb items) [0..<length items]) =
      (\<Union>i\<in>{0..<length items}. if i = length items - 1 then {} else {m. snd (items ! i) = Some m})"
    by (simp add: emits_all_def emits_crumb)
  also have "\<dots> = {m. \<exists>i < length items - 1. snd (items ! i) = Some m}"
  proof -
    have "{0..<length items} - {length items - 1} = {0..<length items - 1}" by auto
    moreover have "(\<Union>i\<in>{0..<length items}. if i = length items - 1 then {} else {m. snd (items ! i) = Some m}) =
        (\<Union>i\<in>{0..<length items} - {length items - 1}. {m. snd (items ! i) = Some m})" by auto
    ultimately show ?thesis by auto
  qed
  finally show ?thesis by (auto simp: Breadcrumb_def)
qed

section \<open>Copying\<close>

text \<open>
  The state of a copy button is whether it shows its feedback. A click writes to the clipboard; the
  feedback ends with the timer the successful write started.
\<close>

datatype copy_event = Written bool | CopyTimer

fun handleCopy :: "copy_event \<Rightarrow> bool \<Rightarrow> bool" where
  "handleCopy (Written ok) copied = (ok \<or> copied)"
| "handleCopy CopyTimer copied = False"

definition CopyButton :: "bool \<Rightarrow> 'm \<Rightarrow> jsstring \<Rightarrow> jsstring \<Rightarrow> 'm view" where
  "CopyButton copied onCopy copyLabel ariaLabel =
     button_with [(''aria-label'', PStr ariaLabel)] onCopy
       [if copied then inline [tx ''Copied!''] else inline [Text copyLabel]]"

section \<open>The onboarding page\<close>

definition installCommand :: string where "installCommand = ''pip install omneval-sdk''"

definition apiKeyCommand :: jsstring where
  "apiKeyCommand =
     js ''curl -X POST http://localhost:8080/api/v1/projects/<project-id>/api-keys -H '' @ [0x22] @
     js ''Content-Type: application/json'' @ [0x22] @ js '' -d '' @ [0x27] @ js ''{'' @ [0x22] @ js ''kind'' @ [0x22] @
     js '':'' @ [0x22] @ js ''project'' @ [0x22] @ js ''}'' @ [0x27]"

definition onboarding_step :: "string \<Rightarrow> string \<Rightarrow> 'm view \<Rightarrow> 'm view" where
  "onboarding_step n t v = box [inline [tx n], inline [tx t], v]"

text \<open>Its messages are the texts to copy.\<close>

definition OnboardingEmptyState :: "bool \<Rightarrow> bool \<Rightarrow> jsstring view" where
  "OnboardingEmptyState copied1 copied2 =
     box [para [tx ''No traces yet''], para [tx ''Get started in 3 simple steps:''],
       box [onboarding_step ''1'' ''Install the SDK''
              (CopyButton copied1 (js installCommand) (js ''Copy'') (js ''Copy install command'')),
            onboarding_step ''2'' ''Create an API key''
              (CopyButton copied2 apiKeyCommand (js ''Copy'') (js ''Copy API key curl command'')),
            onboarding_step ''3'' ''Send your first trace''
              (Elem ''a'' [(''href'', pstr ''/docs/ingest''), (''target'', pstr ''_blank'')] []
                 [Text (js ''View ingest docs '' @ [0x2192])])]]"

section \<open>Messages of the shared components\<close>

lemma emits_replicate [simp]: "emits_all (replicate n v) = (if n = 0 then {} else emits v)"
  by (auto simp: emits_all_def)

lemma emits_shared [simp]:
  "emits Skeleton = {}"
  "emits (LoadingState rows b) = {}"
  "emits (nothing_yet s1 s2) = {}"
  "emits (alert vs) = emits_all vs"
  "emits (WarningBanner m) = {}" "emits (InfoBanner m) = {}"
  "emits (EmptyState v t d None act) = {}" "emits (EmptyState v t d l None) = {}"
  "emits (CopyButton c m' l1 l2) = {m'}"
  by (auto simp: Skeleton_def LoadingState_def nothing_yet_def EmptyState_def alert_def WarningBanner_def
      InfoBanner_def CopyButton_def Let_def split: prod.splits option.splits)

lemma emits_EmptyState [simp]: "l \<noteq> [] \<Longrightarrow> emits (EmptyState v t d (Some l) (Some m)) = {m}"
  by (simp add: EmptyState_def Let_def split: prod.split)

lemma emits_ErrorBanner [simp]:
  "emits (ErrorBanner t d r l) = {m. d = Some m} \<union> {m. r = Some m}"
  by (auto simp: ErrorBanner_def split: option.splits)

lemma OnboardingEmptyState_emits:
  "emits (OnboardingEmptyState a b) = {js installCommand, apiKeyCommand}"
  by (auto simp: OnboardingEmptyState_def onboarding_step_def)

end
