(* ===== verification/Toasts.thy ===== *)
theory Toasts
  imports Ui
begin

text \<open>
  \<open>ui/src/components/Toast.tsx\<close>: the messages at the corner of the screen. The provider keeps the list
  of toasts and, as the runtime does, the timers it has started; a timer fires at its due time or
  later. The clock and the random part of an identifier are arguments.
\<close>

datatype ToastType = Success | Failure | Info

record Toast =
  toast_id :: jsstring
  toast_type :: ToastType
  toast_message :: jsstring

record ToastProvider =
  toasts :: "Toast list"
  timers :: "(int \<times> jsstring) list"

definition new_ToastProvider :: ToastProvider where
  "new_ToastProvider = \<lparr>toasts = [], timers = []\<rparr>"

text \<open>Reading the context outside a provider throws.\<close>

definition useToast :: "'c option \<Rightarrow> (js_error, 'c) result" where
  "useToast ctx =
     (case ctx of None \<Rightarrow> Inl (Thrown (js ''useToast must be used within a ToastProvider'')) | Some c \<Rightarrow> Inr c)"

definition new_toast_id :: "int \<Rightarrow> jsstring \<Rightarrow> jsstring" where
  "new_toast_id now rnd = js ''toast-'' @ dec_int now @ js ''-'' @ rnd"

definition removeToast :: "jsstring \<Rightarrow> ToastProvider \<Rightarrow> ToastProvider" where
  "removeToast i p = p\<lparr>toasts := filter (\<lambda>t. toast_id t \<noteq> i) (toasts p)\<rparr>"

definition addToast :: "int \<Rightarrow> jsstring \<Rightarrow> ToastType \<Rightarrow> jsstring \<Rightarrow> ToastProvider \<Rightarrow> ToastProvider" where
  "addToast now rnd ty message p =
     (let i = new_toast_id now rnd
      in p\<lparr>toasts := toasts p @ [\<lparr>toast_id = i, toast_type = ty, toast_message = message\<rparr>],
           timers := timers p @ [(now + 4000, i)]\<rparr>)"

text \<open>The callback of \<open>setTimeout\<close>.\<close>

definition fire_timer :: "int \<times> jsstring \<Rightarrow> ToastProvider \<Rightarrow> ToastProvider" where
  "fire_timer t p = removeToast (snd t) (p\<lparr>timers := remove1 t (timers p)\<rparr>)"

text \<open>An item fades after 3.5 seconds, by its own timer.\<close>

definition ToastItem :: "bool \<Rightarrow> Toast \<Rightarrow> jsstring view" where
  "ToastItem visible t =
     Elem ''div'' [(''role'', pstr ''alert''), (''opacity'', PNum (Fin (if visible then 1 else 0)))] []
       [inline [Text (toast_message t)], button_with [(''aria-label'', pstr ''Dismiss'')] (toast_id t) []]"

definition ToastContainer :: "(jsstring \<Rightarrow> bool) \<Rightarrow> Toast list \<Rightarrow> jsstring view list" where
  "ToastContainer visible ts =
     (if ts = [] then []
      else [Elem ''div'' [(''aria-live'', pstr ''polite'')] [] (map (\<lambda>t. ToastItem (visible (toast_id t)) t) ts)])"

section \<open>Runs\<close>

inductive toast_run :: "int \<Rightarrow> ToastProvider \<Rightarrow> bool" where
  toast_start: "toast_run now new_ToastProvider"
| toast_wait: "toast_run now p \<Longrightarrow> now \<le> now' \<Longrightarrow> toast_run now' p"
| toast_add: "toast_run now p \<Longrightarrow> toast_run now (addToast now rnd ty message p)"
| toast_dismiss: "toast_run now p \<Longrightarrow> i \<in> emits_all (ToastContainer visible (toasts p)) \<Longrightarrow>
    toast_run now (removeToast i p)"
| toast_timer: "toast_run now p \<Longrightarrow> (due, i) \<in> set (timers p) \<Longrightarrow> due \<le> now \<Longrightarrow>
    toast_run now (fire_timer (due, i) p)"

lemma ToastContainer_emits: "emits_all (ToastContainer visible ts) = toast_id ` set ts"
  by (auto simp: ToastContainer_def ToastItem_def emits_all_def)

text \<open>Removing one toast by its identifier leaves the others in place.\<close>

lemma removeToast_others:
  "distinct (map toast_id (toasts p)) \<Longrightarrow> toasts p = xs @ t # ys \<Longrightarrow> toasts (removeToast (toast_id t) p) = xs @ ys"
  by (auto simp: removeToast_def image_iff intro!: arg_cong2 [of _ _ _ _ append] filter_True)

lemma toast_timers:
  assumes "toast_run now p" and "t \<in> set (toasts p)"
  shows "\<exists>due. (due, toast_id t) \<in> set (timers p) \<and> due \<le> now + 4000"
  using assms
proof (induction arbitrary: t rule: toast_run.induct)
  case (toast_wait now p now')
  then show ?case by (meson add_mono_thms_linordered_semiring(3) order_trans)
next
  case (toast_add now p rnd ty message)
  then show ?case by (auto simp: addToast_def Let_def)
next
  case (toast_timer now p due i)
  then have "toast_id t \<noteq> i" "t \<in> set (toasts p)"
    by (auto simp: fire_timer_def removeToast_def)
  with toast_timer.IH obtain d where "(d, toast_id t) \<in> set (timers p)" "d \<le> now + 4000" by blast
  then have "(d, toast_id t) \<in> set (remove1 (due, i) (timers p))"
    using \<open>toast_id t \<noteq> i\<close> by (simp add: in_set_remove1)
  with \<open>d \<le> now + 4000\<close> show ?case
    by (auto simp: fire_timer_def removeToast_def)
qed (auto simp: new_ToastProvider_def removeToast_def)

text \<open>
  C13: no toast stays for good. Whatever was added and dismissed before, every toast on the screen has a
  timer that comes due within four seconds and, when it fires, removes it; so with no timer left the
  screen is empty.
\<close>

theorem toasts_expire:
  assumes "toast_run now p"
  shows "(\<forall>t\<in>set (toasts p). \<exists>due \<le> now + 4000. (due, toast_id t) \<in> set (timers p) \<and>
      t \<notin> set (toasts (fire_timer (due, toast_id t) p))) \<and>
    (timers p = [] \<longrightarrow> ToastContainer visible (toasts p) = [])"
proof
  show "\<forall>t\<in>set (toasts p). \<exists>due \<le> now + 4000. (due, toast_id t) \<in> set (timers p) \<and>
      t \<notin> set (toasts (fire_timer (due, toast_id t) p))"
    using toast_timers [OF assms] by (fastforce simp: fire_timer_def removeToast_def)
  show "timers p = [] \<longrightarrow> ToastContainer visible (toasts p) = []"
    using toast_timers [OF assms, of "hd (toasts p)"] by (auto simp: ToastContainer_def)
qed

lemma toasts_expire_witness:
  "\<exists>t. toasts (addToast 0 (js ''a'') Info (js ''Saved'') new_ToastProvider) = [t] \<and>
    (\<exists>due \<le> 4000. (due, toast_id t) \<in> set (timers (addToast 0 (js ''a'') Info (js ''Saved'') new_ToastProvider)))"
proof -
  let ?p = "addToast 0 (js ''a'') Info (js ''Saved'') new_ToastProvider"
  have "toast_run 0 ?p" by (intro toast_add toast_start)
  from toasts_expire [OF this]
  have "\<forall>t\<in>set (toasts ?p). \<exists>due \<le> 4000. (due, toast_id t) \<in> set (timers ?p)" by auto
  then show ?thesis by (auto simp: addToast_def new_ToastProvider_def Let_def)
qed

end
