(* ===== verification/JsonBlock.thy ===== *)
theory JsonBlock
  imports Ui
begin

text \<open>
  \<open>ui/src/components/JsonCodeBlock.tsx\<close>: shows a text, pretty-printed and coloured when it is JSON, by
  setting the HTML of an element. Each regular expression is a scanner that finds its leftmost match
  and the shortest or longest one, as the expression asks.
\<close>

section \<open>Pretty printing\<close>

text \<open>\<open>JSON.stringify(obj, null, 2)\<close>\<close>

definition break_line :: "nat \<Rightarrow> jsstring" where
  "break_line indent = 10 # replicate indent 0x20"

fun pretty_json :: "nat \<Rightarrow> json \<Rightarrow> jsstring" where
  "pretty_json indent (JArr xs) =
     (if xs = [] then js ''[]''
      else js ''['' @ break_line (indent + 2) @
           join (js '','' @ break_line (indent + 2)) (map (pretty_json (indent + 2)) xs) @
           break_line indent @ js '']'')"
| "pretty_json indent (JObj m) =
     (if m = [] then js ''{}''
      else js ''{'' @ break_line (indent + 2) @
           join (js '','' @ break_line (indent + 2))
             (map (\<lambda>(k, v). quote k @ js '': '' @ pretty_json (indent + 2) v) m) @
           break_line indent @ js ''}'')"
| "pretty_json indent v = JSON_stringify v"

section \<open>Escaping and colouring\<close>

definition replace_unit :: "unit16 \<Rightarrow> jsstring \<Rightarrow> jsstring \<Rightarrow> jsstring" where
  "replace_unit u r s = concat (map (\<lambda>x. if x = u then r else [x]) s)"

definition escapeHtml :: "jsstring \<Rightarrow> jsstring" where
  "escapeHtml s =
     replace_unit 0x3E (js ''&gt;'') (replace_unit 0x3C (js ''&lt;'') (replace_unit 0x26 (js ''&amp;'') s))"

definition dquote :: jsstring where "dquote = [0x22]"

definition span_tag :: "string \<Rightarrow> jsstring" where
  "span_tag color = js ''<span style='' @ dquote @ js ''color: '' @ js color @ dquote @ js ''>''"

definition span_end :: jsstring where "span_end = js ''</span>''"

text \<open>After an opening quote, \<open>.*?"(?!\w):\<close> up to the first closing quote with a colon, on one line.\<close>

fun lazy_key :: "jsstring \<Rightarrow> (jsstring \<times> jsstring) option" where
  "lazy_key [] = None"
| "lazy_key (u # s) =
     (if u = 0x22 \<and> s \<noteq> [] \<and> hd s = 0x3A then Some ([0x22, 0x3A], tl s)
      else if is_line_terminator u then None
      else map_option (\<lambda>(g, r). (u # g, r)) (lazy_key s))"

lemma lazy_key_split: "lazy_key s = Some (g, r) \<Longrightarrow> s = g @ r \<and> g \<noteq> []"
proof (induction s arbitrary: g)
  case (Cons u s)
  show ?case
  proof (cases "u = 0x22 \<and> s \<noteq> [] \<and> hd s = 0x3A")
    case True
    then show ?thesis using Cons.prems by (cases s) auto
  qed (use Cons in \<open>auto split: if_splits\<close>)
qed simp

function color_keys :: "jsstring \<Rightarrow> jsstring" where
  "color_keys [] = []"
| "color_keys (u # s) =
     (case (if u = 0x22 then lazy_key s else None) of
        Some (g, r) \<Rightarrow> span_tag ''var(--omneval-violet-light)'' @ dquote @ (u # g) @ span_end @ js '':'' @ color_keys r
      | None \<Rightarrow> u # color_keys s)"
  by pat_completeness auto
termination
  by (relation "measure length") (auto dest: lazy_key_split split: if_splits)

datatype value_kind = Strings | Numbers | Words

text \<open>\<open>"(?:[^"\\]|\\.)*"\<close> after its first quote.\<close>

fun string_literal :: "jsstring \<Rightarrow> (jsstring \<times> jsstring) option" where
  "string_literal [] = None"
| "string_literal (u # s) =
     (if u = 0x22 then Some ([0x22], s)
      else if u = 0x5C then
        (case s of
           [] \<Rightarrow> None
         | v # t \<Rightarrow> if is_line_terminator v then None
                   else map_option (\<lambda>(g, r). (u # v # g, r)) (string_literal t))
      else map_option (\<lambda>(g, r). (u # g, r)) (string_literal s))"

text \<open>\<open>\d+\.?\d*\<close>\<close>

definition number_literal :: "jsstring \<Rightarrow> (jsstring \<times> jsstring) option" where
  "number_literal s =
     (let (ds, r) = span_digits s
      in if ds = [] then None
         else if r \<noteq> [] \<and> hd r = 0x2E then let (fs, r') = span_digits (tl r) in Some (ds @ 0x2E # fs, r')
         else Some (ds, r))"

definition word_literal :: "jsstring \<Rightarrow> (jsstring \<times> jsstring) option" where
  "word_literal s =
     (case List.find (\<lambda>w. starts_with s (js w)) [''true'', ''false'', ''null''] of
        Some w \<Rightarrow> Some (js w, drop (length w) s)
      | None \<Rightarrow> None)"

fun match_kind :: "value_kind \<Rightarrow> jsstring \<Rightarrow> (jsstring \<times> jsstring) option" where
  "match_kind Strings s =
     (case s of
        u # t \<Rightarrow> if u = 0x22 then map_option (\<lambda>(g, r). (u # g, r)) (string_literal t) else None
      | [] \<Rightarrow> None)"
| "match_kind Numbers s = number_literal s"
| "match_kind Words s = word_literal s"

fun value_color :: "value_kind \<Rightarrow> string" where
  "value_color Strings = ''var(--omneval-violet-pale)''"
| "value_color Numbers = ''#82AAFF''"
| "value_color Words = ''#C792EA''"

lemma string_literal_split: "string_literal s = Some (g, r) \<Longrightarrow> s = g @ r \<and> g \<noteq> []"
proof (induction s arbitrary: g rule: string_literal.induct)
  case (2 u s)
  show ?case
  proof (cases "u = 0x5C")
    case True
    with 2 show ?thesis by (cases s) (auto split: if_splits)
  qed (use 2 in \<open>auto split: if_splits\<close>)
qed simp

lemma span_digits_split: "span_digits s = (ds, r) \<Longrightarrow> s = ds @ r"
  by (auto simp: span_digits_def)

lemma number_literal_split: "number_literal s = Some (g, r) \<Longrightarrow> s = g @ r \<and> g \<noteq> []"
  unfolding number_literal_def Let_def
  by (auto split: prod.splits if_splits dest!: span_digits_split) (metis append_Cons list.collapse)

lemma word_literal_split: "word_literal s = Some (g, r) \<Longrightarrow> s = g @ r \<and> g \<noteq> []"
  by (auto simp: word_literal_def starts_with_iff split: if_splits)

lemma match_kind_split: "match_kind k s = Some (g, r) \<Longrightarrow> s = g @ r \<and> g \<noteq> []"
proof (cases k)
  case Strings
  then show "match_kind k s = Some (g, r) \<Longrightarrow> ?thesis"
    by (auto split: list.splits if_splits dest: string_literal_split)
next
  case Numbers
  then show "match_kind k s = Some (g, r) \<Longrightarrow> ?thesis"
    using number_literal_split [of s g r] by simp
next
  case Words
  then show "match_kind k s = Some (g, r) \<Longrightarrow> ?thesis"
    using word_literal_split [of s g r] by simp
qed

text \<open>The replacement of \<open>:\s*(value)\<close>, for the three kinds of values.\<close>

function color_values :: "value_kind \<Rightarrow> jsstring \<Rightarrow> jsstring" where
  "color_values k [] = []"
| "color_values k (u # s) =
     (case (if u = 0x3A then match_kind k (trim_start s) else None) of
        Some (g, r) \<Rightarrow> js '': '' @ span_tag (value_color k) @ g @ span_end @ color_values k r
      | None \<Rightarrow> u # color_values k s)"
  by pat_completeness auto
termination
proof (relation "measure (length \<circ> snd)"; clarsimp split: if_splits)
  fix k s g r
  assume "match_kind k (trim_start s) = Some (g, r)"
  then have "length r < length (trim_start s)" by (auto dest: match_kind_split)
  also have "length (trim_start s) \<le> length s" by (simp add: trim_start_def length_dropWhile_le)
  finally show "length r < Suc (length s)" by simp
qed

definition highlightJson :: "jsstring \<Rightarrow> jsstring" where
  "highlightJson json =
     color_values Words (color_values Numbers (color_values Strings (color_keys (escapeHtml json))))"

definition rawOutput :: "jsstring \<Rightarrow> jsstring" where
  "rawOutput v =
     (case JSON_parse v of
        Inr obj \<Rightarrow> highlightJson (pretty_json 0 obj)
      | Inl _ \<Rightarrow> escapeHtml v)"

definition JsonCodeBlock :: "jsstring \<Rightarrow> jsstring option \<Rightarrow> 'm view" where
  "JsonCodeBlock v label =
     (if v = [] then box [Text (em_dash @ js '' empty '' @ em_dash)]
      else box ((case label of Some l \<Rightarrow> shown (l \<noteq> []) [box [Text l]] | None \<Rightarrow> []) @
                [Elem ''pre'' [(''innerHTML'', PStr (rawOutput v))] [] []]))"

section \<open>No markup comes from the text\<close>

text \<open>Every \<open><\<close> of a text begins one of the given tags.\<close>

fun only_tags :: "jsstring set \<Rightarrow> jsstring \<Rightarrow> bool" where
  "only_tags T [] = True"
| "only_tags T (u # s) = ((u = 0x3C \<longrightarrow> (\<exists>t\<in>T. starts_with (u # s) t)) \<and> only_tags T s)"

abbreviation light :: jsstring where "light \<equiv> span_tag ''var(--omneval-violet-light)''"

text \<open>A string that runs from a value into the next key cuts the tag of that key at its first quote.\<close>

definition cut_light :: jsstring where
  "cut_light = js ''<span style='' @ dquote @ span_end @ js ''color: var(--omneval-violet-light)'' @ dquote @ js ''>''"

definition key_tags :: "jsstring set" where "key_tags = {light, span_end}"

definition highlight_tags :: "jsstring set" where
  "highlight_tags = key_tags \<union> {cut_light} \<union> (\<lambda>k. span_tag (value_color k)) ` {Strings, Numbers, Words}"

lemma starts_with_longer: "starts_with s p \<Longrightarrow> starts_with (s @ t) p"
  by (auto simp: starts_with_iff)

lemma only_tags_append: "only_tags T x \<Longrightarrow> only_tags T y \<Longrightarrow> only_tags T (x @ y)"
  using starts_with_longer by (induction x) force+

lemma only_tags_plain: "0x3C \<notin> set x \<Longrightarrow> only_tags T x"
  by (induction x) auto

lemma only_tags_suffix: "only_tags T (x @ y) \<Longrightarrow> only_tags T y"
  by (induction x) auto

lemma only_tags_mono: "only_tags T x \<Longrightarrow> T \<subseteq> T' \<Longrightarrow> only_tags T' x"
  by (induction x) auto

lemma only_tags_tag: "0x3C # p \<in> T \<Longrightarrow> 0x3C \<notin> set p \<Longrightarrow> only_tags T (0x3C # p)"
  by (simp add: only_tags_plain starts_with_def bexI [of _ "0x3C # p"])

lemma js_lt: "0x3C \<in> set (js s) \<longleftrightarrow> CHR ''<'' \<in> set s"
proof -
  have "(0x3C :: 16 word) = of_char (CHR ''<'')" by (simp add: of_char_def)
  then show ?thesis
    by (simp only: js_def list.set_map image_iff of_char_word_inj) blast
qed

lemma js_Cons: "js (c # s) = of_char c # js s"
  by (simp add: js_def)

lemma only_tags_span:
  assumes "span_tag c \<in> T" and "CHR ''<'' \<notin> set c"
  shows "only_tags T (span_tag c)"
proof -
  have "span_tag c = 0x3C # js ''span style='' @ dquote @ js ''color: '' @ js c @ dquote @ js ''>''"
    by (simp add: span_tag_def js_Cons of_char_def)
  moreover have "0x3C \<notin> set (js ''span style='' @ dquote @ js ''color: '' @ js c @ dquote @ js ''>'')"
    using assms(2) by (simp add: js_lt dquote_def)
  ultimately show ?thesis using assms(1) by (metis only_tags_tag)
qed

lemma only_tags_end: "span_end \<in> T \<Longrightarrow> only_tags T span_end"
  using only_tags_tag [of "js ''/span>''" T] by (simp add: span_end_def js_Cons of_char_def js_lt)

lemma value_color_plain: "CHR ''<'' \<notin> set (value_color k)"
  by (cases k) auto

lemma escapeHtml_plain: "0x3C \<notin> set (escapeHtml s)"
  by (auto simp: escapeHtml_def replace_unit_def js_lt split: if_splits)

lemma color_keys_tags: "0x3C \<notin> set s \<Longrightarrow> only_tags key_tags (color_keys s)"
proof (induction s rule: color_keys.induct)
  case (2 u s)
  show ?case
  proof (cases "if u = 0x22 then lazy_key s else None")
    case None
    with 2 show ?thesis by simp
  next
    case (Some x)
    then obtain g r where x: "x = (g, r)" and "lazy_key s = Some (g, r)"
      by (cases x) (auto split: if_splits)
    then have s: "s = g @ r" using lazy_key_split by blast
    have "only_tags key_tags light" "only_tags key_tags span_end"
      by (simp_all add: only_tags_span only_tags_end key_tags_def)
    moreover have "only_tags key_tags dquote" "only_tags key_tags (u # g)" "only_tags key_tags (js '':'')"
      using 2(3) s by (intro only_tags_plain; simp add: dquote_def js_lt)+
    moreover have "only_tags key_tags (color_keys r)"
      using 2(2) [OF Some x [symmetric]] 2(3) s by simp
    ultimately have "only_tags key_tags (light @ dquote @ (u # g) @ span_end @ js '':'' @ color_keys r)"
      by (intro only_tags_append)
    with Some x show ?thesis by simp
  qed
qed simp

text \<open>A piece a pass goes over without finding a value.\<close>

definition copies :: "value_kind \<Rightarrow> jsstring \<Rightarrow> bool" where
  "copies k p \<longleftrightarrow> (\<forall>t. color_values k (p @ t) = p @ color_values k t)"

lemma copies_plain: "0x3A \<notin> set p \<Longrightarrow> copies k p"
  unfolding copies_def by (induction p) auto

lemma copies_append: "copies k p \<Longrightarrow> copies k q \<Longrightarrow> copies k (p @ q)"
  by (simp add: copies_def)

lemma copies_colon:
  assumes "u = 0x76 \<or> u = 0x23"
  shows "copies k [0x3A, 0x20, u]"
proof -
  have trim: "trim_start (0x20 # u # t) = u # t" for t
    using assms by (auto simp: trim_start_def is_space_unit_def)
  have none: "match_kind k (u # t) = None" for t
    using assms by (cases k)
      (auto simp: number_literal_def span_digits_def is_digit_unit_def word_literal_def starts_with_def js_def
        of_char_def Let_def)
  have "color_values k (0x3A # 0x20 # u # t) = 0x3A # 0x20 # u # color_values k t" for t
    using assms none trim by auto
  then show ?thesis by (simp add: copies_def)
qed

lemma js_colon: "0x3A \<in> set (js s) \<longleftrightarrow> CHR '':'' \<in> set s"
proof -
  have "(0x3A :: 16 word) = of_char (CHR '':'')" by (simp add: of_char_def)
  then show ?thesis
    by (simp only: js_def list.set_map image_iff of_char_word_inj) blast
qed

lemma copies_style:
  assumes "c = CHR ''v'' \<or> c = CHR ''#''" and "CHR '':'' \<notin> set s"
  shows "copies k (js ''color: '' @ js (c # s) @ dquote @ js ''>'')"
proof -
  have "js ''color: '' @ js (c # s) @ dquote @ js ''>'' =
      js ''color'' @ [0x3A, 0x20, of_char c] @ (js s @ dquote @ js ''>'')"
    by (simp add: js_def of_char_def)
  moreover have "copies k [0x3A, 0x20, of_char c]"
    using assms(1) by (intro copies_colon) (auto simp: of_char_def)
  moreover have "copies k (js ''color'')" "copies k (js s @ dquote @ js ''>'')"
    using assms(2) by (auto intro!: copies_plain simp: js_colon dquote_def)
  ultimately show ?thesis using copies_append by metis
qed

lemma copies_tags: "t \<in> highlight_tags \<Longrightarrow> copies k t"
proof -
  have s: "copies k (js ''<span style='' @ dquote)" "copies k span_end"
    by (rule copies_plain; simp add: js_colon dquote_def span_end_def)+
  have v: "copies k (js ''color: '' @ js c @ dquote @ js ''>'')"
    if "c = ''var(--omneval-violet-light)'' \<or> c = value_color k'" for c k'
    using that copies_style by (cases k') auto
  have t: "copies k (span_tag c)" if "c = ''var(--omneval-violet-light)'' \<or> c = value_color k'" for c k'
    using copies_append [OF s(1) v [OF that]] by (simp add: span_tag_def)
  have "js ''color: var(--omneval-violet-light)'' = js ''color: '' @ js ''var(--omneval-violet-light)''"
    by (simp flip: js_append)
  then have "copies k cut_light"
    using copies_append [OF copies_append [OF s] v [of "''var(--omneval-violet-light)''" Words]]
    by (simp only: cut_light_def append_assoc simp_thms)
  moreover have "copies k (span_tag (value_color k'))" for k' using t [of "value_color k'" k'] by simp
  moreover have "copies k light" using t [of _ Words] by simp
  ultimately show "t \<in> highlight_tags \<Longrightarrow> copies k t"
    using s(2) by (auto simp: highlight_tags_def key_tags_def simp del: value_color.simps)
qed

text \<open>A pass over text whose tags it copies keeps them whole.\<close>

lemma color_values_step:
  assumes "only_tags T (u # s)" and "T \<subseteq> highlight_tags" and "T \<subseteq> T'"
    and none: "(if u = 0x3A then match_kind k (trim_start s) else None) = None"
    and IH: "only_tags T' (color_values k s)"
  shows "only_tags T' (color_values k (u # s))"
proof -
  have eq: "color_values k (u # s) = u # color_values k s" using none by simp
  have "\<exists>t\<in>T'. starts_with (u # color_values k s) t" if "u = 0x3C"
  proof -
    have "\<exists>t\<in>T. starts_with (u # s) t" using assms(1) that by simp
    then obtain t where t: "t \<in> T" "starts_with (u # s) t" by blast
    then obtain q where "u # s = t @ q" by (auto simp: starts_with_iff)
    then have "color_values k (u # s) = t @ color_values k q"
      using copies_tags [of t k] t(1) assms(2) by (auto simp: copies_def)
    then have "starts_with (u # color_values k s) t" by (metis eq starts_with_iff)
    then show ?thesis using t(1) assms(3) by blast
  qed
  with IH show ?thesis unfolding eq only_tags.simps by blast
qed

lemma color_values_match:
  assumes "(if u = 0x3A then match_kind k (trim_start s) else None) = Some (g, r)"
    and "span_tag (value_color k) \<in> T'" and "only_tags T' (g @ span_end @ color_values k r)"
  shows "only_tags T' (color_values k (u # s))"
proof -
  have "only_tags T' (span_tag (value_color k))"
    by (rule only_tags_span) (auto simp: assms(2) value_color_plain)
  moreover have "only_tags T' (js '': '')" by (rule only_tags_plain) (simp add: js_lt)
  ultimately have "only_tags T' (js '': '' @ span_tag (value_color k) @ g @ span_end @ color_values k r)"
    using only_tags_append [OF _ only_tags_append [OF _ assms(3)]] by blast
  with assms(1) show ?thesis by (simp split: if_splits)
qed

lemma trim_start_suffix: "\<exists>sp. s = sp @ trim_start s"
  unfolding trim_start_def by (metis takeWhile_dropWhile_id)

lemma digits_plain: "fst (span_digits s) = ds \<Longrightarrow> 0x3C \<notin> set ds"
  by (auto simp: span_digits_def is_digit_unit_def dest!: set_takeWhileD)

lemma number_plain: "number_literal s = Some (g, r) \<Longrightarrow> 0x3C \<notin> set g"
  using digits_plain [of s] digits_plain [of "tl (snd (span_digits s))"]
  by (auto simp: number_literal_def Let_def split: prod.splits if_splits)

lemma word_plain: "word_literal s = Some (g, r) \<Longrightarrow> 0x3C \<notin> set g"
  by (auto simp: word_literal_def js_lt split: if_splits)

lemma plain_pass:
  assumes "T \<subseteq> highlight_tags"
  shows "k \<noteq> Strings \<Longrightarrow> T' = T \<union> {span_tag (value_color k), span_end} \<Longrightarrow> only_tags T s \<Longrightarrow>
    only_tags T' (color_values k s)"
proof (induction k s rule: color_values.induct)
  case (2 k u s)
  show ?case
  proof (cases "if u = 0x3A then match_kind k (trim_start s) else None")
    case None
    then have "only_tags T' (color_values k s)" using 2(1,3,4,5) by simp
    with None 2(4,5) assms show ?thesis by (intro color_values_step [of T]) auto
  next
    case (Some x)
    then obtain g r where x: "x = (g, r)" and m: "match_kind k (trim_start s) = Some (g, r)"
      by (cases x) (auto split: if_splits)
    obtain sp where "s = sp @ g @ r"
      using match_kind_split [OF m] trim_start_suffix [of s] by metis
    then have "only_tags T r"
      using 2(5) only_tags_suffix [of T "u # sp @ g" r] by simp
    then have "only_tags T' (color_values k r)" using 2(2) [OF Some x [symmetric] 2(3,4)] by simp
    moreover have "0x3C \<notin> set g"
      using m 2(3) number_plain word_plain by (cases k) auto
    moreover have "only_tags T' span_end" using 2(4) by (intro only_tags_end) simp
    ultimately have "only_tags T' (g @ span_end @ color_values k r)"
      using only_tags_append [OF only_tags_plain only_tags_append] by blast
    with Some x 2(4) show ?thesis by (intro color_values_match) auto
  qed
qed simp

section \<open>Strings that run over a key\<close>

text \<open>A quote inside a matched string is escaped.\<close>

lemma string_literal_quotes:
  "string_literal s = Some (g, r) \<Longrightarrow>
   last g = 0x22 \<and> (\<forall>p q. g = p @ 0x22 # q \<longrightarrow> q \<noteq> [] \<longrightarrow> p \<noteq> [] \<and> last p = 0x5C)"
proof (induction s arbitrary: g rule: string_literal.induct)
  case (2 u s)
  consider "u = 0x22" | v t where "u = 0x5C" "s = v # t" | "u \<noteq> 0x22" "u \<noteq> 0x5C"
    using 2(3) by (cases s; cases "u = 0x22"; cases "u = 0x5C") auto
  then show ?case
  proof cases
    case 1
    then show ?thesis using 2(3) by (auto simp: Cons_eq_append_conv)
  next
    case (2 v t)
    then obtain g' where g': "string_literal t = Some (g', r)" "g = u # v # g'"
      using "2.prems" by (auto split: if_splits)
    have IH: "last g' = 0x22 \<and> (\<forall>p q. g' = p @ 0x22 # q \<longrightarrow> q \<noteq> [] \<longrightarrow> p \<noteq> [] \<and> last p = 0x5C)"
      using "2.IH"(1) [of v t] 2 g'(1) "2.prems" by (auto split: if_splits)
    have "g' \<noteq> []" using string_literal_split g'(1) by blast
    then show ?thesis using IH g'(2) 2(1) by (auto simp: Cons_eq_append_conv)
  next
    case 3
    then obtain g' where g': "string_literal s = Some (g', r)" "g = u # g'"
      using "2.prems" by auto
    then have IH: "last g' = 0x22 \<and> (\<forall>p q. g' = p @ 0x22 # q \<longrightarrow> q \<noteq> [] \<longrightarrow> p \<noteq> [] \<and> last p = 0x5C)"
      using "2.IH"(2) 3 by blast
    have "g' \<noteq> []" using string_literal_split g'(1) by blast
    then show ?thesis using IH g'(2) 3 by (auto simp: Cons_eq_append_conv)
  qed
qed simp

definition string_tags :: "jsstring set" where
  "string_tags = key_tags \<union> {cut_light, span_tag (value_color Strings)}"

lemma first_quote:
  assumes "x @ c # us = as @ c # rest" and "c \<notin> set as"
  shows "x = as \<or> (\<exists>y. x = as @ c # y \<and> rest = y @ c # us)"
  using assms by (auto simp: append_eq_append_conv2 append_eq_Cons_conv Cons_eq_append_conv)

lemma js_quote: "0x22 \<in> set (js s) \<longleftrightarrow> CHR 0x22 \<in> set s"
proof -
  have "(0x22 :: 16 word) = of_char (CHR 0x22)" by (simp add: of_char_def)
  then show ?thesis
    by (simp only: js_def list.set_map image_iff of_char_word_inj) blast
qed

lemma cut_of_light:
  assumes "light = g @ us" and "g \<noteq> []" and "last g = 0x22"
  shows "g = js ''<span style='' @ dquote \<or>
    g = js ''<span style='' @ 0x22 # js ''color: var(--omneval-violet-light)'' @ [0x22]"
proof -
  obtain x where x: "g = x @ [0x22]" using assms(2,3) by (metis append_butlast_last_id)
  have l: "light = js ''<span style='' @ 0x22 # js ''color: var(--omneval-violet-light)'' @ 0x22 # js ''>''"
    by (simp add: span_tag_def dquote_def js_append [symmetric] flip: append_assoc)
  have e1: "x @ 0x22 # us = js ''<span style='' @ 0x22 # (js ''color: var(--omneval-violet-light)'' @ 0x22 # js ''>'')"
    using assms(1) x l by simp
  have A: "0x22 \<notin> set (js ''<span style='')" "0x22 \<notin> set (js ''color: var(--omneval-violet-light)'')"
      "0x22 \<notin> set (js ''>'')"
    by (simp_all add: js_quote)
  consider "x = js ''<span style=''"
    | y where "x = js ''<span style='' @ 0x22 # y"
        "js ''color: var(--omneval-violet-light)'' @ 0x22 # js ''>'' = y @ 0x22 # us"
    using first_quote [OF e1 A(1)] by blast
  then show ?thesis
  proof cases
    case (2 y)
    have "y = js ''color: var(--omneval-violet-light)''"
      using first_quote [OF 2(2) [symmetric] A(2)] A(3) by auto
    with 2(1) x show ?thesis by simp
  qed (simp add: x dquote_def)
qed

lemma string_tags:
  assumes "only_tags key_tags (g @ r)" and "g = [] \<or> last g = 0x22"
    and "\<forall>p q. g = p @ 0x22 # q \<longrightarrow> q \<noteq> [] \<longrightarrow> p \<noteq> [] \<longrightarrow> last p = 0x5C"
    and "only_tags string_tags (color_values Strings r)"
  shows "only_tags string_tags (g @ span_end @ color_values Strings r)"
  using assms
proof (induction g)
  case Nil
  have "only_tags string_tags span_end" by (rule only_tags_end) (simp add: string_tags_def key_tags_def)
  with Nil show ?case by (simp add: only_tags_append)
next
  case (Cons u g)
  have IH: "only_tags string_tags (g @ span_end @ color_values Strings r)"
  proof (rule Cons.IH)
    show "\<forall>p q. g = p @ 0x22 # q \<longrightarrow> q \<noteq> [] \<longrightarrow> p \<noteq> [] \<longrightarrow> last p = 0x5C"
      using Cons.prems(3) by (metis append_Cons last.simps list.distinct(1))
  qed (use Cons.prems in \<open>auto split: if_splits\<close>)
  have "\<exists>t\<in>string_tags. starts_with ((u # g) @ span_end @ color_values Strings r) t" if u: "u = 0x3C"
  proof -
    have "\<exists>t\<in>key_tags. starts_with ((u # g) @ r) t" using Cons.prems(1) u by simp
    then obtain t q where t: "t \<in> key_tags" "(u # g) @ r = t @ q" by (auto simp: starts_with_iff)
    then consider us where "u # g = t @ us" | us where "t = (u # g) @ us" "r = us @ q"
      using append_eq_append_conv2 [of "u # g" r t q] by blast
    then show ?thesis
    proof cases
      case (1 us)
      then have "starts_with ((u # g) @ span_end @ color_values Strings r) t" by (auto simp: starts_with_iff)
      then show ?thesis using t(1) by (auto simp: string_tags_def)
    next
      case (2 us)
      have lst: "last (u # g) = 0x22" using Cons.prems(2) by simp
      then have "0x22 \<in> set t" using 2(1) by (metis in_set_conv_decomp append_butlast_last_id list.distinct(1) append_assoc append_Cons)
      then have "t = light" using t(1) by (auto simp: key_tags_def span_end_def js_quote)
      then have l: "light = (u # g) @ us" using 2(1) by simp
      from cut_of_light [OF l _ lst] have "u # g = js ''<span style='' @ dquote \<or>
        u # g = js ''<span style='' @ 0x22 # js ''color: var(--omneval-violet-light)'' @ [0x22]" by simp
      moreover have False
        if "u # g = js ''<span style='' @ 0x22 # js ''color: var(--omneval-violet-light)'' @ [0x22]"
        using Cons.prems(3) [rule_format, OF that] by (simp add: js_def of_char_def)
      ultimately have g: "u # g = js ''<span style='' @ dquote" by blast
      have us: "us = js ''color: '' @ js ''var(--omneval-violet-light)'' @ dquote @ js ''>''"
        using l unfolding g by (simp add: span_tag_def)
      have "color_values Strings r = us @ color_values Strings q"
        using copies_style [of "CHR ''v''" "''ar(--omneval-violet-light)''" Strings] 2(2)
        unfolding us by (simp add: copies_def)
      then have "(u # g) @ span_end @ color_values Strings r = cut_light @ color_values Strings q"
        unfolding g us by (simp add: cut_light_def flip: js_append)
      then show ?thesis by (auto simp: starts_with_iff string_tags_def)
    qed
  qed
  with IH show ?case by simp
qed

lemma string_pass: "k = Strings \<Longrightarrow> only_tags key_tags s \<Longrightarrow> only_tags string_tags (color_values k s)"
proof (induction k s rule: color_values.induct)
  case (2 k u s)
  have sub: "key_tags \<subseteq> highlight_tags" "key_tags \<subseteq> string_tags"
    by (auto simp: highlight_tags_def string_tags_def)
  show ?case
  proof (cases "if u = 0x3A then match_kind k (trim_start s) else None")
    case None
    then have "only_tags string_tags (color_values k s)" using 2 by simp
    with None 2(4) sub show ?thesis by (intro color_values_step [of key_tags]) auto
  next
    case (Some x)
    then obtain g r where x: "x = (g, r)" and m: "match_kind k (trim_start s) = Some (g, r)"
      by (cases x) (auto split: if_splits)
    obtain sp where s: "s = sp @ g @ r"
      using match_kind_split [OF m] trim_start_suffix [of s] by metis
    then have gr: "only_tags key_tags (g @ r)"
      using 2(4) only_tags_suffix [of key_tags "u # sp" "g @ r"] by simp
    then have r: "only_tags string_tags (color_values Strings r)"
      using 2(2) [OF Some x [symmetric] 2(3)] only_tags_suffix 2(3) by blast
    obtain t g' where g': "string_literal t = Some (g', r)" "g = 0x22 # g'"
      using m 2(3) by (auto split: list.splits if_splits)
    have "last g = 0x22"
      using string_literal_quotes [OF g'(1)] string_literal_split [OF g'(1)] g'(2) by simp
    moreover have "\<forall>p q. g = p @ 0x22 # q \<longrightarrow> q \<noteq> [] \<longrightarrow> p \<noteq> [] \<longrightarrow> last p = 0x5C"
      using string_literal_quotes [OF g'(1)] g'(2) by (auto simp: Cons_eq_append_conv)
    ultimately have "only_tags string_tags (g @ span_end @ color_values Strings r)"
      using string_tags [OF gr _ _ r] by blast
    with Some x 2(3) show ?thesis by (intro color_values_match) (auto simp: string_tags_def)
  qed
qed simp

lemma highlightJson_tags: "only_tags highlight_tags (highlightJson s)"
proof -
  have "only_tags string_tags (color_values Strings (color_keys (escapeHtml s)))"
    by (simp add: string_pass color_keys_tags escapeHtml_plain)
  then have "only_tags highlight_tags (color_values Strings (color_keys (escapeHtml s)))"
    by (rule only_tags_mono) (auto simp: string_tags_def highlight_tags_def)
  moreover have "highlight_tags = highlight_tags \<union> {span_tag (value_color k), span_end}" for k
    by (cases k) (auto simp: highlight_tags_def key_tags_def)
  ultimately show ?thesis
    unfolding highlightJson_def by (metis plain_pass subset_refl value_kind.distinct(1,3))
qed

lemma only_tags_at: "only_tags T (p @ 0x3C # q) \<Longrightarrow> \<exists>t\<in>T. starts_with (0x3C # q) t"
  by (induction p) auto

text \<open>
  C5: whatever text the block is given, the HTML it sets holds no markup of the text: every \<open><\<close> in it
  begins one of six fixed tags, none of which the text has a part in. This covers texts that are not
  JSON and JSON whose strings hold tags, escapes, colons and quotes, including those that make a
  colouring pass run over the tags of an earlier one.
\<close>

theorem no_markup_from_text:
  assumes "rawOutput v = p @ 0x3C # q"
  shows "\<exists>t\<in>highlight_tags. starts_with (0x3C # q) t"
proof -
  have "only_tags highlight_tags (rawOutput v)"
    by (simp add: rawOutput_def highlightJson_tags only_tags_plain escapeHtml_plain split: sum.split)
  then show ?thesis using assms by (metis only_tags_at)
qed

definition small_object :: jsstring where
  "small_object = js ''{'' @ dquote @ dquote @ js '':0}''"

lemma no_markup_from_text_witness:
  "\<exists>t\<in>highlight_tags. starts_with (drop 4 (rawOutput small_object)) t"
proof -
  have "4 < length (rawOutput small_object) \<and> rawOutput small_object ! 4 = 0x3C" by code_simp
  then have "rawOutput small_object = take 4 (rawOutput small_object) @ 0x3C # drop 5 (rawOutput small_object)"
    and d: "drop 4 (rawOutput small_object) = 0x3C # drop 5 (rawOutput small_object)"
    using id_take_nth_drop [of 4 "rawOutput small_object"] Cons_nth_drop_Suc [of 4 "rawOutput small_object"]
    by simp_all
  from no_markup_from_text [OF this(1)] show ?thesis by (simp only: d)
qed

lemma lazy_key_first:
  "0x22 \<notin> set k \<Longrightarrow> list_all (\<lambda>u. \<not> is_line_terminator u) k \<Longrightarrow>
   lazy_key (k @ 0x22 # 0x3A # r) = Some (k @ [0x22, 0x3A], r)"
  by (induction k) auto

text \<open>
  The key pass garbles what it colours. Its group takes in the quotes and the colon of a key, and the
  replacement writes an opening quote and a colon of its own, so \<open>"k":\<close> is shown as \<open>""k"::\<close>.
\<close>

theorem key_shown_garbled:
  assumes "0x22 \<notin> set k" and "list_all (\<lambda>u. \<not> is_line_terminator u) k"
  shows "color_keys (dquote @ k @ dquote @ js '':'' @ r) =
    light @ dquote @ (dquote @ k @ dquote @ js '':'') @ span_end @ js '':'' @ color_keys r"
  using lazy_key_first [OF assms] by (simp add: dquote_def js_Cons of_char_def)

lemma key_shown_garbled_witness:
  "color_keys (dquote @ js ''k'' @ dquote @ js '':'' @ []) =
    light @ dquote @ dquote @ js ''k'' @ dquote @ js '':'' @ span_end @ js '':''"
  using key_shown_garbled [of "js ''k''" "[]"] by (simp add: js_quote is_line_terminator_def js_def of_char_def)

end
