(* ===== verification/AnalyticsBatch.thy ===== *)
theory AnalyticsBatch
  imports Json "HOL-Library.Multiset"
begin

text \<open>
  \<open>fetchAnalyticsBatch\<close> of \<open>Dashboard.tsx\<close>: a pool of workers that share a counter, each posting one
  request after another. A worker runs from one \<open>await fetch\<close> to the next without interruption, so
  the pool moves in steps: a reply comes in for one of the requests in flight. The ghost field
  \<open>posted\<close> lists the requests sent, by index; a run also keeps the replies it has seen.
\<close>

section \<open>The pool\<close>

definition ANALYTICS_FETCH_CONCURRENCY :: int where "ANALYTICS_FETCH_CONCURRENCY = 3"

datatype worker = Starting | Fetching nat | Returned | Failed

record ('e, 'r) pool =
  next_index :: nat
  workers :: "worker list"
  responses :: "'r option list"
  posted :: "nat list"
  failure :: "'e option"

text \<open>\<open>const i = next++\<close> and what follows up to the next suspension.\<close>

definition take_next :: "nat \<Rightarrow> nat \<Rightarrow> ('e, 'r) pool \<Rightarrow> ('e, 'r) pool" where
  "take_next n w b =
     (let i = next_index b; b' = b\<lparr>next_index := i + 1\<rparr>
      in if n \<le> i then b'\<lparr>workers := (workers b)[w := Returned]\<rparr>
         else b'\<lparr>workers := (workers b)[w := Fetching i], posted := posted b @ [i]\<rparr>)"

text \<open>The reply to request \<open>i\<close> of worker \<open>w\<close>. A failed \<open>fetch\<close> ends the worker by an exception.\<close>

definition settle :: "nat \<Rightarrow> nat \<Rightarrow> nat \<Rightarrow> ('e, 'r) result \<Rightarrow> ('e, 'r) pool \<Rightarrow> ('e, 'r) pool" where
  "settle n w i reply b =
     (case reply of
        Inr r \<Rightarrow> take_next n w (b\<lparr>responses := (responses b)[i := Some r]\<rparr>)
      | Inl e \<Rightarrow> b\<lparr>workers := (workers b)[w := Failed],
                   failure := (case failure b of None \<Rightarrow> Some e | Some e' \<Rightarrow> Some e')\<rparr>)"

definition workerCount :: "nat \<Rightarrow> int \<Rightarrow> nat" where
  "workerCount n concurrency = nat (max 1 (min concurrency (int n)))"

definition new_pool :: "nat \<Rightarrow> nat \<Rightarrow> ('e, 'r) pool" where
  "new_pool n k =
     \<lparr>next_index = 0, workers = replicate k Starting, responses = replicate n None, posted = [], failure = None\<rparr>"

definition start_pool :: "nat \<Rightarrow> int \<Rightarrow> ('e, 'r) pool" where
  "start_pool n concurrency =
     fold (take_next n) [0..<workerCount n concurrency] (new_pool n (workerCount n concurrency))"

text \<open>\<open>Promise.all\<close> over the workers: the first failure, or the array once all have returned.\<close>

definition pool_outcome :: "('e, 'r) pool \<Rightarrow> ('e, 'r option list) result option" where
  "pool_outcome b =
     (case failure b of
        Some e \<Rightarrow> Some (Inl e)
      | None \<Rightarrow> if list_all (\<lambda>w. w = Returned) (workers b) then Some (Inr (responses b)) else None)"

section \<open>Runs\<close>

fun fetching :: "worker \<Rightarrow> nat option" where
  "fetching (Fetching i) = Some i"
| "fetching _ = None"

definition pool_inflight :: "('e, 'r) pool \<Rightarrow> nat list" where
  "pool_inflight b = List.map_filter fetching (workers b)"

inductive pool_run :: "nat \<Rightarrow> int \<Rightarrow> (nat \<times> ('e, 'r) result) list \<Rightarrow> ('e, 'r) pool \<Rightarrow> bool" for n c where
  run_start: "pool_run n c [] (start_pool n c)"
| run_reply: "pool_run n c seen b \<Longrightarrow> w < length (workers b) \<Longrightarrow> workers b ! w = Fetching i \<Longrightarrow>
    pool_run n c (seen @ [(i, reply)]) (settle n w i reply b)"

definition is_failure :: "nat \<times> ('e, 'r) result \<Rightarrow> bool" where
  "is_failure x \<longleftrightarrow> (\<exists>e. snd x = Inl e)"

definition remembers :: "nat \<Rightarrow> (nat \<times> ('e, 'r) result) list \<Rightarrow> 'r option list \<Rightarrow> bool" where
  "remembers n seen rs \<longleftrightarrow>
     length rs = n \<and> (\<forall>i<n. \<forall>r. rs ! i = Some r \<longleftrightarrow> (i, Inr r) \<in> set seen)"

definition statuses :: "nat \<Rightarrow> (nat \<times> ('e, 'r) result) list \<Rightarrow> ('e, 'r) pool \<Rightarrow> bool" where
  "statuses n seen b \<longleftrightarrow>
     Starting \<notin> set (workers b) \<and>
     (Returned \<in> set (workers b) \<longrightarrow> n \<le> next_index b) \<and>
     (Failed \<in> set (workers b) \<longleftrightarrow> (\<exists>x\<in>set seen. is_failure x)) \<and>
     (failure b \<noteq> None \<longleftrightarrow> (\<exists>x\<in>set seen. is_failure x))"

definition accounts :: "nat \<Rightarrow> (nat \<times> ('e, 'r) result) list \<Rightarrow> ('e, 'r) pool \<Rightarrow> bool" where
  "accounts n seen b \<longleftrightarrow>
     posted b = [0..<min (next_index b) n] \<and>
     mset (pool_inflight b) + mset (map fst seen) = mset [0..<min (next_index b) n]"

definition pool_inv :: "nat \<Rightarrow> int \<Rightarrow> (nat \<times> ('e, 'r) result) list \<Rightarrow> ('e, 'r) pool \<Rightarrow> bool" where
  "pool_inv n c seen b \<longleftrightarrow>
     length (workers b) = workerCount n c \<and> remembers n seen (responses b) \<and>
     statuses n seen b \<and> accounts n seen b"

lemmas pool_inv_defs = pool_inv_def remembers_def statuses_def accounts_def

lemma fetching_Some [simp]: "fetching w = Some i \<longleftrightarrow> w = Fetching i"
  by (cases w) auto

lemma inflight_update:
  assumes "w < length ws" "ws ! w = Fetching i"
  shows "mset (List.map_filter fetching (ws[w := v])) + {#i#} =
    mset (List.map_filter fetching ws) + (case fetching v of None \<Rightarrow> {#} | Some j \<Rightarrow> {#j#})"
  using assms
proof (induction ws arbitrary: w)
  case (Cons a ws)
  then show ?case
    by (cases w) (auto simp: map_filter_simps split: option.splits)
qed simp

lemma start_prefix:
  "k \<le> n \<Longrightarrow> k \<le> m \<Longrightarrow>
   fold (take_next n) [0..<k] (new_pool n m) =
     \<lparr>next_index = k, workers = map Fetching [0..<k] @ replicate (m - k) Starting,
      responses = replicate n None, posted = [0..<k], failure = None\<rparr>"
proof (induction k)
  case (Suc k)
  have "(map Fetching [0..<k] @ replicate (m - k) Starting)[k := Fetching k] =
      map Fetching [0..<Suc k] @ replicate (m - Suc k) Starting"
    using Suc.prems by (cases "m - k") (auto simp: list_update_append)
  with Suc show ?case by (simp add: take_next_def)
qed (simp add: new_pool_def)

lemma workerCount_le: "0 < n \<Longrightarrow> workerCount n c \<le> n"
  by (auto simp: workerCount_def)

lemma start_pool_eq:
  "0 < n \<Longrightarrow> start_pool n c =
     (let k = workerCount n c
      in \<lparr>next_index = k, workers = map Fetching [0..<k], responses = replicate n None,
          posted = [0..<k], failure = None\<rparr>)"
  using start_prefix [of "workerCount n c" n "workerCount n c"] workerCount_le [of n c]
  by (simp add: start_pool_def Let_def)

lemma start_pool_empty:
  "start_pool 0 c = \<lparr>next_index = 1, workers = [Returned], responses = [], posted = [], failure = None\<rparr>"
  by (simp add: start_pool_def workerCount_def new_pool_def take_next_def min_def)

lemma inflight_fetching: "List.map_filter fetching (map Fetching xs) = xs"
  by (induction xs) (simp_all add: map_filter_simps)

lemma pool_inv_start: "pool_inv n c [] (start_pool n c)"
proof (cases "n = 0")
  case True
  then show ?thesis
    by (simp add: start_pool_empty pool_inv_defs workerCount_def pool_inflight_def map_filter_simps)
next
  case False
  then have "workerCount n c \<le> n" by (simp add: workerCount_le)
  with False show ?thesis
    by (auto simp: start_pool_eq Let_def pool_inv_defs pool_inflight_def inflight_fetching min_absorb1)
qed

lemma in_flight_index:
  assumes "accounts n seen b" and "w < length (workers b)" and "workers b ! w = Fetching i"
  shows "i < n" "i \<notin> fst ` set seen"
proof -
  have "Fetching i \<in> set (workers b)"
    using assms(2,3) by (metis nth_mem)
  then have i: "i \<in> set (pool_inflight b)"
    by (force simp: pool_inflight_def in_set_map_filter)
  have eq: "mset (pool_inflight b @ map fst seen) = mset [0..<min (next_index b) n]"
    using assms(1) by (simp add: accounts_def)
  then have "set (pool_inflight b @ map fst seen) = {0..<min (next_index b) n}"
    by (metis mset_eq_setD set_upt)
  with i show "i < n" by auto
  have "distinct (pool_inflight b @ map fst seen)"
    using eq mset_eq_imp_distinct_iff distinct_upt by metis
  with i show "i \<notin> fst ` set seen" by auto
qed

lemma remembers_settle:
  assumes "remembers n seen (responses b)" and "i < n" and "i \<notin> fst ` set seen"
  shows "remembers n (seen @ [(i, reply)]) (responses (settle n w i reply b))"
proof -
  have fresh: "(i, x) \<notin> set seen" for x using assms(3) by force
  show ?thesis
    using assms(1,2) fresh
    by (cases reply) (auto simp: remembers_def settle_def take_next_def Let_def nth_list_update)
qed

lemma statuses_settle:
  assumes st: "statuses n seen b" and w: "w < length (workers b)" and f: "workers b ! w = Fetching i"
  shows "statuses n (seen @ [(i, reply)]) (settle n w i reply b)"
proof -
  have noset: "x \<in> set ((workers b)[w := v]) \<longleftrightarrow> x = v \<or> x \<in> set (workers b)"
    if "x = Starting \<or> x = Returned \<or> x = Failed" for x v
    using w f that by (metis in_set_conv_nth length_list_update nth_list_update worker.distinct)
  show ?thesis
    using st by (cases reply)
      (auto simp: statuses_def settle_def take_next_def Let_def noset is_failure_def split: option.splits)
qed

lemma move_one: "A' + {#i#} = A + X \<Longrightarrow> A + L = P \<Longrightarrow> A' + (L + {#i#}) = P + X"
  by (metis add.assoc add.commute)

lemma accounts_settle:
  assumes acc: "accounts n seen b" and w: "w < length (workers b)" and f: "workers b ! w = Fetching i"
  shows "accounts n (seen @ [(i, reply)]) (settle n w i reply b)"
proof -
  define b' where "b' = settle n w i reply b"
  define new where "new = (if isl reply \<or> n \<le> next_index b then [] else [next_index b])"
  have eq: "mset (pool_inflight b) + mset (map fst seen) = mset [0..<min (next_index b) n]"
    using acc by (simp add: accounts_def)
  have n': "[0..<min (next_index b') n] = [0..<min (next_index b) n] @ new"
    and p': "posted b' = posted b @ new"
    by (cases reply; auto simp: b'_def new_def settle_def take_next_def min_def Let_def)+
  have "mset (pool_inflight b') + {#i#} = mset (pool_inflight b) + mset new"
    using inflight_update [OF w f, of Failed] inflight_update [OF w f, of Returned]
      inflight_update [OF w f, of "Fetching (next_index b)"]
    by (cases reply) (auto simp: b'_def new_def settle_def take_next_def Let_def pool_inflight_def)
  from move_one [OF this eq]
  have "mset (pool_inflight b') + mset (map fst (seen @ [(i, reply)])) = mset [0..<min (next_index b') n]"
    by (simp add: n')
  then show ?thesis
    using acc unfolding accounts_def b'_def [symmetric] p' n' by simp
qed

lemma pool_inv_settle:
  assumes inv: "pool_inv n c seen b" and w: "w < length (workers b)" and f: "workers b ! w = Fetching i"
  shows "pool_inv n c (seen @ [(i, reply)]) (settle n w i reply b)"
proof -
  have acc: "accounts n seen b" using inv by (simp add: pool_inv_def)
  have "length (workers (settle n w i reply b)) = length (workers b)"
    by (cases reply) (simp_all add: settle_def take_next_def Let_def)
  with inv show ?thesis
    using remembers_settle [OF _ in_flight_index [OF acc w f]] statuses_settle [OF _ w f]
      accounts_settle [OF acc w f]
    by (simp add: pool_inv_def)
qed

lemma pool_invariant: "pool_run n c seen b \<Longrightarrow> pool_inv n c seen b"
  by (induction rule: pool_run.induct) (auto simp: pool_inv_start pool_inv_settle)

section \<open>What the caller gets\<close>

lemma pool_settled:
  assumes inv: "pool_inv n c seen b" and none: "pool_inflight b = []" and ok: "\<not> (\<exists>x\<in>set seen. is_failure x)"
  shows "pool_outcome b = Some (Inr (responses b))" and "posted b = [0..<n]"
    and "mset (map fst seen) = mset [0..<n]"
proof -
  have "workers b \<noteq> []"
    using inv by (auto simp: pool_inv_def workerCount_def)
  moreover have ret: "w = Returned" if "w \<in> set (workers b)" for w
  proof (cases w)
    case (Fetching i)
    then have "i \<in> set (pool_inflight b)"
      using that by (force simp: pool_inflight_def in_set_map_filter)
    then show ?thesis using none by simp
  qed (use inv ok that in \<open>auto simp: pool_inv_def statuses_def\<close>)
  ultimately have "Returned \<in> set (workers b)"
    by (metis hd_in_set)
  then have "n \<le> next_index b"
    using inv by (simp add: pool_inv_def statuses_def)
  then show "posted b = [0..<n]" "mset (map fst seen) = mset [0..<n]"
    using inv none by (simp_all add: pool_inv_def accounts_def min_absorb2)
  have "failure b = None"
    using inv ok by (auto simp: pool_inv_def statuses_def)
  with ret show "pool_outcome b = Some (Inr (responses b))"
    by (auto simp: pool_outcome_def list_all_iff)
qed

lemma resolved_idle:
  assumes "pool_inv n c seen b" and "pool_outcome b = Some (Inr rs)"
  shows "pool_inflight b = []" "\<not> (\<exists>x\<in>set seen. is_failure x)" "rs = responses b"
proof -
  have "failure b = None" "\<forall>w\<in>set (workers b). w = Returned" "rs = responses b"
    using assms(2) by (auto simp: pool_outcome_def list_all_iff split: option.splits if_splits)
  moreover from this have "x \<notin> set (pool_inflight b)" for x
    by (auto simp: pool_inflight_def in_set_map_filter)
  then have "pool_inflight b = []" by (metis last_in_set)
  ultimately show "pool_inflight b = []" "\<not> (\<exists>x\<in>set seen. is_failure x)" "rs = responses b"
    using assms(1) by (auto simp: pool_inv_def statuses_def)
qed

lemma replies_complete:
  assumes "mset (map fst seen) = mset [0..<n]" and "\<not> (\<exists>x\<in>set seen. is_failure x)" and "i < n"
  shows "\<exists>r. (i, Inr r) \<in> set seen"
proof -
  have "i \<in> set (map fst seen)"
    using assms(1,3) mset_eq_setD [OF assms(1)] by simp
  then obtain x where "(i, x) \<in> set seen" by auto
  with assms(2) show ?thesis by (cases x) (auto simp: is_failure_def)
qed

text \<open>Two requests whose replies come in the opposite order.\<close>

definition demo_pool :: "(js_error, string) pool" where
  "demo_pool = settle 2 0 0 (Inr ''a'') (settle 2 1 1 (Inr ''b'') (start_pool 2 3))"

lemma demo_run: "pool_run 2 3 [(1, Inr ''b''), (0, Inr ''a'')] demo_pool"
proof -
  let ?s = "start_pool 2 3 :: (js_error, string) pool"
  let ?t = "settle 2 1 1 (Inr ''b'') ?s"
  have "1 < length (workers ?s)" "workers ?s ! 1 = Fetching 1"
    "0 < length (workers ?t)" "workers ?t ! 0 = Fetching 0" by code_simp+
  from run_reply [OF run_reply [OF run_start this(1,2)] this(3,4), of "Inr ''a''"]
  show ?thesis by (simp only: demo_pool_def append.simps)
qed

lemma demo_outcome: "pool_outcome demo_pool = Some (Inr [Some ''a'', Some ''b''])"
  by code_simp

text \<open>
  C7: \<open>fetchAnalyticsBatch\<close> resolves to the responses in the order of the requests, whatever the order
  of the replies: it posts every request exactly once, and the response at each index is the reply
  to the request of that index.
\<close>

theorem batch_in_request_order:
  assumes "pool_run n c seen b" and "pool_outcome b = Some (Inr rs)"
  shows "posted b = [0..<n] \<and> length rs = n \<and>
    (\<forall>i<n. \<exists>r. rs ! i = Some r \<and> (i, Inr r) \<in> set seen)"
proof -
  have inv: "pool_inv n c seen b" by (rule pool_invariant) fact
  note idle = resolved_idle [OF inv assms(2)]
  note fin = pool_settled [OF inv idle(1,2)]
  have "remembers n seen rs" using inv idle(3) by (simp add: pool_inv_def)
  then show ?thesis
    using fin(2) replies_complete [OF fin(3) idle(2)] by (auto simp: remembers_def)
qed

lemma batch_in_request_order_witness: "posted demo_pool = [0, 1]"
  using batch_in_request_order [OF demo_run demo_outcome] by (simp add: numeral_2_eq_2)

text \<open>
  C9: at no time are more requests in flight than the concurrency asks for (one, when it asks for
  none), and the requests posted so far are the first ones of the list, each once.
\<close>

theorem batch_bounded:
  assumes "pool_run n c seen b"
  shows "int (length (pool_inflight b)) \<le> max 1 (min c (int n)) \<and>
    posted b = [0..<length (posted b)] \<and> length (posted b) \<le> n"
proof (intro conjI)
  have inv: "pool_inv n c seen b" by (rule pool_invariant) fact
  have "length (pool_inflight b) \<le> length (workers b)"
    unfolding pool_inflight_def by (simp add: map_filter_def)
  then show "int (length (pool_inflight b)) \<le> max 1 (min c (int n))"
    using inv by (simp add: pool_inv_def workerCount_def)
  show "posted b = [0..<length (posted b)]" "length (posted b) \<le> n"
    using inv by (simp_all add: pool_inv_def accounts_def)
qed

lemma batch_bounded_witness: "int (length (pool_inflight demo_pool)) \<le> 2"
  using batch_bounded [OF demo_run] by simp

text \<open>
  C8: the batch always ends. A pool that is not settled has a request in flight, so it is waiting for a
  reply; every reply uses up one of the \<open>n\<close> requests; and once none is in flight the promise is settled,
  rejected exactly when some request failed.
\<close>

theorem batch_settles:
  assumes "pool_run n c seen b"
  shows "length seen \<le> n \<and>
    (pool_inflight b = [] \<longrightarrow>
      (\<exists>x. pool_outcome b = Some x \<and> (isl x \<longleftrightarrow> (\<exists>y\<in>set seen. is_failure y))))"
proof
  have inv: "pool_inv n c seen b" by (rule pool_invariant) fact
  have "size (mset (pool_inflight b) + mset (map fst seen)) = size (mset [0..<min (next_index b) n])"
    using inv by (simp only: pool_inv_def accounts_def)
  then show "length seen \<le> n" by simp
  show "pool_inflight b = [] \<longrightarrow>
      (\<exists>x. pool_outcome b = Some x \<and> (isl x \<longleftrightarrow> (\<exists>y\<in>set seen. is_failure y)))"
  proof
    assume none: "pool_inflight b = []"
    show "\<exists>x. pool_outcome b = Some x \<and> (isl x \<longleftrightarrow> (\<exists>y\<in>set seen. is_failure y))"
    proof (cases "\<exists>y\<in>set seen. is_failure y")
      case True
      then have "failure b \<noteq> None" using inv by (simp add: pool_inv_def statuses_def)
      with True show ?thesis by (auto simp: pool_outcome_def)
    qed (use pool_settled(1) [OF inv none] in auto)
  qed
qed

lemma batch_settles_witness: "\<exists>x. pool_outcome demo_pool = Some x \<and> \<not> isl x"
proof -
  have "pool_inflight demo_pool = []" by code_simp
  then show ?thesis using batch_settles [OF demo_run] by (auto simp: is_failure_def)
qed

section \<open>Runs that complete\<close>

lemma next_reply:
  assumes "pool_run n c seen b" and "pool_inflight b \<noteq> []"
  shows "\<exists>w i. pool_run n c (seen @ [(i, f i)]) (settle n w i (f i) b)"
proof -
  obtain i where "i \<in> set (pool_inflight b)" using assms(2) by (metis last_in_set)
  then have "Fetching i \<in> set (workers b)" by (auto simp: pool_inflight_def in_set_map_filter)
  then obtain w where "w < length (workers b)" "workers b ! w = Fetching i"
    by (metis in_set_conv_nth)
  then show ?thesis using run_reply [OF assms(1)] by blast
qed

text \<open>Whatever the server answers, the pool can run until nothing is in flight.\<close>

lemma run_to_end:
  "pool_run n c seen b \<Longrightarrow> \<forall>(i, r)\<in>set seen. r = f i \<Longrightarrow>
   \<exists>seen b. pool_run n c seen b \<and> pool_inflight b = [] \<and> (\<forall>(i, r)\<in>set seen. r = f i)"
proof (induction "n - length seen" arbitrary: seen b rule: less_induct)
  case less
  show ?case
  proof (cases "pool_inflight b = []")
    case False
    then obtain w i where run: "pool_run n c (seen @ [(i, f i)]) (settle n w i (f i) b)"
      using next_reply less.prems(1) by blast
    have inv: "pool_inv n c (seen @ [(i, f i)]) (settle n w i (f i) b)" by (rule pool_invariant [OF run])
    have "size (mset (pool_inflight (settle n w i (f i) b)) + mset (map fst (seen @ [(i, f i)]))) =
        size (mset [0..<min (next_index (settle n w i (f i) b)) n])"
      using inv by (simp only: pool_inv_def accounts_def)
    then have "Suc (length seen) \<le> n" by simp
    then show ?thesis using less.prems(2) by (intro less.hyps [OF _ run]) auto
  qed (use less.prems in blast)
qed

lemma completed_run:
  fixes f :: "nat \<Rightarrow> 'r"
  shows "\<exists>seen (b :: ('e, 'r) pool). pool_run n c seen b \<and> pool_outcome b = Some (Inr (map (Some \<circ> f) [0..<n]))"
proof -
  obtain seen and b :: "('e, 'r) pool" where run: "pool_run n c seen b" and none: "pool_inflight b = []"
      and f: "\<forall>(i, r)\<in>set seen. r = Inr (f i)"
    using run_to_end [OF run_start, of "\<lambda>i. Inr (f i)" n c] by auto
  have inv: "pool_inv n c seen b" by (rule pool_invariant [OF run])
  have ok: "\<not> (\<exists>x\<in>set seen. is_failure x)" using f by (auto simp: is_failure_def)
  note fin = pool_settled [OF inv none ok]
  have "remembers n seen (responses b)" using inv by (simp add: pool_inv_def)
  then have "length (responses b) = n" "\<forall>i<n. responses b ! i = Some (f i)"
    using replies_complete [OF fin(3) ok] f by (auto simp: remembers_def) (metis (mono_tags, lifting) Inr_inject case_prodD)
  then have "responses b = map (Some \<circ> f) [0..<n]" by (intro nth_equalityI) auto
  then show ?thesis using fin(1) run by auto
qed

lemma failed_run:
  assumes "0 < n"
  shows "\<exists>seen b. pool_run n c seen b \<and> pool_outcome b = Some (Inl e)"
proof -
  have "0 < workerCount n c" by (simp add: workerCount_def)
  then have "0 < length (workers (start_pool n c))" "workers (start_pool n c) ! 0 = Fetching 0"
    using assms by (simp_all add: start_pool_eq Let_def)
  from run_reply [OF run_start this, of "Inl e"] show ?thesis
    using assms by (force simp: settle_def pool_outcome_def start_pool_eq Let_def)
qed

end
