(* ===== verification/Dashboard.thy ===== *)
theory Dashboard
  imports AnalyticsBatch Exporter TimeRange Formatters
begin

text \<open>
  \<open>ui/src/pages/Dashboard.tsx\<close>, the queries: the window of time the page shows, the ten analytics
  requests it makes of that window, and the time texts of its inputs and axes. The view and the life of
  the page are in \<open>DashboardPage\<close> and \<open>DashboardView\<close>.
\<close>

section \<open>The window\<close>

definition DASHBOARD_DATE_RANGE_DAYS :: int where "DASHBOARD_DATE_RANGE_DAYS = 7"

text \<open>The page has its own copies of the preset table and of the function that reads it.\<close>

definition DASHBOARD_RANGE_MS :: "(string \<times> int) list" where
  "DASHBOARD_RANGE_MS =
     [(''1h'', 60 * 60 * 1000), (''6h'', 6 * 60 * 60 * 1000), (''1d'', 24 * 60 * 60 * 1000),
      (''7d'', 7 * 24 * 60 * 60 * 1000), (''30d'', 30 * 24 * 60 * 60 * 1000)]"

definition DASHBOARD_RANGE_LABELS :: "(string \<times> string) list" where
  "DASHBOARD_RANGE_LABELS =
     [(''1h'', ''Past 1 hour''), (''6h'', ''Past 6 hours''), (''1d'', ''Past 24 hours''),
      (''7d'', ''Past 7 days''), (''30d'', ''Past 30 days''), (''custom'', ''Custom range'')]"

definition dash_duration :: "jsstring option \<Rightarrow> time_value" where
  "dash_duration preset =
     (case preset of
        None \<Rightarrow> Some (DASHBOARD_DATE_RANGE_DAYS * 24 * 60 * 60 * 1000)
      | Some p \<Rightarrow>
          if is_inherited p then None
          else (case map_of (map (apfst js) DASHBOARD_RANGE_MS) p of
                  Some d \<Rightarrow> Some d
                | None \<Rightarrow> Some (DASHBOARD_DATE_RANGE_DAYS * 24 * 60 * 60 * 1000)))"

definition dash_presetToFromTo :: "int \<Rightarrow> jsstring option \<Rightarrow> (js_error, time_window) result" where
  "dash_presetToFromTo now preset =
     and_then (toISOString (map_option (\<lambda>d. now - d) (dash_duration preset))) (\<lambda>from'.
     and_then (toISOString (Some now)) (\<lambda>to'.
       Inr \<lparr>tw_from = from', tw_to = to'\<rparr>))"

lemma dash_window_is_preset_window: "dash_presetToFromTo now preset = presetToFromTo now preset"
  unfolding dash_presetToFromTo_def presetToFromTo_def dash_duration_def preset_duration_def
    DASHBOARD_DATE_RANGE_DAYS_def DEFAULT_RANGE_DAYS_def DASHBOARD_RANGE_MS_def TIME_RANGE_MS_def preset_ms_def
  by (rule refl)

text \<open>Local wall-clock fields of a time value, as \<open>datetime-local\<close> inputs show them.\<close>

definition local_minutes :: "runtime \<Rightarrow> int \<Rightarrow> nat" where
  "local_minutes rt t = nat (local_time rt t mod ms_per_day) div 60000"

definition toLocalInputValue :: "runtime \<Rightarrow> jsstring \<Rightarrow> jsstring" where
  "toLocalInputValue rt stamp =
     (case date_parse rt stamp of
        None \<Rightarrow> []
      | Some t \<Rightarrow>
          let c = local_date rt t; m = local_minutes rt t
          in dec_int (cd_year c) @ js ''-'' @ pad2 (cd_month c + 1) @ js ''-'' @ pad2 (nat (cd_date c)) @
             js ''T'' @ pad2 (m div 60) @ js '':'' @ pad2 (m mod 60))"

definition fromLocalInputValue :: "runtime \<Rightarrow> jsstring \<Rightarrow> jsstring option" where
  "fromLocalInputValue rt v = map_option iso_text (date_parse rt v)"

definition formatTraceTimeTick :: "runtime \<Rightarrow> int \<Rightarrow> jsstring \<Rightarrow> jsstring" where
  "formatTraceTimeTick rt val presetKey =
     (if presetKey \<in> js ` {''1h'', ''6h'', ''1d''}
      then rt_locale rt ToLocaleTimeString [(''hour'', ''2-digit''), (''minute'', ''2-digit''), (''hour12'', ''true'')]
             (Some val)
      else rt_locale rt ToLocaleDateString [(''month'', ''short''), (''day'', ''numeric'')] (Some val))"

section \<open>The requests\<close>

record analytics_filter =
  af_field :: string
  af_op :: string
  af_value :: json

record group_by =
  gb_field :: string
  gb_truncate :: "string option"
  gb_interval :: "string option"

record order_by =
  ob_field :: string
  ob_desc :: bool

record aggregation =
  ag_function :: string
  ag_field :: string
  ag_alias :: string

record AnalyticsRequest =
  ar_project_id :: jsstring
  ar_from :: jsstring
  ar_to :: jsstring
  ar_filters :: "analytics_filter list"
  ar_group_by :: "group_by list"
  ar_order_by :: "order_by list"
  ar_aggregations :: "aggregation list"

text \<open>Only \<open>ERROR\<close> is an error, in the two spellings that ingestion stores.\<close>

definition ERROR_STATUS_FILTER :: analytics_filter where
  "ERROR_STATUS_FILTER =
     \<lparr>af_field = ''status_code'', af_op = ''in'', af_value = JArr [JStr (js ''ERROR''), JStr (js ''error'')]\<rparr>"

definition llm_filter :: analytics_filter where
  "llm_filter = \<lparr>af_field = ''kind'', af_op = ''eq'', af_value = JStr (js ''llm'')\<rparr>"

definition by_field :: "string \<Rightarrow> group_by" where
  "by_field f = \<lparr>gb_field = f, gb_truncate = None, gb_interval = None\<rparr>"

definition by_bucket :: "string \<Rightarrow> group_by" where
  "by_bucket i = \<lparr>gb_field = ''time_bucket'', gb_truncate = None, gb_interval = Some i\<rparr>"

definition agg :: "string \<Rightarrow> string \<Rightarrow> string \<Rightarrow> aggregation" where
  "agg f c a = \<lparr>ag_function = f, ag_field = c, ag_alias = a\<rparr>"

definition by_start :: "order_by list" where
  "by_start = [\<lparr>ob_field = ''start_time'', ob_desc = False\<rparr>]"

definition request_body :: "jsstring \<Rightarrow> time_window \<Rightarrow> AnalyticsRequest" where
  "request_body project w =
     \<lparr>ar_project_id = project, ar_from = tw_from w, ar_to = tw_to w, ar_filters = [], ar_group_by = [],
      ar_order_by = [], ar_aggregations = []\<rparr>"

definition tracesByNameReq :: "AnalyticsRequest \<Rightarrow> AnalyticsRequest" where
  "tracesByNameReq common =
     common\<lparr>ar_filters := ar_filters common @ [llm_filter], ar_group_by := [by_field ''model''],
          ar_order_by := [\<lparr>ob_field = ''count'', ob_desc = True\<rparr>], ar_aggregations := [agg ''count'' ''*'' ''count'']\<rparr>"

text \<open>The bucket follows the length of the window; a window of invalid dates takes the longest.\<close>

definition tracesByTimeGroupBy :: "runtime \<Rightarrow> time_window \<Rightarrow> group_by list" where
  "tracesByTimeGroupBy rt w =
     (let diffMs = num_sub (getTime (date_parse rt (tw_to w))) (getTime (date_parse rt (tw_from w)))
      in if num_le diffMs (Fin 5400000) then [by_bucket ''5m'']
         else if num_le diffMs (Fin 90000000) then [by_bucket ''1h'']
         else [by_bucket ''1d''])"

definition tracesByTimeReq :: "runtime \<Rightarrow> time_window \<Rightarrow> AnalyticsRequest \<Rightarrow> AnalyticsRequest" where
  "tracesByTimeReq rt w common =
     common\<lparr>ar_group_by := tracesByTimeGroupBy rt w, ar_order_by := by_start,
          ar_aggregations := [agg ''count'' ''*'' ''count'']\<rparr>"

definition usage_aggregations :: "aggregation list" where
  "usage_aggregations =
     [agg ''sum'' ''input_tokens'' ''input_tokens'', agg ''sum'' ''output_tokens'' ''output_tokens'',
      agg ''sum'' ''cost_usd'' ''total_cost'']"

definition tokenUsageReq :: "AnalyticsRequest \<Rightarrow> AnalyticsRequest" where
  "tokenUsageReq common =
     common\<lparr>ar_filters := ar_filters common @ [llm_filter], ar_group_by := [by_field ''model''],
          ar_order_by := [\<lparr>ob_field = ''total_cost'', ob_desc = True\<rparr>], ar_aggregations := usage_aggregations\<rparr>"

definition kindUsageReq :: "AnalyticsRequest \<Rightarrow> AnalyticsRequest" where
  "kindUsageReq common =
     common\<lparr>ar_group_by := [by_field ''kind''], ar_order_by := [\<lparr>ob_field = ''total_cost'', ob_desc = True\<rparr>],
          ar_aggregations := usage_aggregations\<rparr>"

definition userConsumptionReq :: "AnalyticsRequest \<Rightarrow> AnalyticsRequest" where
  "userConsumptionReq common =
     common\<lparr>ar_group_by := [by_field ''service_name''], ar_order_by := [\<lparr>ob_field = ''count'', ob_desc = True\<rparr>],
          ar_aggregations := [agg ''count'' ''*'' ''count'']\<rparr>"

definition kpiReq :: "AnalyticsRequest \<Rightarrow> AnalyticsRequest" where
  "kpiReq common =
     common\<lparr>ar_group_by := [],
          ar_aggregations := [agg ''count'' ''*'' ''total_traces'', agg ''sum'' ''cost_usd'' ''total_cost'',
            agg ''avg'' ''duration_ms'' ''avg_latency_ms'']\<rparr>"

definition kpiErrorCountReq :: "AnalyticsRequest \<Rightarrow> AnalyticsRequest" where
  "kpiErrorCountReq common =
     common\<lparr>ar_group_by := [], ar_filters := [ERROR_STATUS_FILTER],
          ar_aggregations := [agg ''count'' ''*'' ''error_count'']\<rparr>"

definition latencyPercentilesReq :: "AnalyticsRequest \<Rightarrow> AnalyticsRequest" where
  "latencyPercentilesReq common =
     common\<lparr>ar_group_by := [by_bucket ''1h''], ar_order_by := by_start,
          ar_aggregations := [agg ''p50'' ''duration_ms'' ''p50_ms'', agg ''p95'' ''duration_ms'' ''p95_ms'',
            agg ''p99'' ''duration_ms'' ''p99_ms'']\<rparr>"

definition errorRateTotalReq :: "AnalyticsRequest \<Rightarrow> AnalyticsRequest" where
  "errorRateTotalReq common =
     common\<lparr>ar_group_by := [by_bucket ''1h''], ar_order_by := by_start,
          ar_aggregations := [agg ''count'' ''*'' ''total_count'']\<rparr>"

definition errorRateErrorReq :: "AnalyticsRequest \<Rightarrow> AnalyticsRequest" where
  "errorRateErrorReq common =
     common\<lparr>ar_filters := [ERROR_STATUS_FILTER], ar_group_by := [by_bucket ''1h''], ar_order_by := by_start,
          ar_aggregations := [agg ''count'' ''*'' ''error_count'']\<rparr>"

definition dashboard_requests :: "runtime \<Rightarrow> jsstring \<Rightarrow> time_window \<Rightarrow> AnalyticsRequest list" where
  "dashboard_requests rt project w =
     (let common = request_body project w
      in [tracesByNameReq common, tracesByTimeReq rt w common, tokenUsageReq common, kindUsageReq common,
          userConsumptionReq common, kpiReq common, kpiErrorCountReq common, latencyPercentilesReq common,
          errorRateTotalReq common, errorRateErrorReq common])"

text \<open>What \<open>fetchAnalyticsBatch\<close> posts for one of them.\<close>

definition opt_member :: "string \<Rightarrow> string option \<Rightarrow> (jsstring \<times> json) list" where
  "opt_member k v = (case v of Some s \<Rightarrow> [(js k, JStr (js s))] | None \<Rightarrow> [])"

definition filter_json :: "analytics_filter \<Rightarrow> json" where
  "filter_json f = JObj [(js ''field'', JStr (js (af_field f))), (js ''op'', JStr (js (af_op f))), (js ''value'', af_value f)]"

definition group_json :: "group_by \<Rightarrow> json" where
  "group_json g =
     JObj ((js ''field'', JStr (js (gb_field g))) # opt_member ''truncate'' (gb_truncate g) @ opt_member ''interval'' (gb_interval g))"

definition order_json :: "order_by \<Rightarrow> json" where
  "order_json b = JObj [(js ''field'', JStr (js (ob_field b))), (js ''desc'', JBool (ob_desc b))]"

definition aggregation_json :: "aggregation \<Rightarrow> json" where
  "aggregation_json a =
     JObj [(js ''function'', JStr (js (ag_function a))), (js ''field'', JStr (js (ag_field a))),
           (js ''alias'', JStr (js (ag_alias a)))]"

definition analytics_json :: "AnalyticsRequest \<Rightarrow> json" where
  "analytics_json r =
     JObj [(js ''project_id'', JStr (ar_project_id r)), (js ''from'', JStr (ar_from r)), (js ''to'', JStr (ar_to r)),
           (js ''filters'', JArr (map filter_json (ar_filters r))),
           (js ''group_by'', JArr (map group_json (ar_group_by r))),
           (js ''order_by'', JArr (map order_json (ar_order_by r))),
           (js ''aggregations'', JArr (map aggregation_json (ar_aggregations r)))]"

definition post_analytics :: "AnalyticsRequest \<Rightarrow> request" where
  "post_analytics r =
     \<lparr>req_method = POST, req_url = js ''/api/v1/analytics/spans'',
      req_headers = [(''Content-Type'', js ''application/json'')],
      req_body = Some (JSON_stringify (analytics_json r))\<rparr>"

section \<open>Properties\<close>

text \<open>
  What the runtime does with the value of a \<open>datetime-local\<close> input: the date-time form without a zone is
  local time. The law is for a zone with a fixed offset.
\<close>

definition local_parse :: "int \<Rightarrow> jsstring \<Rightarrow> time_value" where
  "local_parse off s =
     Option.bind (parse_date s) (\<lambda>(d, s).
     Option.bind (take_lit 0x54 s) (\<lambda>s.
     Option.bind (parse_hm s) (\<lambda>(hm, s).
       if s = [] then Some (d * ms_per_day + 60000 * int hm - off) else None)))"

definition fixed_zone :: "runtime \<Rightarrow> int \<Rightarrow> bool" where
  "fixed_zone rt off \<longleftrightarrow> rt_tz_offset rt = (\<lambda>_. off) \<and> off mod 60000 = 0 \<and>
     (\<forall>s t. local_parse off s = Some t \<longrightarrow> rt_date_parse rt s = Some t)"

lemma four_digits: "1000 \<le> n \<Longrightarrow> n \<le> 9999 \<Longrightarrow> pad_start 4 0x30 (dec_nat n) = dec_nat n"
proof -
  assume "1000 \<le> n" "n \<le> 9999"
  then have "\<not> n < 10" "\<not> n div 10 < 10" "\<not> n div 10 div 10 < 10" by simp_all
  moreover have "n div 10 div 10 div 10 < 10" using \<open>n \<le> 9999\<close> by simp
  ultimately have "length (dec_nat n) = 4"
    unfolding dec_nat_def by (simp add: radix_nat_step radix_nat_less del: div_less)
  then show ?thesis by (simp add: pad_start_def)
qed

lemma minutes_of_day:
  "(lt::int) div ms_per_day * ms_per_day + 60000 * (lt mod ms_per_day div 60000) = lt - lt mod 60000"
proof -
  have k: "ms_per_day = 60000 * 1440" by (simp add: ms_per_day_def)
  have mm: "lt mod (60000 * 1440) mod 60000 = lt mod 60000" by (simp add: mod_mod_cancel)
  have "60000 * (lt mod (60000 * 1440) div 60000) = lt mod (60000 * 1440) - lt mod (60000 * 1440) mod 60000"
    by (rule minus_mod_eq_mult_div [symmetric])
  moreover have "lt div (60000 * 1440) * (60000 * 1440) = lt - lt mod (60000 * 1440)"
    by (simp only: minus_mod_eq_div_mult)
  ultimately show ?thesis unfolding k mm by linarith
qed

lemma year_1970: "0 \<le> d \<Longrightarrow> 1970 \<le> cd_year (civil_from_day d)"
proof -
  assume d: "0 \<le> d"
  have "\<not> year_from_day d + 1 \<le> 1970"
  proof
    assume "year_from_day d + 1 \<le> 1970"
    then have "day_from_year (year_from_day d + 1) \<le> day_from_year 1970" by (rule day_from_year_mono)
    moreover have "day_from_year 1970 = 0" by (simp add: day_from_year_def)
    ultimately show False using year_from_day_bounds [of d] d by linarith
  qed
  then show ?thesis by (simp add: civil_from_day_def Let_def)
qed

text \<open>The text of an input, read by the language and by the runtime.\<close>

lemma local_text_parse:
  assumes "0 \<le> d" and "cd_year (civil_from_day d) \<le> 9999" and "m < 1440"
  defines "c \<equiv> civil_from_day d"
  defines "s \<equiv> dec_int (cd_year c) @ js ''-'' @ pad2 (cd_month c + 1) @ js ''-'' @ pad2 (nat (cd_date c)) @
    js ''T'' @ pad2 (m div 60) @ js '':'' @ pad2 (m mod 60)"
  shows "iso_parse s = None" and "local_parse off s = Some (d * ms_per_day + 60000 * int m - off)"
proof -
  have y: "1970 \<le> cd_year c" "cd_year c \<le> 9999" using year_1970 assms(1,2) by (simp_all add: c_def)
  then have "dec_int (cd_year c) = iso_year (cd_year c)"
    using four_digits [of "nat (cd_year c)"] by (simp add: iso_year_def dec_int_def nat_le_iff le_nat_iff)
  moreover have date: "parse_date (iso_year (cd_year c) @ js ''-'' @ pad2 (cd_month c + 1) @ js ''-'' @
      pad2 (nat (cd_date c)) @ r) = Some (d, r)" for r
    using y unfolding c_def by (intro parse_date_civil) auto
  moreover have "parse_hm (pad2 (m div 60) @ js '':'' @ pad2 (m mod 60)) = Some (m, [])"
    using parse_hm_text [OF assms(3), of "[]"] by simp
  ultimately show "iso_parse s = None" "local_parse off s = Some (d * ms_per_day + 60000 * int m - off)"
    by (simp_all add: s_def iso_parse_def local_parse_def parse_sec_def parse_zone_def take_lit_def [of _ "[]"])
qed


definition berlin_winter :: runtime where
  "berlin_winter =
     \<lparr>rt_date_parse = local_parse 3600000, rt_tz_offset = (\<lambda>_. 3600000), rt_locale = (\<lambda>_ _ _. []),
      rt_locale_number = (\<lambda>_. [])\<rparr>"


end
