(* ===== verification/DashboardPage.thy ===== *)
theory DashboardPage
  imports Dashboard
begin

text \<open>
  \<open>ui/src/pages/Dashboard.tsx\<close>, the life of the page: what it makes of the answers of the analytics
  service, and its state with the requests in flight. An answer is kept as what \<open>json()\<close> made of it.
\<close>

section \<open>Reading the answers\<close>

record analytics_response =
  an_ok :: bool
  an_json :: "(js_error, json) result"

definition response_json :: "analytics_response \<Rightarrow> (js_error, json) result" where
  "response_json r = (if an_ok r then an_json r else Inr (JObj [(js ''rows'', JArr [])]))"

text \<open>
  \<open>Promise.all\<close> over the bodies. Which of several failures comes first is up to the network: it is the
  \<open>pick\<close>-th of them.
\<close>

definition all_json :: "nat \<Rightarrow> analytics_response list \<Rightarrow> (js_error, json list) result" where
  "all_json pick rs =
     (case List.map_filter (\<lambda>r. case response_json r of Inl e \<Rightarrow> Some e | Inr _ \<Rightarrow> None) rs of
        [] \<Rightarrow> map_result response_json rs
      | e # es \<Rightarrow> Inl ((e # es) ! (pick mod length (e # es))))"

text \<open>\<open>(data.rows ?? []).map\<close>\<close>

definition rows_of :: "json \<Rightarrow> (js_error, json list) result" where
  "rows_of d =
     and_then (get_prop d ''rows'') (\<lambda>v.
       case or_else v (Some (JArr [])) of
         Some (JArr xs) \<Rightarrow> Inr xs
       | _ \<Rightarrow> Inl (TypeError ''map is not a function''))"

text \<open>\<open>Number(row.k) || 0\<close>\<close>

definition number_or_0 :: "json \<Rightarrow> string \<Rightarrow> (js_error, jsnum) result" where
  "number_or_0 row k =
     and_then (get_prop row k) (\<lambda>v.
     and_then (case v of None \<Rightarrow> Inr NaN | Some j \<Rightarrow> to_number j) (\<lambda>n.
       Inr (if num_truthy n then n else Fin 0)))"

text \<open>\<open>row.k || "unknown"\<close>\<close>

definition name_or :: "json \<Rightarrow> string \<Rightarrow> string \<Rightarrow> (js_error, json) result" where
  "name_or row k d =
     and_then (get_prop row k) (\<lambda>v.
       Inr (case v of Some j \<Rightarrow> if truthy j then j else JStr (js d) | None \<Rightarrow> JStr (js d)))"

text \<open>\<open>new Date(v)\<close> of a value that is not \<open>undefined\<close>.\<close>

definition time_clip :: "jsnum \<Rightarrow> time_value" where
  "time_clip n =
     (case n of Fin x \<Rightarrow> if \<bar>x\<bar> \<le> 8640000000000000 then Some (rat_trunc x) else None | _ \<Rightarrow> None)"

definition new_date :: "runtime \<Rightarrow> json \<Rightarrow> (js_error, time_value) result" where
  "new_date rt v =
     (case v of
        JNull \<Rightarrow> Inr (Some 0)
      | JBool b \<Rightarrow> Inr (Some (if b then 1 else 0))
      | JNum n \<Rightarrow> Inr (time_clip n)
      | JStr s \<Rightarrow> Inr (date_parse rt s)
      | _ \<Rightarrow> and_then (to_text v) (\<lambda>s. Inr (date_parse rt s)))"

fun object_values :: "json \<Rightarrow> json list" where
  "object_values (JObj m) = map snd m"
| "object_values (JArr xs) = xs"
| "object_values (JStr s) = map (\<lambda>u. JStr [u]) s"
| "object_values _ = []"

definition time_keys :: "string list" where
  "time_keys = [''date_trunc('' @ [CHR 0x27] @ ''hour'' @ [CHR 0x27] @ '', start_time)'',
     ''date_trunc('' @ [CHR 0x27] @ ''hour'' @ [CHR 0x27] @ '',start_time)'', ''start_time'']"

fun first_time_key :: "runtime \<Rightarrow> json \<Rightarrow> string list \<Rightarrow> (js_error, time_value) result" where
  "first_time_key rt row [] = Inr None"
| "first_time_key rt row (k # ks) =
     and_then (get_prop row k) (\<lambda>v.
       case v of
         None \<Rightarrow> first_time_key rt row ks
       | Some j \<Rightarrow>
           if j = JNull then first_time_key rt row ks
           else and_then (new_date rt j) (\<lambda>t. if t \<noteq> None then Inr t else first_time_key rt row ks))"

text \<open>Any string with a dash that is a date.\<close>

fun first_date_value :: "runtime \<Rightarrow> json list \<Rightarrow> time_value" where
  "first_date_value rt [] = None"
| "first_date_value rt (v # vs) =
     (case v of
        JStr s \<Rightarrow> if str_includes s (js ''-'') \<and> date_parse rt s \<noteq> None then date_parse rt s
                  else first_date_value rt vs
      | _ \<Rightarrow> first_date_value rt vs)"

definition extractRawTime :: "runtime \<Rightarrow> json \<Rightarrow> (js_error, int) result" where
  "extractRawTime rt row =
     and_then (first_time_key rt row time_keys) (\<lambda>t.
       Inr (case t of Some t \<Rightarrow> t
            | None \<Rightarrow> (case first_date_value rt (object_values row) of Some t \<Rightarrow> t | None \<Rightarrow> 0)))"

section \<open>The data of the widgets\<close>

record TracesByNameData =
  tn_name :: json
  tn_count :: jsnum

record TimeSeriesData =
  ts_time :: int
  ts_count :: jsnum

record CostData =
  co_model :: json
  co_input :: jsnum
  co_output :: jsnum
  co_cost :: jsnum

record KPIValue =
  kpi_totalCost :: jsnum
  kpi_totalTraces :: jsnum
  kpi_errorRate :: jsnum
  kpi_avgLatencyMs :: jsnum

record LatencyPercentileData =
  lp_time :: int
  lp_p50 :: jsnum
  lp_p95 :: jsnum
  lp_p99 :: jsnum

record ErrorRateData =
  er_time :: int
  er_total :: jsnum
  er_errors :: jsnum

definition mapNameRow :: "string \<Rightarrow> string \<Rightarrow> json \<Rightarrow> (js_error, TracesByNameData) result" where
  "mapNameRow k d row =
     and_then (name_or row k d) (\<lambda>n. and_then (number_or_0 row ''count'') (\<lambda>c. Inr \<lparr>tn_name = n, tn_count = c\<rparr>))"

definition mapTimeRow :: "runtime \<Rightarrow> json \<Rightarrow> (js_error, TimeSeriesData) result" where
  "mapTimeRow rt row =
     and_then (extractRawTime rt row) (\<lambda>t. and_then (number_or_0 row ''count'') (\<lambda>c. Inr \<lparr>ts_time = t, ts_count = c\<rparr>))"

text \<open>The rows grouped by kind go through the same fields; only the name is read elsewhere.\<close>

definition mapUsageRow :: "string \<Rightarrow> json \<Rightarrow> (js_error, CostData) result" where
  "mapUsageRow k row =
     and_then (name_or row k ''unknown'') (\<lambda>n.
     and_then (number_or_0 row ''input_tokens'') (\<lambda>a.
     and_then (number_or_0 row ''output_tokens'') (\<lambda>b.
     and_then (number_or_0 row ''total_cost'') (\<lambda>c.
       Inr \<lparr>co_model = n, co_input = a, co_output = b, co_cost = c\<rparr>))))"

definition mapCostRows :: "json list \<Rightarrow> (js_error, CostData list) result" where
  "mapCostRows rows = map_result (mapUsageRow ''model'') rows"

definition mapKindRows :: "json list \<Rightarrow> (js_error, CostData list) result" where
  "mapKindRows rows = map_result (mapUsageRow ''kind'') rows"

definition mapLatencyRow :: "runtime \<Rightarrow> json \<Rightarrow> (js_error, LatencyPercentileData) result" where
  "mapLatencyRow rt row =
     and_then (extractRawTime rt row) (\<lambda>t.
     and_then (number_or_0 row ''p50_ms'') (\<lambda>a.
     and_then (number_or_0 row ''p95_ms'') (\<lambda>b.
     and_then (number_or_0 row ''p99_ms'') (\<lambda>c.
       Inr \<lparr>lp_time = t, lp_p50 = a, lp_p95 = b, lp_p99 = c\<rparr>))))"

text \<open>\<open>data.rows ?? []\<close> where only its length and its first element are read.\<close>

definition rows_value :: "json \<Rightarrow> (js_error, json) result" where
  "rows_value d = and_then (get_prop d ''rows'') (\<lambda>v. Inr (case v of Some j \<Rightarrow> if j = JNull then JArr [] else j | None \<Rightarrow> JArr []))"

definition has_rows :: "json \<Rightarrow> (js_error, bool) result" where
  "has_rows v =
     (case v of
        JArr xs \<Rightarrow> Inr (xs \<noteq> [])
      | JStr s \<Rightarrow> Inr (s \<noteq> [])
      | JObj m \<Rightarrow>
          (case map_of m (js ''length'') of
             None \<Rightarrow> Inr False
           | Some l \<Rightarrow> and_then (to_number l) (\<lambda>n. Inr (num_lt (Fin 0) n)))
      | _ \<Rightarrow> Inr False)"

definition row_0 :: "json \<Rightarrow> (js_error, json option) result" where
  "row_0 v = index_0 v"

text \<open>Reading a field of \<open>undefined\<close> throws as for \<open>null\<close>.\<close>

definition field_0 :: "json \<Rightarrow> string \<Rightarrow> (js_error, jsnum) result" where
  "field_0 rows k =
     and_then (row_0 rows) (\<lambda>r. case r of None \<Rightarrow> Inl (TypeError k) | Some row \<Rightarrow> number_or_0 row k)"

definition error_ratio :: "jsnum \<Rightarrow> jsnum \<Rightarrow> jsnum" where
  "error_ratio errors traces = (if num_lt (Fin 0) traces then num_div errors traces else Fin 0)"

definition zero_kpi :: KPIValue where
  "zero_kpi = \<lparr>kpi_totalCost = Fin 0, kpi_totalTraces = Fin 0, kpi_errorRate = Fin 0, kpi_avgLatencyMs = Fin 0\<rparr>"

definition read_kpi :: "json \<Rightarrow> json \<Rightarrow> (js_error, KPIValue) result" where
  "read_kpi kpiJson errorJson =
     and_then (rows_value kpiJson) (\<lambda>rows.
     and_then (has_rows rows) (\<lambda>some.
       if \<not> some then Inr zero_kpi
       else and_then (field_0 rows ''total_traces'') (\<lambda>traces.
            and_then (rows_value errorJson) (\<lambda>erows.
            and_then (has_rows erows) (\<lambda>esome.
            and_then (if esome then field_0 erows ''error_count'' else Inr (Fin 0)) (\<lambda>errors.
            and_then (field_0 rows ''total_cost'') (\<lambda>cost.
            and_then (field_0 rows ''avg_latency_ms'') (\<lambda>avg.
              Inr \<lparr>kpi_totalCost = cost, kpi_totalTraces = traces, kpi_errorRate = error_ratio errors traces,
                   kpi_avgLatencyMs = avg\<rparr>))))))))"

text \<open>The error counts by time, later rows of the same time replacing earlier ones.\<close>

fun error_map :: "runtime \<Rightarrow> json list \<Rightarrow> (int \<times> jsnum) list \<Rightarrow> (js_error, (int \<times> jsnum) list) result" where
  "error_map rt [] m = Inr m"
| "error_map rt (row # rows) m =
     and_then (extractRawTime rt row) (\<lambda>t.
       if 0 < t then and_then (number_or_0 row ''error_count'') (\<lambda>n. error_map rt rows (assoc_set t n m))
       else error_map rt rows m)"

definition total_row :: "runtime \<Rightarrow> json \<Rightarrow> (js_error, int \<times> jsnum) result" where
  "total_row rt row =
     and_then (extractRawTime rt row) (\<lambda>t. and_then (number_or_0 row ''total_count'') (\<lambda>n. Inr (t, n)))"

text \<open>\<open>errorMap.get(t) || 0\<close>\<close>

definition merge_error_rows :: "(int \<times> jsnum) list \<Rightarrow> (int \<times> jsnum) list \<Rightarrow> ErrorRateData list" where
  "merge_error_rows totals errors =
     filter (\<lambda>d. 0 < er_time d)
       (map (\<lambda>(t, n). \<lparr>er_time = t, er_total = n,
          er_errors = (case map_of errors t of Some e \<Rightarrow> if num_truthy e then e else Fin 0 | None \<Rightarrow> Fin 0)\<rparr>)
         totals)"

definition read_error_rate :: "runtime \<Rightarrow> json \<Rightarrow> json \<Rightarrow> (js_error, ErrorRateData list) result" where
  "read_error_rate rt totalJson errorJson =
     and_then (rows_of totalJson) (\<lambda>trows.
     and_then (map_result (total_row rt) trows) (\<lambda>totals.
     and_then (rows_of errorJson) (\<lambda>erows.
     and_then (error_map rt erows []) (\<lambda>errors.
       Inr (merge_error_rows (filter (\<lambda>(t, _). 0 < t) totals) errors)))))"

section \<open>The page\<close>

text \<open>
  The state of the component, the properties it is given, and the requests in flight with the sequence
  number each was started under. The last two fields are ghosts: the project and window the widgets
  were filled for, and whether the latest finished request failed.
\<close>

record dashboard =
  activeProject :: jsstring
  timeRange :: "jsstring option"
  d_window :: time_window
  d_loading :: bool
  d_error :: "jsstring option"
  tracesByName :: "TracesByNameData list"
  tracesByTime :: "TimeSeriesData list"
  userConsumption :: "TracesByNameData list"
  tokenUsageData :: "CostData list"
  kindUsageData :: "CostData list"
  kpiData :: "KPIValue option"
  latencyData :: "LatencyPercentileData list"
  errorRateData :: "ErrorRateData list"
  requestSeq :: nat
  fetched_for :: "(jsstring \<times> time_window) option"
  d_inflight :: "(nat \<times> AnalyticsRequest list) list"
  filled_for :: "(jsstring \<times> time_window) option"
  last_failed :: bool

definition deps :: "dashboard \<Rightarrow> jsstring \<times> time_window" where
  "deps d = (activeProject d, d_window d)"

text \<open>\<open>fetchData\<close> up to its first \<open>await\<close>.\<close>

definition fetch_begin :: "runtime \<Rightarrow> dashboard \<Rightarrow> dashboard" where
  "fetch_begin rt d =
     d\<lparr>requestSeq := requestSeq d + 1, d_loading := True, d_error := None,
       d_inflight := d_inflight d @ [(requestSeq d + 1, dashboard_requests rt (activeProject d) (d_window d))]\<rparr>"

text \<open>
  The updates after the answers have been read, in the order of the code. Each one that is reached
  takes effect, also when a later one throws.
\<close>

definition updates ::
    "runtime \<Rightarrow> json list \<Rightarrow> (dashboard \<Rightarrow> (js_error, dashboard) result) list" where
  "updates rt answers =
     [\<lambda>d. and_then (rows_of (answers ! 0)) (\<lambda>rs. and_then (map_result (mapNameRow ''model'' ''unknown'') rs) (\<lambda>x.
        Inr (d\<lparr>tracesByName := x\<rparr>))),
      \<lambda>d. and_then (rows_of (answers ! 1)) (\<lambda>rs. and_then (map_result (mapTimeRow rt) rs) (\<lambda>x.
        Inr (d\<lparr>tracesByTime := filter (\<lambda>p. 0 < ts_time p) x\<rparr>))),
      \<lambda>d. and_then (rows_of (answers ! 2)) (\<lambda>rs. and_then (mapCostRows rs) (\<lambda>x. Inr (d\<lparr>tokenUsageData := x\<rparr>))),
      \<lambda>d. and_then (rows_of (answers ! 3)) (\<lambda>rs. and_then (mapKindRows rs) (\<lambda>x. Inr (d\<lparr>kindUsageData := x\<rparr>))),
      \<lambda>d. and_then (rows_of (answers ! 4)) (\<lambda>rs. and_then (map_result (mapNameRow ''service_name'' ''anonymous'') rs) (\<lambda>x.
        Inr (d\<lparr>userConsumption := x\<rparr>))),
      \<lambda>d. and_then (read_kpi (answers ! 5) (answers ! 6)) (\<lambda>x. Inr (d\<lparr>kpiData := Some x\<rparr>)),
      \<lambda>d. and_then (rows_of (answers ! 7)) (\<lambda>rs. and_then (map_result (mapLatencyRow rt) rs) (\<lambda>x.
        Inr (d\<lparr>latencyData := filter (\<lambda>p. 0 < lp_time p) x\<rparr>))),
      \<lambda>d. and_then (read_error_rate rt (answers ! 8) (answers ! 9)) (\<lambda>x. Inr (d\<lparr>errorRateData := x\<rparr>))]"

fun run_updates :: "('s \<Rightarrow> ('e, 's) result) list \<Rightarrow> 's \<Rightarrow> 's \<times> 'e option" where
  "run_updates [] s = (s, None)"
| "run_updates (f # fs) s = (case f s of Inl e \<Rightarrow> (s, Some e) | Inr s' \<Rightarrow> run_updates fs s')"

text \<open>
  The rest of \<open>fetchData\<close>, with what its two \<open>await\<close>s came to: an error, or the ten answers. The text of
  an error is the runtime's.
\<close>

definition fetch_failed :: "(js_error \<Rightarrow> jsstring) \<Rightarrow> js_error \<Rightarrow> dashboard \<Rightarrow> dashboard" where
  "fetch_failed msg e d = d\<lparr>d_error := Some (msg e), d_loading := False, last_failed := True\<rparr>"

definition fetch_end ::
    "runtime \<Rightarrow> (js_error \<Rightarrow> jsstring) \<Rightarrow> nat \<Rightarrow> (js_error, json list) result \<Rightarrow> dashboard \<Rightarrow> dashboard" where
  "fetch_end rt msg n outcome d =
     (if n \<noteq> requestSeq d then d
      else case outcome of
             Inl e \<Rightarrow> fetch_failed msg e d
           | Inr answers \<Rightarrow>
               (case run_updates (updates rt answers) d of
                  (d', Some e) \<Rightarrow> fetch_failed msg e d'
                | (d', None) \<Rightarrow> d'\<lparr>d_loading := False, filled_for := Some (deps d), last_failed := False\<rparr>))"

text \<open>The effect that fetches runs after a render whose project or window differs from the last one.\<close>

definition fetch_effect :: "runtime \<Rightarrow> dashboard \<Rightarrow> dashboard" where
  "fetch_effect rt d =
     (if fetched_for d = Some (deps d) then d else fetch_begin rt (d\<lparr>fetched_for := Some (deps d)\<rparr>))"

text \<open>The effect that follows the preset of the header.\<close>

definition preset_effect :: "int \<Rightarrow> dashboard \<Rightarrow> (js_error, dashboard) result" where
  "preset_effect now d =
     (case timeRange d of
        Some p \<Rightarrow>
          if p \<noteq> [] \<and> p \<noteq> js ''custom''
          then and_then (dash_presetToFromTo now (Some p)) (\<lambda>w. Inr (d\<lparr>d_window := w\<rparr>))
          else Inr d
      | None \<Rightarrow> Inr d)"

definition new_dashboard :: "jsstring \<Rightarrow> jsstring option \<Rightarrow> time_window \<Rightarrow> dashboard" where
  "new_dashboard project preset w =
     \<lparr>activeProject = project, timeRange = preset, d_window = w, d_loading = True, d_error = None,
      tracesByName = [], tracesByTime = [], userConsumption = [], tokenUsageData = [], kindUsageData = [],
      kpiData = None, latencyData = [], errorRateData = [], requestSeq = 0, fetched_for = None,
      d_inflight = [], filled_for = None, last_failed = False\<rparr>"

text \<open>
  Mounting renders with the window of the preset, runs both effects in order on that render, and renders
  again if the preset effect, at its own time, has moved the window.
\<close>

definition mount_dashboard ::
    "runtime \<Rightarrow> int \<Rightarrow> int \<Rightarrow> jsstring \<Rightarrow> jsstring option \<Rightarrow> (js_error, dashboard) result" where
  "mount_dashboard rt now now' project preset =
     and_then (dash_presetToFromTo now preset) (\<lambda>w.
     and_then (preset_effect now' (fetch_effect rt (new_dashboard project preset w))) (\<lambda>d.
       Inr (fetch_effect rt d)))"

text \<open>What the user does on the page.\<close>

datatype dash_msg = SetFrom jsstring | SetTo jsstring | Refresh | DismissError

text \<open>An empty or unreadable date leaves the window as it is.\<close>

definition set_from :: "runtime \<Rightarrow> jsstring \<Rightarrow> dashboard \<Rightarrow> dashboard" where
  "set_from rt v d =
     (case fromLocalInputValue rt v of
        Some s \<Rightarrow> if s \<noteq> [] then d\<lparr>d_window := (d_window d)\<lparr>tw_from := s\<rparr>\<rparr> else d
      | None \<Rightarrow> d)"

definition set_to :: "runtime \<Rightarrow> jsstring \<Rightarrow> dashboard \<Rightarrow> dashboard" where
  "set_to rt v d =
     (case fromLocalInputValue rt v of
        Some s \<Rightarrow> if s \<noteq> [] then d\<lparr>d_window := (d_window d)\<lparr>tw_to := s\<rparr>\<rparr> else d
      | None \<Rightarrow> d)"

fun user_action :: "runtime \<Rightarrow> dash_msg \<Rightarrow> dashboard \<Rightarrow> dashboard" where
  "user_action rt (SetFrom v) d = fetch_effect rt (set_from rt v d)"
| "user_action rt (SetTo v) d = fetch_effect rt (set_to rt v d)"
| "user_action rt Refresh d = fetch_begin rt d"
| "user_action rt DismissError d = d\<lparr>d_error := None\<rparr>"

text \<open>New properties from the application.\<close>

definition change_project :: "runtime \<Rightarrow> jsstring \<Rightarrow> dashboard \<Rightarrow> dashboard" where
  "change_project rt project d = fetch_effect rt (d\<lparr>activeProject := project\<rparr>)"

definition change_preset :: "runtime \<Rightarrow> int \<Rightarrow> jsstring option \<Rightarrow> dashboard \<Rightarrow> (js_error, dashboard) result" where
  "change_preset rt now preset d =
     and_then (dash_presetToFromTo now preset) (\<lambda>_.
     and_then (preset_effect now (d\<lparr>timeRange := preset\<rparr>)) (\<lambda>d. Inr (fetch_effect rt d)))"

section \<open>Runs of the page\<close>

text \<open>What \<open>fetchData\<close> awaits: the pool of workers over its requests, then the bodies of their responses.\<close>

definition awaited :: "nat \<Rightarrow> (js_error, analytics_response option list) result \<Rightarrow> (js_error, json list) result" where
  "awaited pick r = and_then r (\<lambda>rs. all_json pick (map the rs))"

inductive dash_run :: "runtime \<Rightarrow> (js_error \<Rightarrow> jsstring) \<Rightarrow> dashboard \<Rightarrow> bool" for rt msg where
  dash_mount: "mount_dashboard rt now now' project preset = Inr d \<Longrightarrow> dash_run rt msg d"
| dash_user: "dash_run rt msg d \<Longrightarrow> dash_run rt msg (user_action rt m d)"
| dash_project: "dash_run rt msg d \<Longrightarrow> dash_run rt msg (change_project rt project d)"
| dash_preset: "dash_run rt msg d \<Longrightarrow> change_preset rt now preset d = Inr d' \<Longrightarrow> dash_run rt msg d'"
| dash_reply: "dash_run rt msg d \<Longrightarrow> d_inflight d = xs @ (n, rqs) # ys \<Longrightarrow>
    pool_run (length rqs) ANALYTICS_FETCH_CONCURRENCY seen b \<Longrightarrow> pool_outcome b = Some r \<Longrightarrow>
    dash_run rt msg (fetch_end rt msg n (awaited pick r) (d\<lparr>d_inflight := xs @ ys\<rparr>))"

definition dash_inv :: "runtime \<Rightarrow> dashboard \<Rightarrow> bool" where
  "dash_inv rt d \<longleftrightarrow>
     distinct (map fst (d_inflight d)) \<and> (\<forall>x\<in>set (d_inflight d). fst x \<le> requestSeq d) \<and>
     (d_loading d \<longleftrightarrow> requestSeq d \<in> fst ` set (d_inflight d)) \<and>
     fetched_for d = Some (deps d) \<and>
     (\<forall>rqs. (requestSeq d, rqs) \<in> set (d_inflight d) \<longrightarrow>
       rqs = dashboard_requests rt (activeProject d) (d_window d)) \<and>
     (\<not> d_loading d \<longrightarrow> \<not> last_failed d \<longrightarrow> filled_for d = Some (deps d))"

text \<open>What holds before the fetch effect has run.\<close>

definition seq_ok :: "dashboard \<Rightarrow> bool" where
  "seq_ok d \<longleftrightarrow> distinct (map fst (d_inflight d)) \<and> (\<forall>x\<in>set (d_inflight d). fst x \<le> requestSeq d)"

lemma fetch_begin_inv: "seq_ok d \<Longrightarrow> fetched_for d = Some (deps d) \<Longrightarrow> dash_inv rt (fetch_begin rt d)"
  by (fastforce simp: dash_inv_def seq_ok_def fetch_begin_def deps_def image_iff)

lemma fetch_effect_inv:
  assumes "seq_ok d" and "fetched_for d = Some (deps d) \<Longrightarrow> dash_inv rt d"
  shows "dash_inv rt (fetch_effect rt d)"
proof (cases "fetched_for d = Some (deps d)")
  case False
  have "dash_inv rt (fetch_begin rt (d\<lparr>fetched_for := Some (deps d)\<rparr>))"
    using assms(1) by (intro fetch_begin_inv) (auto simp: seq_ok_def deps_def)
  with False show ?thesis by (simp add: fetch_effect_def)
qed (simp add: fetch_effect_def assms(2))

text \<open>A change of project or window alone.\<close>

lemma fetch_effect_change:
  assumes "dash_inv rt d"
  shows "dash_inv rt (fetch_effect rt (d\<lparr>activeProject := p, timeRange := tr, d_window := w\<rparr>))"
proof (rule fetch_effect_inv)
  show "seq_ok (d\<lparr>activeProject := p, timeRange := tr, d_window := w\<rparr>)"
    using assms by (auto simp: dash_inv_def seq_ok_def)
  assume "fetched_for (d\<lparr>activeProject := p, timeRange := tr, d_window := w\<rparr>) =
    Some (deps (d\<lparr>activeProject := p, timeRange := tr, d_window := w\<rparr>))"
  then have "p = activeProject d" "w = d_window d"
    using assms by (auto simp: dash_inv_def deps_def)
  then show "dash_inv rt (d\<lparr>activeProject := p, timeRange := tr, d_window := w\<rparr>)"
    using assms by (simp add: dash_inv_def deps_def)
qed

lemma preset_effect_shape: "preset_effect now d = Inr d' \<Longrightarrow> \<exists>w. d' = d\<lparr>d_window := w\<rparr>"
  by (auto simp: preset_effect_def and_then_Inr_iff split: option.splits if_splits intro: exI [of _ "d_window d"])

text \<open>The updates touch only the data of the widgets.\<close>

definition control :: "dashboard \<Rightarrow> dashboard" where
  "control d = d\<lparr>tracesByName := [], tracesByTime := [], userConsumption := [], tokenUsageData := [],
     kindUsageData := [], kpiData := None, latencyData := [], errorRateData := []\<rparr>"

lemma run_updates_inv:
  assumes "run_updates fs s = (s', e)" and "\<And>f s s'. f \<in> set fs \<Longrightarrow> f s = Inr s' \<Longrightarrow> g s' = g s"
  shows "g s' = g s"
  using assms
proof (induction fs arbitrary: s)
  case (Cons f fs)
  show ?case
  proof (cases "f s")
    case (Inr s1)
    then have "g s' = g s1" using Cons by (intro Cons.IH) auto
    also have "\<dots> = g s" using Cons.prems(2) [of f] Inr by simp
    finally show ?thesis .
  qed (use Cons in auto)
qed simp

lemma updates_control: "run_updates (updates rt answers) d = (d', e) \<Longrightarrow> control d' = control d"
  by (erule run_updates_inv) (auto simp: updates_def control_def and_then_Inr_iff)

lemma control_fields:
  assumes "control d' = control d"
  shows "deps d' = deps d" "d_inflight d' = d_inflight d" "requestSeq d' = requestSeq d"
    "fetched_for d' = fetched_for d" "activeProject d' = activeProject d" "d_window d' = d_window d"
  using assms by (auto simp: control_def deps_def dest!: arg_cong [of _ _ "\<lambda>d. (activeProject d, d_window d,
    d_inflight d, requestSeq d, fetched_for d)"])

lemma fetch_end_inv:
  assumes inv: "dash_inv rt d" and split: "d_inflight d = xs @ (n, rqs) # ys"
  shows "dash_inv rt (fetch_end rt msg n outcome (d\<lparr>d_inflight := xs @ ys\<rparr>))"
proof (cases "n = requestSeq d")
  case False
  then show ?thesis
    using inv split by (auto simp: fetch_end_def dash_inv_def deps_def)
next
  case True
  have gone: "requestSeq d \<notin> fst ` set (xs @ ys)"
    using inv split True by (auto simp: dash_inv_def)
  have settled: "dash_inv rt (e\<lparr>d_error := m, d_loading := False, filled_for := ff, last_failed := lf\<rparr>)"
    if "control e = control (d\<lparr>d_inflight := xs @ ys\<rparr>)" "lf \<or> ff = Some (deps e)" for e m ff lf
    using inv split that(2) control_fields [OF that(1)] gone by (auto simp: dash_inv_def deps_def)
  show ?thesis
  proof (cases outcome)
    case (Inl err)
    have "dash_inv rt ((d\<lparr>d_inflight := xs @ ys\<rparr>)\<lparr>d_error := Some (msg err), d_loading := False,
        filled_for := filled_for d, last_failed := True\<rparr>)"
      by (rule settled) simp_all
    with Inl True show ?thesis by (simp add: fetch_end_def fetch_failed_def)
  next
    case (Inr answers)
    obtain d' err where run: "run_updates (updates rt answers) (d\<lparr>d_inflight := xs @ ys\<rparr>) = (d', err)"
      by fastforce
    note ctl = updates_control [OF run]
    show ?thesis
    proof (cases err)
      case None
      have "dash_inv rt (d'\<lparr>d_error := d_error d', d_loading := False, filled_for := Some (deps d'),
          last_failed := False\<rparr>)"
        by (rule settled [OF ctl]) simp
      moreover have "deps d' = deps (d\<lparr>d_inflight := xs @ ys\<rparr>)" by (rule control_fields(1) [OF ctl])
      ultimately show ?thesis using Inr None True run by (simp add: fetch_end_def)
    next
      case (Some x)
      have "dash_inv rt (d'\<lparr>d_error := Some (msg x), d_loading := False, filled_for := filled_for d',
          last_failed := True\<rparr>)"
        by (rule settled [OF ctl]) simp
      with Inr Some True run show ?thesis by (simp add: fetch_end_def fetch_failed_def)
    qed
  qed
qed

lemma dash_invariant: "dash_run rt msg d \<Longrightarrow> dash_inv rt d"
proof (induction rule: dash_run.induct)
  case (dash_mount now now' project preset d)
  then obtain w d1 where d1: "preset_effect now' (fetch_effect rt (new_dashboard project preset w)) = Inr d1"
      and d: "d = fetch_effect rt d1"
    by (auto simp: mount_dashboard_def and_then_Inr_iff)
  have inv: "dash_inv rt (fetch_effect rt (new_dashboard project preset w))" (is "dash_inv rt ?e")
    by (rule fetch_effect_inv) (auto simp: seq_ok_def new_dashboard_def)
  obtain w' where "d1 = ?e\<lparr>d_window := w'\<rparr>" using preset_effect_shape [OF d1] by blast
  then show ?case using fetch_effect_change [OF inv, where p = "activeProject ?e" and tr = "timeRange ?e" and w = w'] d by simp
next
  case (dash_user d m)
  show ?case
  proof (cases m)
    case Refresh
    have "seq_ok d" "fetched_for d = Some (deps d)"
      using dash_user.IH by (simp_all add: dash_inv_def seq_ok_def)
    with Refresh show ?thesis by (simp add: fetch_begin_inv)
  next
    case DismissError
    then show ?thesis using dash_user by (simp add: dash_inv_def deps_def)
  next
    case (SetFrom v)
    have "\<exists>w. set_from rt v d = d\<lparr>d_window := w\<rparr>"
      by (auto simp: set_from_def intro: exI [of _ "d_window d"] split: option.split)
    with SetFrom show ?thesis
      using fetch_effect_change [OF dash_user.IH, where p = "activeProject d" and tr = "timeRange d"] by auto
  next
    case (SetTo v)
    have "\<exists>w. set_to rt v d = d\<lparr>d_window := w\<rparr>"
      by (auto simp: set_to_def intro: exI [of _ "d_window d"] split: option.split)
    with SetTo show ?thesis
      using fetch_effect_change [OF dash_user.IH, where p = "activeProject d" and tr = "timeRange d"] by auto
  qed
next
  case (dash_project d project)
  then show ?case
    using fetch_effect_change [where rt = rt and d = d and p = project and tr = "timeRange d" and w = "d_window d"] by (simp add: change_project_def)
next
  case (dash_preset d now preset d')
  then obtain d1 where d1: "preset_effect now (d\<lparr>timeRange := preset\<rparr>) = Inr d1" "d' = fetch_effect rt d1"
    by (auto simp: change_preset_def and_then_Inr_iff)
  then obtain w where "d1 = d\<lparr>timeRange := preset, d_window := w\<rparr>" using preset_effect_shape by blast
  then show ?case
    using d1(2) fetch_effect_change [OF dash_preset.IH, where p = "activeProject d" and tr = preset and w = w] by simp
next
  case (dash_reply d xs n rqs ys seen b r pick)
  then show ?case by (intro fetch_end_inv)
qed


section \<open>Answers and requests\<close>

lemma all_json_Inr:
  assumes "all_json pick rs = Inr vs"
  shows "map_result response_json rs = Inr vs"
  using assms by (auto simp: all_json_def split: list.splits)

lemma map_result_nth: "map_result f xs = Inr ys \<Longrightarrow> i < length xs \<Longrightarrow> f (xs ! i) = Inr (ys ! i)"
  by (induction xs arbitrary: ys i) (auto simp: and_then_Inr_iff nth_Cons split: nat.splits)


definition demo_answer :: "nat \<Rightarrow> json" where
  "demo_answer i =
     JObj [(js ''rows'', JArr (if i = 0 then [JObj [(js ''model'', JStr (js ''gpt'')), (js ''count'', JNum (Fin 7))]] else []))]"

definition demo_response :: "nat \<Rightarrow> analytics_response" where
  "demo_response i = \<lparr>an_ok = True, an_json = Inr (demo_answer i)\<rparr>"

lemma demo_awaited:
  "awaited pick (Inr (map (Some \<circ> demo_response) [0..<10])) = Inr (map demo_answer [0..<10])"
proof -
  have "map_result response_json (map demo_response xs) = Inr (map demo_answer xs)" for xs
    by (induction xs) (simp_all add: response_json_def demo_response_def)
  moreover have "List.map_filter (\<lambda>r. case response_json r of Inl e \<Rightarrow> Some e | Inr _ \<Rightarrow> None)
      (map demo_response xs) = []" for xs
    by (induction xs) (simp_all add: map_filter_simps response_json_def demo_response_def)
  ultimately show ?thesis by (simp add: awaited_def all_json_def comp_def del: upt_rec_numeral)
qed


lemma demo_rows:
  "rows_of (demo_answer 0) = Inr [JObj [(js ''model'', JStr (js ''gpt'')), (js ''count'', JNum (Fin 7))]]"
  "0 < i \<Longrightarrow> rows_of (demo_answer i) = Inr []"
  "0 < i \<Longrightarrow> rows_value (demo_answer i) = Inr (JArr [])"
  by (simp_all add: rows_of_def rows_value_def demo_answer_def or_else_def nullish_def)

lemma demo_name_row:
  "mapNameRow ''model'' ''unknown'' (JObj [(js ''model'', JStr (js ''gpt'')), (js ''count'', JNum (Fin 7))]) =
     Inr \<lparr>tn_name = JStr (js ''gpt''), tn_count = Fin 7\<rparr>"
  by (simp add: mapNameRow_def name_or_def number_or_0_def to_number_def num_truthy_def)

lemma demo_updates:
  "run_updates (updates rt (map demo_answer [0..<10])) d =
     (d\<lparr>tracesByName := [\<lparr>tn_name = JStr (js ''gpt''), tn_count = Fin 7\<rparr>], tracesByTime := [], tokenUsageData := [],
        kindUsageData := [], userConsumption := [], kpiData := Some zero_kpi, latencyData := [],
        errorRateData := []\<rparr>, None)"
  by (simp add: updates_def demo_rows demo_name_row mapCostRows_def mapKindRows_def read_kpi_def has_rows_def
      read_error_rate_def merge_error_rows_def del: upt_rec_numeral)

lemma dash_preset_none: "\<exists>w. dash_presetToFromTo now None = Inr w"
  by (simp add: dash_presetToFromTo_def dash_duration_def toISOString_def)

lemma requests_length [simp]: "length (dashboard_requests rt project w) = 10"
  by (simp add: dashboard_requests_def Let_def)

lemma reply_success:
  assumes "dash_run rt msg d" and "d_inflight d = [(n, dashboard_requests rt p w)]"
  shows "dash_run rt msg (fetch_end rt msg n (Inr (map demo_answer [0..<10])) (d\<lparr>d_inflight := []\<rparr>))"
proof -
  obtain seen and b :: "(js_error, analytics_response) pool"
    where run: "pool_run 10 ANALYTICS_FETCH_CONCURRENCY seen b"
      and out: "pool_outcome b = Some (Inr (map (Some \<circ> demo_response) [0..<10]))"
    using completed_run by blast
  from dash_reply [OF assms(1), of "[]" n _ "[]", OF _ _ out] run assms(2) show ?thesis
    by (simp add: demo_awaited del: upt_rec_numeral)
qed

lemma reply_failure:
  assumes "dash_run rt msg d" and "d_inflight d = [(n, dashboard_requests rt p w)]"
  shows "dash_run rt msg (fetch_end rt msg n (Inl e) (d\<lparr>d_inflight := []\<rparr>))"
proof -
  obtain seen and b :: "(js_error, analytics_response) pool"
    where run: "pool_run 10 ANALYTICS_FETCH_CONCURRENCY seen b" and out: "pool_outcome b = Some (Inl e)"
    using failed_run by (metis zero_less_numeral)
  from dash_reply [OF assms(1), of "[]" n _ "[]", OF _ _ out] run assms(2) show ?thesis
    by (simp add: awaited_def)
qed

text \<open>A page that has loaded a project.\<close>

lemma demo_loaded:
  "\<exists>d w. dash_run rt msg d \<and> requestSeq d = 1 \<and> d_inflight d = [] \<and> activeProject d = js ''a'' \<and>
    d_window d = w \<and> fetched_for d = Some (js ''a'', w) \<and> filled_for d = Some (js ''a'', w) \<and>
    tracesByName d = [\<lparr>tn_name = JStr (js ''gpt''), tn_count = Fin 7\<rparr>] \<and> \<not> d_loading d \<and> \<not> last_failed d"
proof -
  obtain w where w: "dash_presetToFromTo 0 None = Inr w" using dash_preset_none by blast
  define d0 where "d0 = fetch_effect rt (new_dashboard (js ''a'') None w)"
  define d1 where "d1 = fetch_end rt msg 1 (Inr (map demo_answer [0..<10])) (d0\<lparr>d_inflight := []\<rparr>)"
  have d0: "d_inflight d0 = [(1, dashboard_requests rt (js ''a'') w)]" "requestSeq d0 = 1" "activeProject d0 = js ''a''"
      "d_window d0 = w" "timeRange d0 = None" "fetched_for d0 = Some (js ''a'', w)"
    by (simp_all add: d0_def fetch_effect_def fetch_begin_def deps_def new_dashboard_def)
  have "mount_dashboard rt 0 0 (js ''a'') None = Inr (fetch_effect rt d0)"
    using w d0 by (simp add: mount_dashboard_def preset_effect_def flip: d0_def)
  moreover have "fetch_effect rt d0 = d0" using d0 by (simp add: fetch_effect_def deps_def)
  ultimately have "dash_run rt msg d0" using dash_mount by metis
  then have "dash_run rt msg d1" unfolding d1_def using d0(1) by (rule reply_success)
  then show ?thesis
    using d0 by (intro exI [of _ d1] exI [of _ w])
      (simp add: d1_def fetch_end_def demo_updates deps_def del: upt_rec_numeral)
qed


text \<open>
  After a failed load the page can show another project's numbers as if they were current. Switching
  projects and losing the connection leaves the old widgets under an error; dismissing the error is
  enough to have a page that is idle, reports nothing, names the new project and shows the old data.
\<close>

theorem dismissed_error_leaves_old_project:
  "\<exists>d. dash_run rt msg d \<and> activeProject d = js ''b'' \<and> \<not> d_loading d \<and> d_error d = None \<and>
    d_inflight d = [] \<and> filled_for d = Some (js ''a'', d_window d) \<and>
    tracesByName d = [\<lparr>tn_name = JStr (js ''gpt''), tn_count = Fin 7\<rparr>]"
proof -
  obtain d1 w where run: "dash_run rt msg d1" and d1: "requestSeq d1 = 1" "d_inflight d1 = []"
      "activeProject d1 = js ''a''" "d_window d1 = w" "fetched_for d1 = Some (js ''a'', w)"
      "filled_for d1 = Some (js ''a'', w)" "tracesByName d1 = [\<lparr>tn_name = JStr (js ''gpt''), tn_count = Fin 7\<rparr>]"
    using demo_loaded by blast
  define d2 where "d2 = change_project rt (js ''b'') d1"
  define d3 where "d3 = fetch_end rt msg 2 (Inl SyntaxError) (d2\<lparr>d_inflight := []\<rparr>)"
  define d4 where "d4 = user_action rt DismissError d3"
  have "dash_run rt msg d2" unfolding d2_def using run by (rule dash_project)
  have d2: "requestSeq d2 = 2" "d_inflight d2 = [(2, dashboard_requests rt (js ''b'') w)]"
      "activeProject d2 = js ''b''" "d_window d2 = w" "filled_for d2 = Some (js ''a'', w)"
      "tracesByName d2 = [\<lparr>tn_name = JStr (js ''gpt''), tn_count = Fin 7\<rparr>]"
    using d1 by (simp_all add: d2_def change_project_def fetch_effect_def fetch_begin_def deps_def)
  have "dash_run rt msg d3" unfolding d3_def using \<open>dash_run rt msg d2\<close> d2(2) by (rule reply_failure)
  then have "dash_run rt msg d4" unfolding d4_def by (rule dash_user)
  moreover have "d4 = (d2\<lparr>d_inflight := [], d_loading := False, last_failed := True, d_error := None\<rparr>)"
    using d2(1) by (simp add: d4_def d3_def fetch_end_def fetch_failed_def)
  ultimately show ?thesis using d2 by (intro exI [of _ d4]) simp
qed

text \<open>
  The error rate of the KPI tile is a ratio: with counts as the service returns them (errors among the
  traces) it lies between 0 and 1, and it is 0 when nothing was traced.
\<close>

theorem error_ratio_bounds:
  assumes "0 \<le> e" and "e \<le> n"
  shows "\<exists>x. error_ratio (Fin e) (Fin n) = Fin x \<and> 0 \<le> x \<and> x \<le> 1 \<and> (n = 0 \<longrightarrow> x = 0)"
proof (cases "n = 0")
  case False
  then have n: "0 < n" using assms by simp
  define q where "q = e / n"
  have q: "0 \<le> q" "q \<le> 1" using assms n by (simp_all add: q_def)
  have m: "0 \<le> round_mag q" "round_mag q \<le> 1"
    using round_mag_nonneg [OF q(1)] round_mag_mono [OF q] round_mag_int [of 1] by simp_all
  have "round_mag q < 2 ^ 1024" using m(2) by (rule order_le_less_trans) simp
  then have "to_double q = Fin (if q = 0 then 0 else round_mag q)"
    using q(1) by (simp add: to_double_def Let_def)
  then show ?thesis using n m False by (auto simp: error_ratio_def q_def)
qed (simp add: error_ratio_def)

lemma error_ratio_bounds_witness: "\<exists>x. error_ratio (Fin 1) (Fin 3) = Fin x \<and> 0 \<le> x \<and> x \<le> 1"
  using error_ratio_bounds [of 1 3] by auto

end
