(* ===== verification/Theme.thy ===== *)
theory Theme
  imports JsConvert
begin

text \<open>
  \<open>ui/src/theme.ts\<close>: the palette as tables from names to hex colours, and the functions that compute
  colours and opacities.
\<close>

section \<open>Tables\<close>

definition backgrounds :: "(string \<times> string) list" where
  "backgrounds =
     [(''abyssBlack'', ''#0A0A0F''), (''charcoalDepth'', ''#111118''), (''slightIllumination'', ''#1C1C28''),
      (''caveWall'', ''#2A2A3A''), (''voidBlack'', ''#0A0A0F''), (''depth'', ''#111118''),
      (''surface'', ''#1C1C28''), (''border'', ''#2A2A3A'')]"

definition accents :: "(string \<times> string) list" where
  "accents =
     [(''emberFlare'', ''#7C3AED''), (''softGlow'', ''#8B5CF6''), (''flicker'', ''#A78BFA''),
      (''deepHeat'', ''#6D28D9''), (''emberGlow'', ''#7C3AED''), (''greenSuccess'', ''#10B981''),
      (''amberWarning'', ''#F59E0B''), (''dangerRed'', ''#EF4444''), (''dangerLight'', ''#FCA5A5''),
      (''violet'', ''#7C3AED''), (''violetLight'', ''#8B5CF6''), (''violetPale'', ''#A78BFA''),
      (''violetDark'', ''#6D28D9''), (''cyan'', ''#06B6D4''), (''cyanLight'', ''#22D3EE''),
      (''cyanDark'', ''#0891B2'')]"

definition typography :: "(string \<times> string) list" where
  "typography = [(''pureLight'', ''#FFFFFF''), (''midTone'', ''#C4C4D4''), (''ashGrey'', ''#8B8BA7'')]"

definition cssVariables :: "(string \<times> string) list" where
  "cssVariables =
     [(''--omneval-void'', ''#0A0A0F''), (''--omneval-depth'', ''#111118''), (''--omneval-surface'', ''#1C1C28''),
      (''--omneval-border'', ''#2A2A3A''), (''--omneval-violet'', ''#7C3AED''),
      (''--omneval-violet-light'', ''#8B5CF6''), (''--omneval-violet-pale'', ''#A78BFA''),
      (''--omneval-violet-dark'', ''#6D28D9''), (''--omneval-cyan'', ''#06B6D4''),
      (''--omneval-cyan-light'', ''#22D3EE''), (''--omneval-success'', ''#10B981''),
      (''--omneval-warning'', ''#F59E0B''), (''--omneval-danger'', ''#EF4444''),
      (''--omneval-danger-light'', ''#FCA5A5''), (''--omneval-text-pure'', ''#FFFFFF''),
      (''--omneval-text-mid'', ''#C4C4D4''), (''--omneval-text-muted'', ''#8B8BA7''),
      (''--omneval-card-shadow'', ''0 1px 4px rgba(0, 0, 0, 0.6), 0 1px 2px rgba(0, 0, 0, 0.4)''),
      (''--omneval-card-hover-shadow'', ''0 4px 16px rgba(0, 0, 0, 0.7), 0 2px 8px rgba(0, 0, 0, 0.5)''),
      (''--omneval-bg-abyss'', ''#0A0A0F''), (''--omneval-bg-charcoal'', ''#111118''),
      (''--omneval-bg-illumination'', ''#1C1C28''), (''--omneval-bg-cave'', ''#2A2A3A''),
      (''--omneval-accent-ember'', ''#7C3AED''), (''--omneval-accent-glow'', ''#8B5CF6''),
      (''--omneval-accent-flicker'', ''#A78BFA''), (''--omneval-accent-heat'', ''#6D28D9''),
      (''--omneval-accent-ember-glow'', ''#7C3AED''), (''--omneval-accent-success'', ''#10B981''),
      (''--omneval-accent-warning'', ''#F59E0B''), (''--omneval-accent-danger'', ''#EF4444''),
      (''--omneval-accent-danger-light'', ''#FCA5A5''), (''--omneval-text-ash'', ''#8B8BA7'')]"

definition series :: "string list" where
  "series = [''#7C3AED'', ''#8B5CF6'', ''#06B6D4'', ''#A78BFA'', ''#22D3EE'', ''#6D28D9'']"

definition focusRing :: "(string \<times> string) list" where
  "focusRing = [(''normal'', ''rgba(124, 58, 237, 0.3)''), (''danger'', ''rgba(239, 68, 68, 0.3)'')]"

definition accent :: "string \<Rightarrow> string" where
  "accent n = (case map_of accents n of Some c \<Rightarrow> c | None \<Rightarrow> [])"

section \<open>Functions\<close>

definition barOpacity :: "nat \<Rightarrow> nat \<Rightarrow> jsnum" where
  "barOpacity index count =
     num_add (to_double (55 / 100))
       (num_div (num_mul (to_double (45 / 100)) (num_of_int (int index))) (num_of_int (int (max count 1))))"

text \<open>\<open>parseInt(s, 16)\<close>: leading white space, a sign, an optional \<open>0x\<close>, the longest run of digits.\<close>

definition hex_run :: "jsstring \<Rightarrow> jsstring" where
  "hex_run s = takeWhile (\<lambda>u. hex_value u \<noteq> None) s"

definition parse_hex :: "jsstring \<Rightarrow> jsnum" where
  "parse_hex s =
     (let (neg, r) = split_sign (trim_start s);
          r = (if starts_with r (js ''0x'') \<or> starts_with r (js ''0X'') then drop 2 r else r);
          n = foldl (\<lambda>n u. 16 * n + the (hex_value u)) 0 (hex_run r)
      in if hex_run r = [] then NaN else to_double (if neg then - of_nat n else of_nat n))"

text \<open>\<open>replace("#", "")\<close> removes the first one.\<close>

definition toRgba :: "jsstring \<Rightarrow> jsnum \<Rightarrow> jsstring" where
  "toRgba hex alpha =
     (let cleaned = remove1 0x23 hex;
          chan = (\<lambda>i. num_to_string (parse_hex (take 2 (drop i cleaned))))
      in js ''rgba('' @ chan 0 @ js '', '' @ chan 2 @ js '', '' @ chan 4 @ js '', '' @ num_to_string alpha @ js '')'')"

definition flickerRgba :: "jsnum \<Rightarrow> jsstring" where
  "flickerRgba alpha = toRgba (js ''#A78BFA'') alpha"

end
