(* ===== verification/DashboardView.thy ===== *)
theory DashboardView
  imports DashboardPage Ui Theme Url
begin

text \<open>
  \<open>ui/src/pages/Dashboard.tsx\<close>, what is shown. The chart components come from a library; a chart is an
  element that holds the data, the axes and the cells the code gives it.
\<close>

section \<open>Cards and tiles\<close>

definition Card :: "string \<Rightarrow> 'm view \<Rightarrow> jsstring option \<Rightarrow> 'm view" where
  "Card title child subtitle =
     box [box (inline [tx title] #
            (case subtitle of Some s \<Rightarrow> shown (s \<noteq> []) [inline [Text s]] | None \<Rightarrow> [])),
          box [child]]"

definition KPITile :: "string \<Rightarrow> jsstring \<Rightarrow> string \<Rightarrow> string \<Rightarrow> 'm view" where
  "KPITile label v subtitle color =
     Elem ''div'' [(''color'', pstr color)] []
       [box [inline [tx label]], box [Text v], box [tx subtitle]]"

definition number_text :: "jsnum \<Rightarrow> jsstring" where
  "number_text n = (case formatNumber (Some (JNum n)) of Inr s \<Rightarrow> s | Inl _ \<Rightarrow> [])"

definition percent_text :: "jsnum \<Rightarrow> jsstring" where
  "percent_text n = to_fixed 2 (num_mul n (Fin 100)) @ js ''%''"

definition KPITiles :: "KPIValue option \<Rightarrow> bool \<Rightarrow> 'm view" where
  "KPITiles data loading =
     (case data of
        Some k \<Rightarrow>
          if loading then box (replicate 4 (box [Skeleton, Skeleton, Skeleton]))
          else box
            [KPITile ''Total Cost'' (formatCost (Some (kpi_totalCost k))) ''sum of cost_usd'' (accent ''violet''),
             KPITile ''Total Traces'' (number_text (kpi_totalTraces k)) ''count of spans'' (series ! 0),
             KPITile ''Error Rate'' (percent_text (kpi_errorRate k)) ''errors / total''
               (if num_lt (to_double (1 / 10)) (kpi_errorRate k) then accent ''dangerRed'' else accent ''greenSuccess''),
             KPITile ''Average Latency'' (formatMs (kpi_avgLatencyMs k)) ''avg duration_ms'' (series ! 2)]
      | None \<Rightarrow> box (replicate 4 (box [Skeleton, Skeleton, Skeleton])))"

section \<open>Bar charts\<close>

definition Y_AXIS_WIDTH :: nat where "Y_AXIS_WIDTH = 150"
definition Y_AXIS_LABEL_MAX :: nat where "Y_AXIS_LABEL_MAX = 22"

text \<open>A string or a number as a React child; other JSON values do not occur in the columns shown.\<close>

fun child_text :: "json \<Rightarrow> jsstring" where
  "child_text (JStr s) = s"
| "child_text (JNum n) = num_to_string n"
| "child_text _ = []"

definition tick_label :: "jsstring \<Rightarrow> jsstring" where
  "tick_label full =
     (if Y_AXIS_LABEL_MAX < length full then take (Y_AXIS_LABEL_MAX - 1) full @ ellipsis else full)"

definition TruncatedYTick :: "jsstring \<Rightarrow> 'm view" where
  "TruncatedYTick full =
     Elem ''g'' [] [] [Elem ''title'' [] [] [Text full], Elem ''text'' [] [] [Text (tick_label full)]]"

definition datum :: "(string \<times> prop_value) list \<Rightarrow> 'm view" where
  "datum ps = Elem ''datum'' ps [] []"

definition bar_cell :: "nat \<Rightarrow> nat \<Rightarrow> 'm view" where
  "bar_cell index n =
     Elem ''Cell'' [(''fill'', pstr (series ! (index mod length series))), (''fillOpacity'', PNum (barOpacity index n))] [] []"

definition count_chart :: "string \<Rightarrow> TracesByNameData list \<Rightarrow> 'm view" where
  "count_chart key data =
     Elem ''BarChart'' [(''layout'', pstr ''vertical'')] []
       (map (\<lambda>d. datum [(key, PStr (child_text (tn_name d))), (''count'', PNum (tn_count d))]) data @
        [Elem ''YAxis'' [(''dataKey'', pstr key), (''width'', PNum (num_of_int (int Y_AXIS_WIDTH)))] []
           (map (\<lambda>d. TruncatedYTick (child_text (tn_name d))) data),
         Elem ''Bar'' [(''dataKey'', pstr ''count'')] [] (map (\<lambda>i. bar_cell i (length data)) [0..<length data])])"

text \<open>The empty state names an action but passes no handler for it.\<close>

definition TracesByNameChart :: "TracesByNameData list \<Rightarrow> bool \<Rightarrow> 'm view" where
  "TracesByNameChart data loading =
     (if loading \<and> data = [] then LoadingState 5 False
      else if data = [] then
        EmptyState Default (Some (js ''No traces yet''))
          (Some (js ''Send your first trace to see model breakdown here'')) (Some (js ''View Traces'')) None
      else count_chart ''name'' data)"

definition UserConsumptionChart :: "TracesByNameData list \<Rightarrow> bool \<Rightarrow> 'm view" where
  "UserConsumptionChart data loading =
     (if loading \<and> data = [] then LoadingState 5 False
      else if data = [] then nothing_yet ''No consumption data'' ''Trace counts per service will appear here''
      else count_chart ''user'' data)"

definition ScoresWidget :: "bool \<Rightarrow> 'm view" where
  "ScoresWidget loading =
     (if loading then box [Skeleton, Skeleton]
      else EmptyState Default (Some (js ''No scores yet''))
             (Some (js ''Configure evaluation rules to start scoring traces'')) (Some (js ''Go to Settings'')) None)"

section \<open>Traces over time\<close>

definition chart_presets :: "(string \<times> int) list" where
  "chart_presets =
     [(''1h'', 60 * 60 * 1000), (''6h'', 6 * 60 * 60 * 1000), (''1d'', 24 * 60 * 60 * 1000),
      (''7d'', 7 * 24 * 60 * 60 * 1000), (''30d'', 30 * 24 * 60 * 60 * 1000)]"

text \<open>
  The preset whose length is closest to the window's, the first one on a tie. Time values are integers
  far below \<open>2 ^ 53\<close>, so their differences are exact. \<open>None\<close> is \<open>Infinity\<close>.
\<close>

fun closest_from :: "int \<Rightarrow> (string \<times> int) list \<Rightarrow> int option \<Rightarrow> string \<Rightarrow> string" where
  "closest_from diffMs [] minDiff best = best"
| "closest_from diffMs ((k, ms) # ps) minDiff best =
     (if (case minDiff of None \<Rightarrow> True | Some m \<Rightarrow> \<bar>diffMs - ms\<bar> < m)
      then closest_from diffMs ps (Some \<bar>diffMs - ms\<bar>) k
      else closest_from diffMs ps minDiff best)"

definition closest_preset :: "int option \<Rightarrow> string" where
  "closest_preset diffMs = (case diffMs of Some d \<Rightarrow> closest_from d chart_presets None ''7d'' | None \<Rightarrow> ''7d'')"

definition chart_preset :: "jsstring option \<Rightarrow> int option \<Rightarrow> jsstring" where
  "chart_preset preset diffMs =
     (case preset of
        Some p \<Rightarrow> if p \<noteq> [] \<and> p \<noteq> js ''custom'' \<and> p \<in> js ` fst ` set chart_presets then p else js (closest_preset diffMs)
      | None \<Rightarrow> js (closest_preset diffMs))"

definition interval_of :: "jsstring \<Rightarrow> int" where
  "interval_of p =
     (if p = js ''1h'' then 15 * 60 * 1000
      else if p = js ''6h'' then 60 * 60 * 1000
      else if p = js ''1d'' then 4 * 60 * 60 * 1000
      else if p = js ''7d'' then 24 * 60 * 60 * 1000
      else if p = js ''30d'' then 5 * 24 * 60 * 60 * 1000
      else 24 * 60 * 60 * 1000)"

text \<open>The loop \<open>while (current < toMs - intervalMs / 2)\<close>; the intervals are positive.\<close>

function tick_loop :: "int \<Rightarrow> int \<Rightarrow> int \<Rightarrow> int list" where
  "tick_loop intervalMs toMs current =
     (if 0 < intervalMs \<and> 2 * current < 2 * toMs - intervalMs
      then current # tick_loop intervalMs toMs (current + intervalMs) else [])"
  by auto
termination
  by (relation "measure (\<lambda>(i, b, c). nat (b - c))") auto

declare tick_loop.simps [simp del]

text \<open>With an invalid bound the loop is not entered.\<close>

definition chart_ticks :: "int \<Rightarrow> time_value \<Rightarrow> time_value \<Rightarrow> time_value list" where
  "chart_ticks intervalMs fromMs toMs =
     (case (fromMs, toMs) of
        (Some f, Some t) \<Rightarrow> map Some (tick_loop intervalMs t f) @ [Some t]
      | _ \<Rightarrow> [toMs])"

definition time_prop :: "time_value \<Rightarrow> prop_value" where
  "time_prop t = PNum (getTime t)"

definition TracesByTimeChart ::
    "runtime \<Rightarrow> TimeSeriesData list \<Rightarrow> bool \<Rightarrow> time_window \<Rightarrow> jsstring option \<Rightarrow> 'm view" where
  "TracesByTimeChart rt data loading w preset =
     (if loading \<and> data = [] then LoadingState 1 False
      else if data = [] then nothing_yet ''No time-series data'' ''Trace activity will appear here once data is available''
      else let fromMs = date_parse rt (tw_from w); toMs = date_parse rt (tw_to w);
               diffMs = (case (fromMs, toMs) of (Some f, Some t) \<Rightarrow> Some (t - f) | _ \<Rightarrow> None);
               presetKey = chart_preset preset diffMs
           in Elem ''LineChart'' [] []
                (map (\<lambda>d. datum [(''time'', PNum (num_of_int (ts_time d))), (''count'', PNum (ts_count d))]) data @
                 [Elem ''XAxis'' [(''domainFrom'', time_prop fromMs), (''domainTo'', time_prop toMs)] []
                    (map (\<lambda>t. Elem ''tick'' [(''value'', time_prop t)] []
                            (case t of Some v \<Rightarrow> [Text (formatTraceTimeTick rt v presetKey)] | None \<Rightarrow> []))
                       (chart_ticks (interval_of presetKey) fromMs toMs)),
                  Elem ''Line'' [(''dataKey'', pstr ''count'')] [] []]))"

section \<open>Costs and tokens\<close>

text \<open>
  \<open>Array.prototype.sort\<close> with a comparison: a stable sort, for comparisons that are consistent, as those
  of the sources are on the numbers they are given. \<open>NaN\<close> counts as equal.
\<close>

fun insert_by :: "('a \<Rightarrow> 'a \<Rightarrow> jsnum) \<Rightarrow> 'a \<Rightarrow> 'a list \<Rightarrow> 'a list" where
  "insert_by cmp x [] = [x]"
| "insert_by cmp x (y # ys) = (if num_lt (Fin 0) (cmp x y) then y # insert_by cmp x ys else x # y # ys)"

definition js_sort :: "('a \<Rightarrow> 'a \<Rightarrow> jsnum) \<Rightarrow> 'a list \<Rightarrow> 'a list" where
  "js_sort cmp xs = foldr (insert_by cmp) xs []"

definition by_cost :: "CostData \<Rightarrow> CostData \<Rightarrow> jsnum" where
  "by_cost a b = num_sub (co_cost b) (co_cost a)"

definition by_tokens :: "CostData \<Rightarrow> CostData \<Rightarrow> jsnum" where
  "by_tokens a b =
     num_sub (num_add (co_input b) (co_output b)) (num_add (co_input a) (co_output a))"

text \<open>The lookup of which models have a price: its answer, and the request it still waits for.\<close>

record priced_models =
  pm_value :: json
  pm_seq :: nat
  pm_key :: "jsstring option"

definition priced_request :: "jsstring \<Rightarrow> request option" where
  "priced_request key =
     map_option (\<lambda>e. \<lparr>req_method = GET, req_url = js ''/api/v1/models/priced?models='' @ e, req_headers = [],
       req_body = None\<rparr>) (encode_uri_component key)"

text \<open>The effect on a new key; an empty one makes no request and leaves the counter as it is.\<close>

definition priced_effect :: "jsstring \<Rightarrow> priced_models \<Rightarrow> priced_models" where
  "priced_effect key p =
     (if pm_key p = Some key then p
      else if key = [] then p\<lparr>pm_key := Some key, pm_value := JNull\<rparr>
      else p\<lparr>pm_key := Some key, pm_seq := pm_seq p + 1\<rparr>)"

definition priced_reply :: "nat \<Rightarrow> (js_error, json) result \<Rightarrow> priced_models \<Rightarrow> priced_models" where
  "priced_reply n r p =
     (if pm_seq p = n then p\<lparr>pm_value := (case r of Inr data \<Rightarrow> data | Inl _ \<Rightarrow> JNull)\<rparr> else p)"

definition models_key :: "CostData list \<Rightarrow> string \<Rightarrow> jsstring" where
  "models_key data labelHeader =
     (if labelHeader = ''Model'' then join (js '','') (map (child_text \<circ> co_model) (js_sort by_cost data)) else [])"

text \<open>\<open>priced?.[row.model] === false\<close>\<close>

definition unpriced :: "json \<Rightarrow> CostData \<Rightarrow> bool" where
  "unpriced priced row =
     (case priced of JObj m \<Rightarrow> map_of m (child_text (co_model row)) = Some (JBool False) | _ \<Rightarrow> False)"

definition header_row :: "string list \<Rightarrow> 'm view" where
  "header_row hs = Elem ''thead'' [] [] [Elem ''tr'' [] [] (map (\<lambda>h. Elem ''th'' [] [] [tx h]) hs)]"

definition td :: "'m view list \<Rightarrow> 'm view" where
  "td vs = Elem ''td'' [] [] vs"

definition table :: "string list \<Rightarrow> 'm view list \<Rightarrow> 'm view" where
  "table hs rows = box [Elem ''table'' [] [] [header_row hs, Elem ''tbody'' [] [] rows]]"

definition cost_row :: "json \<Rightarrow> CostData \<Rightarrow> 'm view" where
  "cost_row priced row =
     Elem ''tr'' [] []
       [td [Text (child_text (co_model row))], td [Text (number_text (co_input row))],
        td [Text (number_text (co_output row))],
        td (if unpriced priced row
            then [Elem ''span'' [(''title'', pstr ''No pricing is known for this model; costs are not computed.'')] []
                    [tx ''Unpriced'']]
            else [Text (formatCost (Some (co_cost row)))])]"

definition ModelCostsTable :: "json \<Rightarrow> CostData list \<Rightarrow> bool \<Rightarrow> string \<Rightarrow> 'm view" where
  "ModelCostsTable priced data loading labelHeader =
     (if loading \<and> data = [] then LoadingState 5 False
      else if data = [] then nothing_yet ''No cost data yet'' ''Cost breakdown will appear once traces are ingested''
      else table [labelHeader, ''Input Tokens'', ''Output Tokens'', ''Total Cost'']
             (map (cost_row priced) (js_sort by_cost data)))"

definition USAGE_TABS :: "string list" where
  "USAGE_TABS = [''Cost by Model'', ''Cost by Type'', ''Usage by Model'', ''Usage by Type'']"

definition isTypeTab :: "nat \<Rightarrow> bool" where "isTypeTab t \<longleftrightarrow> t = 1 \<or> t = 3"
definition showTokensOnly :: "nat \<Rightarrow> bool" where "showTokensOnly t \<longleftrightarrow> t = 2 \<or> t = 3"

definition usage_row :: "CostData \<Rightarrow> 'm view" where
  "usage_row row =
     Elem ''tr'' [] []
       [td [Text (child_text (co_model row))], td [Text (number_text (co_input row))],
        td [Text (number_text (co_output row))]]"

text \<open>A click on a tab sends its index.\<close>

definition ModelUsageWidget :: "json \<Rightarrow> bool \<Rightarrow> CostData list \<Rightarrow> CostData list \<Rightarrow> nat \<Rightarrow> nat view" where
  "ModelUsageWidget priced loading data typeData activeTab =
     (if loading then LoadingState 3 False
      else let activeData = (if isTypeTab activeTab then typeData else data)
           in box
                [box (map (\<lambda>i. button i [tx (USAGE_TABS ! i)]) [0..<length USAGE_TABS]),
                 if activeData = [] then nothing_yet ''No usage data yet'' ''Token counts will appear once traces are ingested''
                 else if showTokensOnly activeTab
                   then table [if activeTab = 2 then ''Model'' else ''Type'', ''Input Tokens'', ''Output Tokens'']
                          (map usage_row (js_sort by_tokens activeData))
                 else ModelCostsTable priced activeData False (if activeTab = 1 then ''Type'' else ''Model'')])"

text \<open>
  The token tabs sort the array they are given in place, and that array is the state of the page: what
  rendering a tab leaves behind.
\<close>

definition usage_after_render ::
    "bool \<Rightarrow> CostData list \<times> CostData list \<Rightarrow> nat \<Rightarrow> CostData list \<times> CostData list" where
  "usage_after_render loading d activeTab =
     (if loading \<or> \<not> showTokensOnly activeTab then d
      else if isTypeTab activeTab then (fst d, js_sort by_tokens (snd d))
      else (js_sort by_tokens (fst d), snd d))"

section \<open>Latency and errors\<close>

definition line :: "string \<Rightarrow> string \<Rightarrow> 'm view" where
  "line key label = Elem ''Line'' [(''dataKey'', pstr key), (''name'', pstr label)] [] []"

definition axis_tick :: "runtime \<Rightarrow> int \<Rightarrow> 'm view" where
  "axis_tick rt t = Elem ''tick'' [] [] [Text (formatTraceTimeTick rt t (js ''1d''))]"

definition LatencyPercentileChart :: "runtime \<Rightarrow> LatencyPercentileData list \<Rightarrow> bool \<Rightarrow> 'm view" where
  "LatencyPercentileChart rt data loading =
     (if loading \<and> data = [] then LoadingState 1 False
      else if data = [] then nothing_yet ''No latency data'' ''Latency percentiles will appear once traces are ingested''
      else box
        [box [inline [tx ''p50''], inline [tx ''p95''], inline [tx ''p99'']],
         Elem ''LineChart'' [] []
           (map (\<lambda>d. datum [(''time'', PNum (num_of_int (lp_time d))), (''p50_ms'', PNum (lp_p50 d)),
               (''p95_ms'', PNum (lp_p95 d)), (''p99_ms'', PNum (lp_p99 d))]) data @
            [Elem ''XAxis'' [(''dataKey'', pstr ''time'')] [] (map (\<lambda>d. axis_tick rt (lp_time d)) data),
             line ''p50_ms'' ''p50'', line ''p95_ms'' ''p95'', line ''p99_ms'' ''p99''])])"

definition ms_tick :: "jsnum \<Rightarrow> jsstring" where
  "ms_tick n = num_to_string (num_round n) @ js ''ms''"

definition percent_tick :: "jsnum \<Rightarrow> jsstring" where
  "percent_tick n = num_to_string (num_round n) @ js ''%''"

definition error_points :: "ErrorRateData list \<Rightarrow> (int \<times> jsnum) list" where
  "error_points data =
     filter (\<lambda>(t, _). 0 < t)
       (map (\<lambda>d. (er_time d,
          if num_lt (Fin 0) (er_total d) then num_mul (num_div (er_errors d) (er_total d)) (Fin 100) else Fin 0)) data)"

definition ErrorRateChart :: "runtime \<Rightarrow> ErrorRateData list \<Rightarrow> bool \<Rightarrow> 'm view" where
  "ErrorRateChart rt data loading =
     (if loading \<and> data = [] then LoadingState 1 False
      else if data = [] then nothing_yet ''No error data'' ''Error rate will appear once traces are ingested''
      else Elem ''LineChart'' [] []
        (map (\<lambda>(t, r). datum [(''time'', PNum (num_of_int t)), (''errorRate'', PNum r)]) (error_points data) @
         [Elem ''XAxis'' [(''dataKey'', pstr ''time'')] [] (map (\<lambda>(t, _). axis_tick rt t) (error_points data)),
          line ''errorRate'' ''Error Rate'']))"

section \<open>The page\<close>

text \<open>The messages of the page: those of \<open>dash_msg\<close>, and the tabs of the usage widget.\<close>

datatype page_msg = Page dash_msg | UsageTab nat

definition window_label :: "runtime \<Rightarrow> int \<Rightarrow> dashboard \<Rightarrow> jsstring" where
  "window_label rt now d =
     (case timeRange d of
        Some p \<Rightarrow>
          (case map_of (map (\<lambda>(k, l). (js k, js l)) DASHBOARD_RANGE_LABELS) p of
             Some l \<Rightarrow> l
           | None \<Rightarrow> if is_inherited p then [] else timeRangeLabel rt now (tw_from (d_window d)))
      | None \<Rightarrow> timeRangeLabel rt now (tw_from (d_window d)))"

definition date_input :: "jsstring \<Rightarrow> (jsstring \<Rightarrow> 'm) \<Rightarrow> 'm view" where
  "date_input v f = Elem ''input'' [(''type'', pstr ''datetime-local''), (''value'', PStr v)] [OnChange (\<lambda>s. Some (f s))] []"

definition DashboardPage :: "runtime \<Rightarrow> int \<Rightarrow> json \<Rightarrow> nat \<Rightarrow> dashboard \<Rightarrow> page_msg view" where
  "DashboardPage rt now priced activeTab d =
     box
       ([box [box [Elem ''h1'' [] [] [tx ''Dashboard''], para [Text (window_label rt now d)]],
              box [box [Elem ''label'' [] [] [tx ''From:''],
                        date_input (toLocalInputValue rt (tw_from (d_window d))) (Page \<circ> SetFrom)],
                   box [Elem ''label'' [] [] [tx ''To:''],
                        date_input (toLocalInputValue rt (tw_to (d_window d))) (Page \<circ> SetTo)],
                   button_with [(''disabled'', PBool (d_loading d))] (Page Refresh)
                     [if d_loading d then inline [tx ''Loading...''] else tx ''Refresh'']]]] @
        (case d_error d of
           Some m \<Rightarrow> shown (m \<noteq> []) [ErrorBanner m (Some (Page DismissError)) (Some (Page Refresh)) (js ''Retry'')]
         | None \<Rightarrow> []) @
        [KPITiles (kpiData d) (d_loading d),
         box [Card ''Latency Percentiles'' (LatencyPercentileChart rt (latencyData d) (d_loading d)) (Some (js ''ms'')),
              Card ''Error Rate'' (ErrorRateChart rt (errorRateData d) (d_loading d)) (Some (js ''% errors''))],
         box [Card ''Traces by Model'' (TracesByNameChart (tracesByName d) (d_loading d)) (Some (js ''count'')),
              Card ''Eval Scores'' (ScoresWidget (d_loading d)) (Some (js ''score (0'' @ en_dash @ js ''1)'')),
              Card ''Traces over Time''
                (TracesByTimeChart rt (tracesByTime d) (d_loading d) (d_window d) (timeRange d)) (Some (js ''count/hour'')),
              Card ''Token Usage''
                (map_view UsageTab
                  (ModelUsageWidget priced (d_loading d) (tokenUsageData d) (kindUsageData d) activeTab))
                (Some (js ''input + output tokens'')),
              Card ''User Consumption'' (UserConsumptionChart (userConsumption d) (d_loading d))
                (Some (js ''traces per service''))]])"

section \<open>Properties\<close>

lemma interval_positive: "0 < interval_of p"
  by (simp add: interval_of_def)

abbreviation spread :: "int \<Rightarrow> int \<Rightarrow> int \<Rightarrow> bool" where
  "spread iv a b \<equiv> iv \<le> 2 * (b - a) \<and> 2 * (b - a) \<le> 3 * iv"

lemma tick_loop_stop: "\<not> (0 < iv \<and> 2 * c < 2 * t - iv) \<Longrightarrow> tick_loop iv t c = []"
  by (subst tick_loop.simps) simp

lemma tick_loop_go:
  "0 < iv \<Longrightarrow> 2 * c < 2 * t - iv \<Longrightarrow> tick_loop iv t c = c # tick_loop iv t (c + iv)"
  by (subst tick_loop.simps) simp

lemma tick_loop_hd: "0 < iv \<Longrightarrow> hd (tick_loop iv t c @ [t]) = (if 2 * c < 2 * t - iv then c else t)"
  by (simp add: tick_loop_stop tick_loop_go)

lemma tick_loop_range: "x \<in> set (tick_loop iv t c) \<Longrightarrow> c \<le> x \<and> x \<le> t"
proof (induction iv t c rule: tick_loop.induct)
  case (1 iv t c)
  show ?case
  proof (cases "0 < iv \<and> 2 * c < 2 * t - iv")
    case True
    then have "x = c \<or> x \<in> set (tick_loop iv t (c + iv))" using 1(2) by (simp add: tick_loop_go)
    then show ?thesis using 1(1) True by auto
  qed (use 1(2) in \<open>simp add: tick_loop_stop\<close>)
qed

lemma tick_loop_gaps: "successively (spread iv) (tick_loop iv t c @ [t])"
proof (induction iv t c rule: tick_loop.induct)
  case (1 iv t c)
  show ?case
  proof (cases "0 < iv \<and> 2 * c < 2 * t - iv")
    case True
    have h: "spread iv c (hd (tick_loop iv t (c + iv) @ [t]))"
      using True by (simp add: tick_loop_hd)
    have "successively (spread iv) (tick_loop iv t (c + iv) @ [t])" using 1 True by simp
    then have "successively (spread iv) (c # (tick_loop iv t (c + iv) @ [t]))"
      using h by (simp add: successively_Cons)
    with True show ?thesis by (simp add: tick_loop_go)
  qed (simp add: tick_loop_stop)
qed

text \<open>
  C12: the ticks of the time axis stay inside the window and are spread out: they end with the end of the
  window, start with its start (unless the window is at most half an interval long), and neighbours are
  at least half an interval and at most one and a half intervals apart. In particular the loop that
  makes them ends.
\<close>

theorem chart_ticks_spread:
  assumes "f \<le> t"
  shows "\<exists>xs. chart_ticks (interval_of p) (Some f) (Some t) = map Some xs \<and> last xs = t \<and>
    (\<forall>x\<in>set xs. f \<le> x \<and> x \<le> t) \<and>
    hd xs = (if interval_of p < 2 * (t - f) then f else t) \<and>
    successively (spread (interval_of p)) xs"
proof -
  let ?xs = "tick_loop (interval_of p) t f @ [t]"
  have "\<forall>x\<in>set ?xs. f \<le> x \<and> x \<le> t" using tick_loop_range assms by auto
  moreover have "hd ?xs = (if interval_of p < 2 * (t - f) then f else t)"
    by (simp add: tick_loop_hd interval_positive)
  ultimately show ?thesis
    using tick_loop_gaps by (intro exI [of _ ?xs]) (simp add: chart_ticks_def)
qed

lemma chart_ticks_spread_witness:
  "\<exists>xs. chart_ticks (interval_of (js ''1h'')) (Some 0) (Some 3600000) = map Some xs \<and> hd xs = 0 \<and> last xs = 3600000"
  using chart_ticks_spread [of 0 3600000 "js ''1h''"] by (auto simp: interval_of_def)

lemma closest_from_min:
  "\<exists>ms. closest_from d ps (Some m) best = k \<longrightarrow>
     (k = best \<and> (\<forall>x\<in>set ps. m \<le> \<bar>d - snd x\<bar>)) \<or>
     ((k, ms) \<in> set ps \<and> \<bar>d - ms\<bar> < m \<and> (\<forall>x\<in>set ps. \<bar>d - ms\<bar> \<le> \<bar>d - snd x\<bar>))"
proof (induction ps arbitrary: m best)
  case (Cons x ps)
  obtain k' ms' where x: "x = (k', ms')" by (cases x)
  show ?case
  proof (cases "\<bar>d - ms'\<bar> < m")
    case True
    obtain ms where IH: "closest_from d ps (Some \<bar>d - ms'\<bar>) k' = k \<longrightarrow>
        (k = k' \<and> (\<forall>x\<in>set ps. \<bar>d - ms'\<bar> \<le> \<bar>d - snd x\<bar>)) \<or>
        ((k, ms) \<in> set ps \<and> \<bar>d - ms\<bar> < \<bar>d - ms'\<bar> \<and> (\<forall>x\<in>set ps. \<bar>d - ms\<bar> \<le> \<bar>d - snd x\<bar>))"
      using Cons.IH by blast
    show ?thesis
    proof (cases "k = k' \<and> (\<forall>x\<in>set ps. \<bar>d - ms'\<bar> \<le> \<bar>d - snd x\<bar>)")
      case True2: True
      then show ?thesis using True by (intro exI [of _ ms']) (auto simp: x)
    next
      case False
      then show ?thesis using IH True by (intro exI [of _ ms]) (auto simp: x)
    qed
  next
    case False
    obtain ms where "closest_from d ps (Some m) best = k \<longrightarrow>
        (k = best \<and> (\<forall>x\<in>set ps. m \<le> \<bar>d - snd x\<bar>)) \<or>
        ((k, ms) \<in> set ps \<and> \<bar>d - ms\<bar> < m \<and> (\<forall>x\<in>set ps. \<bar>d - ms\<bar> \<le> \<bar>d - snd x\<bar>))"
      using Cons.IH by blast
    then show ?thesis using False by (intro exI [of _ ms]) (auto simp: x)
  qed
qed simp

text \<open>
  A window that no preset describes gets the tick interval of the preset whose length is nearest to
  its own, whatever the window: no other preset is closer.
\<close>

theorem chart_preset_nearest:
  "\<exists>ms. (closest_preset (Some d), ms) \<in> set chart_presets \<and> (\<forall>x\<in>set chart_presets. \<bar>d - ms\<bar> \<le> \<bar>d - snd x\<bar>)"
proof -
  obtain k ms0 ps where ps: "chart_presets = (k, ms0) # ps" by (simp add: chart_presets_def)
  define b where "b = closest_from d ps (Some \<bar>d - ms0\<bar>) k"
  have c: "closest_preset (Some d) = b" by (simp add: closest_preset_def ps b_def)
  obtain ms where m: "(b = k \<and> (\<forall>x\<in>set ps. \<bar>d - ms0\<bar> \<le> \<bar>d - snd x\<bar>)) \<or>
      ((b, ms) \<in> set ps \<and> \<bar>d - ms\<bar> < \<bar>d - ms0\<bar> \<and> (\<forall>x\<in>set ps. \<bar>d - ms\<bar> \<le> \<bar>d - snd x\<bar>))"
    using closest_from_min [of d ps "\<bar>d - ms0\<bar>" k b] b_def by blast
  from m show ?thesis
  proof
    assume "b = k \<and> (\<forall>x\<in>set ps. \<bar>d - ms0\<bar> \<le> \<bar>d - snd x\<bar>)"
    then show ?thesis unfolding c ps by (intro exI [of _ ms0]) auto
  next
    assume "(b, ms) \<in> set ps \<and> \<bar>d - ms\<bar> < \<bar>d - ms0\<bar> \<and> (\<forall>x\<in>set ps. \<bar>d - ms\<bar> \<le> \<bar>d - snd x\<bar>)"
    then show ?thesis unfolding c ps by (intro exI [of _ ms]) auto
  qed
qed

lemma chart_preset_nearest_witness:
  "\<exists>ms. (closest_preset (Some 5400000), ms) \<in> set chart_presets \<and> \<bar>5400000 - ms\<bar> \<le> 1800000"
  using chart_preset_nearest [of 5400000] by (force simp: chart_presets_def)

end
