(* ===== verification/EvalRules.thy ===== *)
theory EvalRules
  imports FilterGroup Formatters Ui
begin

text \<open>
  \<open>ui/src/pages/EvalRules.tsx\<close>, the data: rules, prompts and previews as the service sends them, the form
  for a new rule and what is made of it. The page itself is in \<open>EvalRulesPage\<close>.
\<close>

section \<open>What the service sends\<close>

record PreviewSpan =
  ps_span_id :: jsstring
  ps_trace_id :: jsstring
  ps_name :: jsstring
  ps_kind :: jsstring
  ps_model :: jsstring
  ps_start_time :: jsstring
  ps_cost_usd :: jsnum

text \<open>
  The page declares \<open>spans\<close> an array. The service encodes an empty list as \<open>null\<close>
  (\<open>services/query/internal/handler/eval_rule.go\<close>, the variable \<open>matched\<close>), so it is an option here.
\<close>

record PreviewResult =
  pr_spans :: "PreviewSpan list option"
  pr_match_count_24h :: jsnum

record EvalRule =
  rule_id :: jsstring
  rule_project :: jsstring
  rule_name :: jsstring
  rule_judge_model :: "jsstring option"
  rule_prompt_name :: jsstring
  rule_prompt_version :: int
  rule_sample_rate :: "jsnum option"
  rule_enabled :: bool
  rule_created_at :: jsstring
  rule_filter :: "EvalFilter option"

record PromptVersionInfo =
  pv_version :: int
  pv_template :: jsstring
  pv_model :: jsstring

record PromptListItem =
  pi_name :: jsstring
  pi_latest_version :: int
  pi_labels :: "(jsstring \<times> int) list"

record CreateEvalRuleRequest =
  cr_name :: jsstring
  cr_judge_model :: jsstring
  cr_prompt_name :: jsstring
  cr_prompt_version :: int
  cr_prompt_label :: "jsstring option"
  cr_sample_rate :: jsnum
  cr_enabled :: bool
  cr_filter :: EvalFilter

text \<open>
  What a request comes to for the page: an exception with its message, if it is an \<open>Error\<close>; an answer
  outside 2xx with its text; or the body, of the declared type.
\<close>

datatype 'a reply = Threw "jsstring option" | NotOk jsstring | Ok 'a

text \<open>\<open>e instanceof Error ? e.message : "Unknown error"\<close>, and \<open>bodyText || fallback\<close>.\<close>

definition thrown_text :: "jsstring option \<Rightarrow> jsstring" where
  "thrown_text m = (case m of Some s \<Rightarrow> s | None \<Rightarrow> js ''Unknown error'')"

text \<open>\<open>{message && ...}\<close> of a message that may be \<open>null\<close>.\<close>

definition truthy_text :: "jsstring option \<Rightarrow> jsstring option" where
  "truthy_text m = (if m = Some [] then None else m)"

definition text_or :: "string \<Rightarrow> jsstring \<Rightarrow> jsstring" where
  "text_or d s = (if s \<noteq> [] then s else js d)"

section \<open>The form\<close>

definition LABELS :: "string list" where "LABELS = [''production'', ''staging'', ''dev'']"

record NewRuleFormState =
  ruleName :: jsstring
  judgeModel :: jsstring
  promptName :: jsstring
  promptVersion :: int
  promptLabel :: jsstring
  sampleRate :: jsnum
  form_filter :: EvalFilter

definition defaultFormState :: NewRuleFormState where
  "defaultFormState =
     \<lparr>ruleName = [], judgeModel = js ''gpt-4'', promptName = [], promptVersion = 1, promptLabel = [],
      sampleRate = Fin 100, form_filter = createEmptyFilter\<rparr>"

text \<open>The input's new text for the sample rate.\<close>

definition sample_rate_of :: "jsstring \<Rightarrow> jsnum" where
  "sample_rate_of v =
     (let n = parse_int v in num_min (Fin 100) (num_max (Fin 0) (if num_truthy n then n else Fin 0)))"

text \<open>
  The selected version, \<open>parseInt(v) || 1\<close>; the values of the options are whole numbers, so infinities do
  not occur.
\<close>

definition version_of :: "jsstring \<Rightarrow> int" where
  "version_of v = (case parse_int v of Fin x \<Rightarrow> if x = 0 then 1 else rat_trunc x | _ \<Rightarrow> 1)"

definition find_prompt :: "PromptListItem list \<Rightarrow> jsstring \<Rightarrow> PromptListItem option" where
  "find_prompt ps n = List.find (\<lambda>p. pi_name p = n) ps"

definition select_prompt :: "PromptListItem list \<Rightarrow> jsstring \<Rightarrow> NewRuleFormState \<Rightarrow> NewRuleFormState" where
  "select_prompt ps name f =
     (let f' = f\<lparr>promptName := name, promptVersion := 1, promptLabel := []\<rparr>
      in if name \<noteq> []
         then (case find_prompt ps name of
                 Some p \<Rightarrow> f'\<lparr>promptVersion := pi_latest_version p\<rparr> | None \<Rightarrow> f')
         else f')"

text \<open>\<open>prompt.labels[label]\<close> is used when it is truthy.\<close>

definition select_label :: "PromptListItem list \<Rightarrow> jsstring \<Rightarrow> NewRuleFormState \<Rightarrow> NewRuleFormState" where
  "select_label ps label f =
     (let f' = f\<lparr>promptLabel := label, promptVersion := 1\<rparr>
      in if label \<noteq> [] \<and> promptName f \<noteq> []
         then (case find_prompt ps (promptName f) of
                 Some p \<Rightarrow> (case map_of (pi_labels p) label of
                             Some v \<Rightarrow> if v \<noteq> 0 then f'\<lparr>promptVersion := v\<rparr> else f'
                           | None \<Rightarrow> f')
               | None \<Rightarrow> f')
         else if label = []
         then (case find_prompt ps (promptName f) of
                 Some p \<Rightarrow> f'\<lparr>promptVersion := pi_latest_version p\<rparr> | None \<Rightarrow> f')
         else f')"

text \<open>The errors of a form, in the order they are found.\<close>

definition name_errors :: "NewRuleFormState \<Rightarrow> (string \<times> jsstring) list" where
  "name_errors f =
     (if trim (ruleName f) = [] then [(''ruleName'', js ''Rule name is required'')]
      else if 128 < length (ruleName f) then [(''ruleName'', js ''Name must be 128 characters or fewer'')]
      else [])"

definition judge_errors :: "NewRuleFormState \<Rightarrow> (string \<times> jsstring) list" where
  "judge_errors f =
     (if trim (judgeModel f) = [] then [(''judgeModel'', js ''Judge model is required'')]
      else if 64 < length (judgeModel f)
      then [(''judgeModel'', js ''Model name must be 64 characters or fewer'')]
      else [])"

definition form_errors :: "PromptListItem list \<Rightarrow> NewRuleFormState \<Rightarrow> (string \<times> jsstring) list" where
  "form_errors ps f =
     name_errors f @ judge_errors f @
     (if num_lt (sampleRate f) (Fin 0) \<or> num_lt (Fin 100) (sampleRate f)
      then [(''sampleRate'', js ''Sample rate must be between 0 and 100'')] else []) @
     (if promptName f \<noteq> [] \<and> find_prompt ps (promptName f) = None
      then [(''promptName'', js ''Selected prompt does not exist in the registry'')] else [])"

section \<open>Filters in requests\<close>

text \<open>
  The editor keeps the numeric fields as the text of their inputs. In a request they are numbers, except
  when empty.
\<close>

definition numeric_field :: "jsstring \<Rightarrow> jsstring \<Rightarrow> jsnum" where
  "numeric_field k s =
     (if k = js ''min_cost_usd'' \<or> k = js ''max_cost_usd'' then parse_float s else parse_int s)"

definition numeric_keys :: "jsstring list" where
  "numeric_keys = [js ''min_cost_usd'', js ''max_cost_usd'', js ''min_duration_ms'', js ''max_duration_ms'']"

definition normalize_field :: "jsstring \<times> json \<Rightarrow> jsstring \<times> json" where
  "normalize_field kv =
     (case kv of
        (k, JStr s) \<Rightarrow> if k \<in> set numeric_keys \<and> s \<noteq> [] then (k, JNum (numeric_field k s)) else kv
      | _ \<Rightarrow> kv)"

primrec normalizeFilter :: "EvalFilter \<Rightarrow> EvalFilter" where
  "normalizeFilter (EvalFilter m as os n) =
     EvalFilter (map normalize_field m) (map_group normalizeFilter as) (map_group normalizeFilter os)
       (map_option normalizeFilter n)"

text \<open>\<open>Object.keys(filter).length > 0\<close>; a key can be present with \<open>undefined\<close>.\<close>

definition has_keys :: "EvalFilter \<Rightarrow> bool" where
  "has_keys f \<longleftrightarrow> EvalFilter.fields f \<noteq> [] \<or> and_of f \<noteq> NoKey \<or> or_of f \<noteq> NoKey \<or> not_of f \<noteq> None"

definition create_body :: "NewRuleFormState \<Rightarrow> CreateEvalRuleRequest" where
  "create_body f =
     \<lparr>cr_name = trim (ruleName f), cr_judge_model = trim (judgeModel f), cr_prompt_name = trim (promptName f),
      cr_prompt_version = promptVersion f,
      cr_prompt_label = (if promptLabel f \<noteq> [] then Some (promptLabel f) else None),
      cr_sample_rate = num_div (sampleRate f) (Fin 100), cr_enabled = True,
      cr_filter = normalizeFilter (form_filter f)\<rparr>"

section \<open>Rules on the page\<close>

definition sampleRatePercent :: "jsnum option \<Rightarrow> jsstring" where
  "sampleRatePercent rate =
     (case rate of
        Some (Fin x) \<Rightarrow> num_to_string (num_round (num_mul (Fin x) (Fin 100))) @ js ''%''
      | _ \<Rightarrow> js ''N/A'')"

definition truthy_part :: "attrs \<Rightarrow> string \<Rightarrow> string \<Rightarrow> (js_error, jsstring) result list" where
  "truthy_part m k label =
     (case map_of m (js k) of
        Some v \<Rightarrow> if truthy v then [and_then (to_text v) (\<lambda>s. Inr (js label @ js ''='' @ s))] else []
      | None \<Rightarrow> [])"

definition number_part :: "attrs \<Rightarrow> string \<Rightarrow> string \<Rightarrow> string \<Rightarrow> (js_error, jsstring) result list" where
  "number_part m k label unit_text =
     (case map_of m (js k) of
        Some v \<Rightarrow> if v = JNull then []
                  else [and_then (to_text v) (\<lambda>s. Inr (js label @ s @ js unit_text))]
      | None \<Rightarrow> [])"

text \<open>\<open>attributes_match\<close> is declared an array.\<close>

definition attrs_part :: "attrs \<Rightarrow> (js_error, jsstring) result list" where
  "attrs_part m =
     (case map_of m (js ''attributes_match'') of
        Some (JArr xs) \<Rightarrow> if xs \<noteq> [] then [Inr (js ''attrs='' @ dec_nat (length xs))] else []
      | _ \<Rightarrow> [])"

definition leaf_text :: "attrs \<Rightarrow> (js_error, jsstring) result" where
  "leaf_text m =
     and_then (map_result id
       (truthy_part m ''kind'' ''kind'' @ truthy_part m ''model'' ''model'' @
        truthy_part m ''service_name'' ''service'' @ truthy_part m ''status_code'' ''status'' @
        number_part m ''min_cost_usd'' ''min_cost=$'' [] @ number_part m ''max_cost_usd'' ''max_cost=$'' [] @
        number_part m ''min_duration_ms'' ''min_dur='' ''ms'' @
        number_part m ''max_duration_ms'' ''max_dur='' ''ms'' @ attrs_part m))
     (\<lambda>parts. Inr (text_or ''no filter'' (join (js '', '') parts)))"

definition parens :: "jsstring \<Rightarrow> jsstring" where
  "parens s = js ''('' @ s @ js '')''"

fun filter_text :: "EvalFilter \<Rightarrow> (js_error, jsstring) result" where
  "filter_text (EvalFilter m as os n) =
     (case as of
        Subs fs \<Rightarrow> and_then (map_result filter_text fs) (\<lambda>ts. Inr (parens (join (js '' AND '') ts)))
      | _ \<Rightarrow>
          (case os of
             Subs fs \<Rightarrow> and_then (map_result filter_text fs) (\<lambda>ts. Inr (parens (join (js '' OR '') ts)))
           | _ \<Rightarrow>
               (case n of
                  Some g \<Rightarrow> and_then (filter_text g) (\<lambda>t. Inr (parens (js ''NOT '' @ t)))
                | None \<Rightarrow> leaf_text m)))"

definition filterDisplayText :: "EvalFilter option \<Rightarrow> (js_error, jsstring) result" where
  "filterDisplayText f = (case f of None \<Rightarrow> Inr (js ''no filter'') | Some g \<Rightarrow> filter_text g)"

section \<open>Lemmas on the form\<close>

lemma sample_rate_range: "\<exists>x. sample_rate_of v = Fin x \<and> x \<in> \<int> \<and> 0 \<le> x \<and> x \<le> 100"
proof -
  consider x where "parse_int v = Fin x" "x \<in> \<int>" | "parse_int v \<in> {PosInf, NegInf, NaN}"
    using parse_int_whole [of v] by (cases "parse_int v") auto
  then show ?thesis
    by cases (auto simp: sample_rate_of_def Let_def num_min_def num_max_def num_truthy_def)
qed

lemma percent_fraction:
  assumes "0 \<le> x" "x \<le> 100"
  shows "\<exists>y. num_div (Fin x) (Fin 100) = Fin y \<and> 0 \<le> y \<and> y \<le> 1"
proof -
  define q where "q = x / 100"
  have q: "0 \<le> q" "q \<le> 1" using assms by (simp_all add: q_def)
  have m: "0 \<le> round_mag q" "round_mag q \<le> 1"
    using round_mag_nonneg [OF q(1)] round_mag_mono [OF q] round_mag_int [of 1] by simp_all
  have "round_mag q < 2 ^ 1024" using m(2) by (rule order_le_less_trans) simp
  with m q show ?thesis by (auto simp: q_def to_double_def Let_def)
qed

lemma form_errors_Nil:
  "form_errors ps f = [] \<longleftrightarrow>
     trim (ruleName f) \<noteq> [] \<and> length (ruleName f) \<le> 128 \<and>
     trim (judgeModel f) \<noteq> [] \<and> length (judgeModel f) \<le> 64 \<and>
     \<not> num_lt (sampleRate f) (Fin 0) \<and> \<not> num_lt (Fin 100) (sampleRate f) \<and>
     (promptName f = [] \<or> find_prompt ps (promptName f) \<noteq> None)"
  by (auto simp: form_errors_def name_errors_def judge_errors_def)

lemma normalize_field_key [simp]: "fst (normalize_field kv) = fst kv"
  by (auto simp: normalize_field_def split: prod.split json.split)

lemma normalize_field_twice [simp]: "normalize_field (normalize_field kv) = normalize_field kv"
  by (auto simp: normalize_field_def split: prod.split json.split)

text \<open>The nodes of a filter.\<close>

inductive node_of :: "EvalFilter \<Rightarrow> EvalFilter \<Rightarrow> bool" where
  node_self: "node_of f f"
| node_and: "g \<in> set (members (and_of f)) \<Longrightarrow> node_of h g \<Longrightarrow> node_of h f"
| node_or: "g \<in> set (members (or_of f)) \<Longrightarrow> node_of h g \<Longrightarrow> node_of h f"
| node_not: "not_of f = Some g \<Longrightarrow> node_of h g \<Longrightarrow> node_of h f"

definition shape_of :: "EvalFilter \<Rightarrow> jsstring list" where
  "shape_of f = map fst (EvalFilter.fields f)"

lemma members_map_group [simp]: "members (map_group h g) = map h (members g)"
  by (cases g) auto

lemma normalizeFilter_sel [simp]:
  "EvalFilter.fields (normalizeFilter f) = map normalize_field (EvalFilter.fields f)"
  "and_of (normalizeFilter f) = map_group normalizeFilter (and_of f)"
  "or_of (normalizeFilter f) = map_group normalizeFilter (or_of f)"
  "not_of (normalizeFilter f) = map_option normalizeFilter (not_of f)"
  by (cases f; simp)+

lemma node_normalized: "node_of h (normalizeFilter f) \<Longrightarrow> \<exists>g. node_of g f \<and> h = normalizeFilter g"
proof (induction h "normalizeFilter f" arbitrary: f rule: node_of.induct)
  case (node_and g h)
  then show ?case by (fastforce intro: node_of.node_and)
next
  case (node_or g h)
  then show ?case by (fastforce intro: node_of.node_or)
next
  case (node_not g h)
  then show ?case by (fastforce intro: node_of.node_not)
qed (auto intro: node_self)

lemma normalizeFilter_twice: "normalizeFilter (normalizeFilter f) = normalizeFilter f"
proof (induction f)
  case (EvalFilter m as os n)
  then have "map_group (normalizeFilter \<circ> normalizeFilter) as = map_group normalizeFilter as"
    "map_group (normalizeFilter \<circ> normalizeFilter) os = map_group normalizeFilter os"
    "map_option (normalizeFilter \<circ> normalizeFilter) n = map_option normalizeFilter n"
    by (auto intro!: group.map_cong0 option.map_cong0)
  then show ?case by (simp add: group.map_comp option.map_comp comp_def)
qed


text \<open>A maximum cost of 1.5 dollars below two levels of groups.\<close>

definition cost_leaf :: EvalFilter where
  "cost_leaf = EvalFilter [(js ''max_cost_usd'', JStr (js ''1.5''))] NoKey NoKey None"


end
