(* ===== verification/EvalRulesPage.thy ===== *)
theory EvalRulesPage
  imports EvalRules Toasts
begin

text \<open>
  \<open>ui/src/pages/EvalRules.tsx\<close>, the page: its state with the calls in flight, its handlers cut at their
  \<open>await\<close>, what it shows, and its runs.
\<close>

section \<open>State\<close>

text \<open>
  A call remembers what the code after its \<open>await\<close> reads from the closure it was made in: the creation of a
  rule the name it announces and the project whose rules it then fetches.
\<close>

datatype eval_call =
    RulesCall jsstring
  | PromptsCall jsstring
  | VersionsCall jsstring jsstring
  | PreviewCall EvalFilter
  | CreateCall jsstring CreateEvalRuleRequest
  | DeleteCall jsstring

fun call_url :: "eval_call \<Rightarrow> jsstring" where
  "call_url (RulesCall p) = js ''/api/v1/eval-rules?project_id='' @ p"
| "call_url (PromptsCall p) = js ''/api/v1/prompts?project_id='' @ p"
| "call_url (VersionsCall n p) = js ''/api/v1/prompts/'' @ n @ js ''/versions?project_id='' @ p"
| "call_url (PreviewCall f) = js ''/api/v1/eval-rules/preview''"
| "call_url (CreateCall p b) = js ''/api/v1/eval-rules''"
| "call_url (DeleteCall i) = js ''/api/v1/eval-rules/'' @ i"

text \<open>
  The two \<open>_effect\<close> fields hold the dependencies an effect last ran with. \<open>e_toasts\<close> are the toasts handed
  to the provider. \<open>e_filled\<close> is a ghost: the project whose answer filled the list.
\<close>

record eval_page =
  e_project :: jsstring
  e_rules :: "EvalRule list"
  e_loading :: bool
  e_error :: "jsstring option"
  showNewRuleForm :: bool
  createForm :: NewRuleFormState
  createError :: "jsstring option"
  formErrors :: "(string \<times> jsstring) list"
  previewLoading :: bool
  previewError :: "jsstring option"
  previewResult :: "PreviewResult option"
  showPreview :: bool
  promptList :: "PromptListItem list"
  promptVersions :: "(jsstring \<times> PromptVersionInfo list) list"
  promptLoading :: bool
  rules_effect :: "jsstring option"
  prompts_effect :: "(jsstring \<times> bool) option"
  e_calls :: "eval_call list"
  e_toasts :: "(ToastType \<times> jsstring) list"
  e_filled :: "jsstring option"

definition send :: "eval_call \<Rightarrow> eval_page \<Rightarrow> eval_page" where
  "send c s = s\<lparr>e_calls := e_calls s @ [c]\<rparr>"

definition post_toast :: "ToastType \<Rightarrow> jsstring \<Rightarrow> eval_page \<Rightarrow> eval_page" where
  "post_toast ty m s = s\<lparr>e_toasts := e_toasts s @ [(ty, m)]\<rparr>"

section \<open>Loading\<close>

text \<open>\<open>fetchRules\<close> reads the project of the closure it belongs to.\<close>

definition fetchRules :: "jsstring \<Rightarrow> eval_page \<Rightarrow> eval_page" where
  "fetchRules project s = send (RulesCall project) (s\<lparr>e_loading := True, e_error := None\<rparr>)"

text \<open>\<open>data.rules || []\<close>\<close>

definition rules_end :: "jsstring \<Rightarrow> EvalRule list option reply \<Rightarrow> eval_page \<Rightarrow> eval_page" where
  "rules_end project r s =
     (case r of
        Threw m \<Rightarrow> s\<lparr>e_error := Some (thrown_text m), e_loading := False\<rparr>
      | NotOk _ \<Rightarrow> s\<lparr>e_error := Some (js ''Failed to fetch eval rules''), e_loading := False\<rparr>
      | Ok rs \<Rightarrow> s\<lparr>e_rules := (case rs of Some xs \<Rightarrow> xs | None \<Rightarrow> []), e_loading := False,
                  e_filled := Some project\<rparr>)"

definition fetchPrompts :: "eval_page \<Rightarrow> eval_page" where
  "fetchPrompts s = send (PromptsCall (e_project s)) (s\<lparr>promptLoading := True\<rparr>)"

text \<open>The answer is used when it is an array.\<close>

definition prompts_end :: "PromptListItem list option reply \<Rightarrow> eval_page \<Rightarrow> eval_page" where
  "prompts_end r s =
     (case r of
        Ok ps \<Rightarrow> s\<lparr>promptList := (case ps of Some xs \<Rightarrow> xs | None \<Rightarrow> []), promptLoading := False\<rparr>
      | _ \<Rightarrow> s\<lparr>promptLoading := False\<rparr>)"

definition fetchPromptVersions :: "jsstring \<Rightarrow> eval_page \<Rightarrow> eval_page" where
  "fetchPromptVersions name s =
     (if name \<in> fst ` set (promptVersions s) then s else send (VersionsCall name (e_project s)) s)"

definition versions_end :: "jsstring \<Rightarrow> PromptVersionInfo list reply \<Rightarrow> eval_page \<Rightarrow> eval_page" where
  "versions_end name r s =
     (case r of Ok vs \<Rightarrow> s\<lparr>promptVersions := assoc_set name vs (promptVersions s)\<rparr> | _ \<Rightarrow> s)"

text \<open>The effects, in the order they are declared; each runs when its dependencies changed.\<close>

definition rules_effect_run :: "eval_page \<Rightarrow> eval_page" where
  "rules_effect_run s =
     (if rules_effect s = Some (e_project s) then s
      else fetchRules (e_project s) (s\<lparr>rules_effect := Some (e_project s)\<rparr>))"

definition prompts_effect_run :: "eval_page \<Rightarrow> eval_page" where
  "prompts_effect_run s =
     (let deps = (e_project s, showNewRuleForm s)
      in if prompts_effect s = Some deps then s
         else let s' = s\<lparr>prompts_effect := Some deps\<rparr>
              in if showNewRuleForm s then fetchPrompts s' else s')"

definition after_render :: "eval_page \<Rightarrow> eval_page" where
  "after_render s = prompts_effect_run (rules_effect_run s)"

section \<open>Handlers\<close>

definition handlePromptSelect :: "jsstring \<Rightarrow> eval_page \<Rightarrow> eval_page" where
  "handlePromptSelect name s =
     (let s' = s\<lparr>createForm := select_prompt (promptList s) name (createForm s)\<rparr>
      in if name \<noteq> [] then fetchPromptVersions name s' else s')"

definition handleLabelSelect :: "jsstring \<Rightarrow> eval_page \<Rightarrow> eval_page" where
  "handleLabelSelect label s = s\<lparr>createForm := select_label (promptList s) label (createForm s)\<rparr>"

definition resetCreateForm :: "eval_page \<Rightarrow> eval_page" where
  "resetCreateForm s =
     s\<lparr>createForm := defaultFormState, createError := None, showNewRuleForm := False, previewResult := None,
       previewLoading := False, previewError := None, showPreview := False\<rparr>"

text \<open>The button at the top of the page.\<close>

definition openNewRule :: "eval_page \<Rightarrow> eval_page" where
  "openNewRule s =
     s\<lparr>createForm := defaultFormState, showNewRuleForm := True, previewResult := None, previewError := None,
       formErrors := []\<rparr>"

definition handlePreview :: "eval_page \<Rightarrow> eval_page" where
  "handlePreview s =
     (let f = normalizeFilter (form_filter (createForm s))
      in if has_keys f
         then send (PreviewCall f) (s\<lparr>previewLoading := True, previewError := None, showPreview := True\<rparr>)
         else s\<lparr>showPreview := True,
                previewError := Some (js ''Add at least one filter condition to preview'')\<rparr>)"

definition preview_end :: "PreviewResult reply \<Rightarrow> eval_page \<Rightarrow> eval_page" where
  "preview_end r s =
     (case r of
        Threw m \<Rightarrow> s\<lparr>previewError := Some (thrown_text m), previewLoading := False\<rparr>
      | NotOk t \<Rightarrow> s\<lparr>previewError := Some (text_or ''Failed to preview'' t), previewLoading := False\<rparr>
      | Ok d \<Rightarrow> s\<lparr>previewResult := Some d, previewLoading := False\<rparr>)"

text \<open>The new form errors, and whether there are none.\<close>

definition validateForm :: "eval_page \<Rightarrow> eval_page \<times> bool" where
  "validateForm s =
     (let errors = form_errors (promptList s) (createForm s) in (s\<lparr>formErrors := errors\<rparr>, errors = []))"

definition handleCreate :: "eval_page \<Rightarrow> eval_page" where
  "handleCreate s =
     (let (s', ok) = validateForm (s\<lparr>createError := None\<rparr>)
      in if ok then send (CreateCall (e_project s) (create_body (createForm s))) s' else s')"

definition create_end :: "jsstring \<Rightarrow> CreateEvalRuleRequest \<Rightarrow> unit reply \<Rightarrow> eval_page \<Rightarrow> eval_page" where
  "create_end project b r s =
     (case r of
        Threw m \<Rightarrow> s\<lparr>createError := Some (thrown_text m)\<rparr>
      | NotOk t \<Rightarrow> s\<lparr>createError := Some (text_or ''Failed to create rule'' t)\<rparr>
      | Ok _ \<Rightarrow> fetchRules project (resetCreateForm
                 (post_toast Success (js ''Rule '' @ [0x22] @ cr_name b @ [0x22] @ js '' created'') s)))"

definition handleDelete :: "bool \<Rightarrow> jsstring \<Rightarrow> eval_page \<Rightarrow> eval_page" where
  "handleDelete confirmed i s = (if confirmed then send (DeleteCall i) s else s)"

definition delete_end :: "jsstring \<Rightarrow> unit reply \<Rightarrow> eval_page \<Rightarrow> eval_page" where
  "delete_end i r s =
     (case r of
        Threw m \<Rightarrow> s\<lparr>e_error := Some (thrown_text m)\<rparr>
      | NotOk t \<Rightarrow> s\<lparr>e_error := Some (text_or ''Failed to delete rule'' t)\<rparr>
      | Ok _ \<Rightarrow> (post_toast Success (js ''Rule deleted'') s)
                 \<lparr>e_rules := filter (\<lambda>r. rule_id r \<noteq> i) (e_rules s)\<rparr>)"

datatype eval_msg =
    NewRule | NewRuleEmpty | SetRuleName jsstring | SetJudgeModel jsstring | PromptSelect jsstring
  | LabelSelect jsstring | VersionSelect jsstring | SetSampleRate jsstring | SetFilter EvalFilter
  | Preview | TogglePreview | Create | Cancel | Delete jsstring

text \<open>An input clears the error of its field.\<close>

definition clear_error :: "string \<Rightarrow> eval_page \<Rightarrow> eval_page" where
  "clear_error k s = s\<lparr>formErrors := assoc_set k [] (formErrors s)\<rparr>"

fun handle :: "bool \<Rightarrow> eval_msg \<Rightarrow> eval_page \<Rightarrow> eval_page" where
  "handle confirmed NewRule s = openNewRule s"
| "handle confirmed NewRuleEmpty s = s\<lparr>showNewRuleForm := True\<rparr>"
| "handle confirmed (SetRuleName v) s =
     clear_error ''ruleName'' (s\<lparr>createForm := (createForm s)\<lparr>ruleName := v\<rparr>\<rparr>)"
| "handle confirmed (SetJudgeModel v) s =
     clear_error ''judgeModel'' (s\<lparr>createForm := (createForm s)\<lparr>judgeModel := v\<rparr>\<rparr>)"
| "handle confirmed (PromptSelect v) s = handlePromptSelect v s"
| "handle confirmed (LabelSelect v) s = handleLabelSelect v s"
| "handle confirmed (VersionSelect v) s = s\<lparr>createForm := (createForm s)\<lparr>promptVersion := version_of v\<rparr>\<rparr>"
| "handle confirmed (SetSampleRate v) s =
     clear_error ''sampleRate'' (s\<lparr>createForm := (createForm s)\<lparr>sampleRate := sample_rate_of v\<rparr>\<rparr>)"
| "handle confirmed (SetFilter f) s = s\<lparr>createForm := (createForm s)\<lparr>form_filter := f\<rparr>\<rparr>"
| "handle confirmed Preview s = handlePreview s"
| "handle confirmed TogglePreview s = s\<lparr>showPreview := \<not> showPreview s\<rparr>"
| "handle confirmed Create s = handleCreate s"
| "handle confirmed Cancel s = resetCreateForm s"
| "handle confirmed (Delete i) s = handleDelete confirmed i s"

definition mount_page :: "jsstring \<Rightarrow> eval_page" where
  "mount_page project = after_render
     \<lparr>e_project = project, e_rules = [], e_loading = True, e_error = None, showNewRuleForm = False,
      createForm = defaultFormState, createError = None, formErrors = [], previewLoading = False,
      previewError = None, previewResult = None, showPreview = False, promptList = [], promptVersions = [],
      promptLoading = False, rules_effect = None, prompts_effect = None, e_calls = [], e_toasts = [],
      e_filled = None\<rparr>"

section \<open>What is shown\<close>

definition StatusBadge :: "bool \<Rightarrow> 'm view" where
  "StatusBadge enabled = inline [tx (if enabled then ''Enabled'' else ''Disabled'')]"

definition FormField :: "string \<Rightarrow> 'm view list \<Rightarrow> 'm view" where
  "FormField label vs = box (Elem ''label'' [] [] [tx label] # vs)"

definition StyledInput :: "prop_value \<Rightarrow> (jsstring \<Rightarrow> 'm option) \<Rightarrow> (string \<times> prop_value) list \<Rightarrow> 'm view" where
  "StyledInput v onChange rest = Elem ''input'' ((''value'', v) # rest) [OnChange onChange] []"

definition StyledSelect ::
    "prop_value \<Rightarrow> (jsstring \<Rightarrow> 'm option) \<Rightarrow> (string \<times> prop_value) list \<Rightarrow> 'm view list \<Rightarrow> 'm view" where
  "StyledSelect v onChange rest opts = Elem ''select'' ((''value'', v) # rest) [OnChange onChange] opts"

text \<open>The variants of the button differ in their style.\<close>

definition FormActionButton :: "'m \<Rightarrow> 'm view list \<Rightarrow> 'm view" where
  "FormActionButton onClick vs = button onClick vs"

text \<open>The version is shown from the second one on; no judge model is a dash.\<close>

definition rule_details :: "EvalRule \<Rightarrow> jsstring \<Rightarrow> 'm view" where
  "rule_details r filter_label =
     box ([inline [tx ''Model: '', inline [Text (case rule_judge_model r of
             Some m \<Rightarrow> if m \<noteq> [] then m else em_dash | None \<Rightarrow> em_dash)]]] @
       shown (rule_prompt_name r \<noteq> [])
         [inline [tx ''Prompt: '', inline [Text (rule_prompt_name r),
            Text (if 1 < rule_prompt_version r then js '' v'' @ dec_int (rule_prompt_version r) else [])]]] @
       [inline [tx ''Sample: '', inline [Text (sampleRatePercent (rule_sample_rate r))]],
        inline [tx ''Filter: '', inline [Text (truncate_text (Some filter_label) 40)]]])"

definition RuleCard :: "runtime \<Rightarrow> int \<Rightarrow> EvalRule \<Rightarrow> (js_error, eval_msg view) result" where
  "RuleCard rt now r =
     and_then (filterDisplayText (rule_filter r)) (\<lambda>t. Inr
       (box [box [inline [Text (rule_name r)], StatusBadge (rule_enabled r)],
             rule_details r t,
             inline [Text (formatTime rt now (rule_created_at r))],
             button_with [(''title'', pstr ''Delete rule''),
                 (''aria-label'', PStr (js ''Delete rule: '' @ rule_name r))]
               (Delete (rule_id r)) []]))"

definition field_error :: "eval_page \<Rightarrow> string \<Rightarrow> 'm view list" where
  "field_error s k =
     (case map_of (formErrors s) k of Some e \<Rightarrow> shown (e \<noteq> []) [para [Text e]] | None \<Rightarrow> [])"

definition text_fields :: "eval_page \<Rightarrow> eval_msg view" where
  "text_fields s =
     box [FormField ''Rule Name''
            (StyledInput (PStr (ruleName (createForm s))) (\<lambda>v. Some (SetRuleName v))
               [(''type'', pstr ''text''), (''placeholder'', pstr ''e.g. Production LLM Eval'')] #
             field_error s ''ruleName''),
          FormField ''Judge Model''
            (StyledInput (PStr (judgeModel (createForm s))) (\<lambda>v. Some (SetJudgeModel v))
               [(''type'', pstr ''text''), (''placeholder'', pstr ''e.g. gpt-4'')] #
             field_error s ''judgeModel'')]"

definition prompt_option :: "PromptListItem \<Rightarrow> 'm view" where
  "prompt_option p =
     option_tag (pi_name p) (pi_name p @ js '' (v'' @ dec_int (pi_latest_version p) @ js '')'')"

definition prompt_select :: "eval_page \<Rightarrow> eval_msg view" where
  "prompt_select s =
     StyledSelect (PStr (promptName (createForm s))) (\<lambda>v. Some (PromptSelect v)) []
       (option_tag [] (em_dash @ js '' No prompt '' @ em_dash) #
        (if promptLoading s
         then [Elem ''option'' [(''value'', PStr []), (''disabled'', PBool True)] [] [tx ''Loading prompts...'']]
         else map prompt_option (promptList s)))"

definition label_field :: "eval_page \<Rightarrow> eval_msg view" where
  "label_field s =
     StyledSelect (PStr (promptLabel (createForm s))) (\<lambda>v. Some (LabelSelect v))
       [(''disabled'', PBool (promptName (createForm s) = []))]
       (option_tag [] (em_dash @ js '' Auto '' @ em_dash) #
        shown (promptName (createForm s) \<noteq> []) (map (\<lambda>l. option_tag (js l) (js l)) LABELS))"

text \<open>Every version up to the latest, and those the service listed, without repetition and in order.\<close>

definition version_choices :: "eval_page \<Rightarrow> int list" where
  "version_choices s =
     (let name = promptName (createForm s);
          versions = (case map_of (promptVersions s) name of Some vs \<Rightarrow> vs | None \<Rightarrow> []);
          allVersions = (case find_prompt (promptList s) name of
                           Some p \<Rightarrow> [1..pi_latest_version p] | None \<Rightarrow> [1])
      in sort (remdups (allVersions @ map pv_version versions)))"

definition version_option :: "int \<Rightarrow> 'm view" where
  "version_option v =
     Elem ''option'' [(''value'', PNum (num_of_int v))] [] [Text (js ''v'' @ dec_int v)]"

definition version_select :: "eval_page \<Rightarrow> eval_msg view" where
  "version_select s =
     StyledSelect (PNum (num_of_int (promptVersion (createForm s)))) (\<lambda>v. Some (VersionSelect v)) []
       (map version_option (version_choices s))"

definition prompt_fields :: "eval_page \<Rightarrow> eval_msg view" where
  "prompt_fields s =
     box [FormField ''Judge Prompt'' (prompt_select s # field_error s ''promptName''),
          FormField ''Prompt Label'' [label_field s],
          FormField ''Prompt Version'' [version_select s],
          FormField ''Sample Rate (%)''
            (StyledInput (PNum (sampleRate (createForm s))) (\<lambda>v. Some (SetSampleRate v))
               [(''type'', pstr ''number''), (''min'', PNum (Fin 0)), (''max'', PNum (Fin 100))] #
             field_error s ''sampleRate'')]"

section \<open>The preview\<close>

definition preview_row :: "runtime \<Rightarrow> PreviewSpan \<Rightarrow> 'm view" where
  "preview_row rt p =
     box [Elem ''span'' [(''title'', PStr (ps_name p))] [] [Text (ps_name p)],
          inline [tx ''model: '', inline [Text (ps_model p)]],
          inline [tx ''kind: '', inline [Text (ps_kind p)]],
          inline [tx ''cost: '', inline [Text (formatCost (Some (ps_cost_usd p)))]],
          Elem ''span'' [(''title'', PStr (ps_start_time p))] []
            [Text (rt_locale rt ToLocaleString [] (date_parse rt (ps_start_time p)))],
          inline [inline [tx ''trace: ''], Text (take 8 (ps_trace_id p)), tx ''...'']]"

text \<open>\<open>previewResult.spans.length\<close> throws when the list is \<open>null\<close>.\<close>

definition spans_of :: "PreviewResult \<Rightarrow> (js_error, PreviewSpan list) result" where
  "spans_of r = (case pr_spans r of Some ps \<Rightarrow> Inr ps | None \<Rightarrow> Inl (TypeError ''length''))"

definition preview_button :: "eval_page \<Rightarrow> eval_msg view" where
  "preview_button s =
     button_with [(''disabled'', PBool (previewLoading s))] Preview
       [tx (if previewLoading s then ''Previewing...'' else ''Preview Matching Spans'')]"

definition preview_counts :: "eval_page \<Rightarrow> (js_error, eval_msg view list) result" where
  "preview_counts s =
     (case previewResult s of
        None \<Rightarrow> Inr []
      | Some r \<Rightarrow> and_then (spans_of r) (\<lambda>ps. Inr
          [inline [Text (dec_nat (length ps)), tx '' matches in last hour '', Text [0xB7], tx '' '',
             Text (num_to_string (pr_match_count_24h r)), tx '' in last 24h'']]))"

definition preview_body :: "runtime \<Rightarrow> eval_page \<Rightarrow> (js_error, eval_msg view) result" where
  "preview_body rt s =
     (case truthy_text (previewError s) of
        Some e \<Rightarrow> Inr (box [Text e])
      | None \<Rightarrow>
          (case previewResult s of
             None \<Rightarrow> Inr (box [])
           | Some r \<Rightarrow> and_then (spans_of r) (\<lambda>ps. Inr
               (if ps = [] then box [tx ''No matching spans found.''] else box (map (preview_row rt) ps)))))"

definition preview_panel :: "runtime \<Rightarrow> eval_page \<Rightarrow> (js_error, eval_msg view list) result" where
  "preview_panel rt s =
     (if showPreview s
      then and_then (preview_body rt s) (\<lambda>v. Inr
        [box [button TogglePreview
                [inline [tx (if previewResult s \<noteq> None then ''Matching spans'' else ''Preview results'')]],
              box [v]]])
      else Inr [])"

section \<open>The form and the page\<close>

definition new_rule_form :: "runtime \<Rightarrow> eval_page \<Rightarrow> (js_error, eval_msg view) result" where
  "new_rule_form rt s =
     and_then (preview_counts s) (\<lambda>counts.
     and_then (preview_panel rt s) (\<lambda>panel. Inr
       (box ([Elem ''h3'' [] [] [tx ''New Eval Rule'']] @
             (case truthy_text (createError s) of Some e \<Rightarrow> [box [Text e]] | None \<Rightarrow> []) @
             [text_fields s, prompt_fields s,
              box [Elem ''h4'' [] [] [tx ''Filter Conditions''],
                   map_view SetFilter (FilterGroup 0 (form_filter (createForm s)))],
              box (preview_button s # counts)] @ panel @
             [box [FormActionButton Create [tx ''Create Rule''], FormActionButton Cancel [tx ''Cancel'']]]))))"

definition page_header :: "eval_page \<Rightarrow> eval_msg view" where
  "page_header s =
     box [box [Elem ''h1'' [] [] [tx ''Eval Rules''],
               para [Text (dec_nat (length (e_rules s))), tx '' rule'',
                     tx (if length (e_rules s) \<noteq> 1 then ''s'' else []), tx '' '', Text [0xB7], tx '' '',
                     Text (e_project s)]],
          button_with [(''data-testid'', pstr ''new-rule-button-empty'')] NewRule [tx ''+ New Rule'']]"

definition rule_list :: "runtime \<Rightarrow> int \<Rightarrow> eval_page \<Rightarrow> (js_error, eval_msg view) result" where
  "rule_list rt now s =
     (if e_rules s = []
      then Inr (EmptyState Default (Some (js ''No eval rules yet''))
        (Some (js ''Create your first eval rule to start evaluating traces''))
        (Some (js ''+ New Rule'')) (Some NewRuleEmpty))
      else and_then (map_result (RuleCard rt now) (e_rules s)) (\<lambda>vs. Inr (box vs)))"

definition EvalRulesPage :: "runtime \<Rightarrow> int \<Rightarrow> eval_page \<Rightarrow> (js_error, eval_msg view) result" where
  "EvalRulesPage rt now s =
     (if e_loading s then Inr (box [box [], para [tx ''Loading eval rules...'']])
      else case truthy_text (e_error s) of
        Some e \<Rightarrow> Inr (box [box [Text [0x26A0]], para [Text e]])
      | None \<Rightarrow>
          and_then (if showNewRuleForm s then and_then (new_rule_form rt s) (\<lambda>v. Inr [v]) else Inr [])
            (\<lambda>form. and_then (rule_list rt now s) (\<lambda>l. Inr (box (page_header s # form @ [l])))))"

section \<open>Runs\<close>

text \<open>
  The user acts on what is shown, so a render that throws ends the page's life. Any call in flight may be
  answered next.
\<close>

inductive eval_run :: "eval_page \<Rightarrow> bool" where
  eval_mount: "eval_run (mount_page project)"
| eval_user: "eval_run s \<Longrightarrow> EvalRulesPage rt now s = Inr v \<Longrightarrow> m \<in> emits v \<Longrightarrow>
    eval_run (after_render (handle confirmed m s))"
| eval_project: "eval_run s \<Longrightarrow> eval_run (after_render (s\<lparr>e_project := project\<rparr>))"
| eval_rules: "eval_run s \<Longrightarrow> e_calls s = xs @ RulesCall p # ys \<Longrightarrow>
    eval_run (after_render (rules_end p r (s\<lparr>e_calls := xs @ ys\<rparr>)))"
| eval_prompts: "eval_run s \<Longrightarrow> e_calls s = xs @ PromptsCall p # ys \<Longrightarrow>
    eval_run (after_render (prompts_end ps (s\<lparr>e_calls := xs @ ys\<rparr>)))"
| eval_versions: "eval_run s \<Longrightarrow> e_calls s = xs @ VersionsCall n p # ys \<Longrightarrow>
    eval_run (after_render (versions_end n vs (s\<lparr>e_calls := xs @ ys\<rparr>)))"
| eval_preview: "eval_run s \<Longrightarrow> e_calls s = xs @ PreviewCall f # ys \<Longrightarrow>
    eval_run (after_render (preview_end d (s\<lparr>e_calls := xs @ ys\<rparr>)))"
| eval_create: "eval_run s \<Longrightarrow> e_calls s = xs @ CreateCall p b # ys \<Longrightarrow>
    eval_run (after_render (create_end p b u (s\<lparr>e_calls := xs @ ys\<rparr>)))"
| eval_delete: "eval_run s \<Longrightarrow> e_calls s = xs @ DeleteCall i # ys \<Longrightarrow>
    eval_run (after_render (delete_end i u (s\<lparr>e_calls := xs @ ys\<rparr>)))"

section \<open>What the page can send\<close>

lemma emits_fields [simp]:
  "emits (StatusBadge b) = {}"
  "emits (FormField l vs) = emits_all vs"
  "emits (StyledInput w f ps) = (if map_of ps ''disabled'' = Some (PBool True) then {} else {m. \<exists>x. f x = Some m})"
  "emits_all (field_error s k) = {}"
  "emits (version_option n) = {}" "emits (prompt_option q) = {}" "emits (preview_row rt d) = {}"
  "emits (rule_details r x) = {}" "emits (FormActionButton msg vs) = insert msg (emits_all vs)"
  by (auto simp: FormActionButton_def StatusBadge_def FormField_def StyledInput_def field_error_def version_option_def
      prompt_option_def preview_row_def rule_details_def split: option.splits)

lemma emits_StyledSelect:
  "emits (StyledSelect w f ps opts) \<subseteq> {m. \<exists>x. f x = Some m} \<union> emits_all opts"
  by (auto simp: StyledSelect_def)

lemma emits_options [simp]: "emits_all (map version_option ns) = {}" "emits_all (map prompt_option qs) = {}"
  "emits_all (map (preview_row rt) ds) = {}"
  by (auto simp: emits_all_def)

definition form_msgs :: "eval_msg set" where
  "form_msgs = range SetRuleName \<union> range SetJudgeModel \<union> range PromptSelect \<union> range LabelSelect \<union>
     range VersionSelect \<union> range SetSampleRate \<union> {Preview, TogglePreview, Create, Cancel}"

lemma emits_text_fields: "emits (text_fields s) \<subseteq> form_msgs"
  by (auto simp: text_fields_def form_msgs_def)

lemma emits_prompt_fields: "emits (prompt_fields s) \<subseteq> form_msgs"
proof -
  have "emits (prompt_select s) \<subseteq> form_msgs"
    unfolding prompt_select_def
    by (rule order_trans [OF emits_StyledSelect]) (auto simp: form_msgs_def)
  moreover have "emits (label_field s) \<subseteq> form_msgs"
    unfolding label_field_def
    by (rule order_trans [OF emits_StyledSelect]) (auto simp: form_msgs_def)
  moreover have "emits (version_select s) \<subseteq> form_msgs"
    unfolding version_select_def
    by (rule order_trans [OF emits_StyledSelect]) (auto simp: form_msgs_def)
  ultimately show ?thesis by (auto simp: prompt_fields_def form_msgs_def)
qed

lemma preview_body_quiet: "preview_body rt s = Inr w \<Longrightarrow> emits w = {}"
  by (auto simp: preview_body_def and_then_Inr_iff split: option.splits if_splits)

lemma emits_preview_counts: "preview_counts s = Inr counts \<Longrightarrow> emits_all counts = {}"
  by (auto simp: preview_counts_def and_then_Inr_iff split: option.splits)

lemma emits_preview_panel: "preview_panel rt s = Inr panel \<Longrightarrow> emits_all panel \<subseteq> {TogglePreview}"
  by (auto simp: preview_panel_def and_then_Inr_iff dest: preview_body_quiet split: if_splits)

lemma emits_preview_button: "emits (preview_button s) \<subseteq> {Preview}"
  by (cases "previewLoading s") (auto simp: preview_button_def)

lemma emits_new_rule_form:
  assumes "new_rule_form rt s = Inr w"
  shows "emits w \<subseteq> form_msgs \<union> SetFilter ` emits (FilterGroup 0 (form_filter (createForm s)))"
proof -
  obtain counts panel where parts: "preview_counts s = Inr counts" "preview_panel rt s = Inr panel"
    using assms by (auto simp: new_rule_form_def and_then_Inr_iff)
  have "emits_all counts = {}" "emits_all panel \<subseteq> form_msgs" "emits (preview_button s) \<subseteq> form_msgs"
    "Create \<in> form_msgs" "Cancel \<in> form_msgs"
    using emits_preview_counts [OF parts(1)] emits_preview_panel [OF parts(2)] emits_preview_button [of s]
    by (auto simp: form_msgs_def)
  then show ?thesis
    using assms parts emits_text_fields [of s] emits_prompt_fields [of s]
    by (auto simp: new_rule_form_def emits_map_view split: option.splits)
qed

lemma emits_rule_list:
  assumes "rule_list rt now s = Inr w"
  shows "emits w \<subseteq> (if e_rules s = [] then {NewRuleEmpty} else Delete ` rule_id ` set (e_rules s))"
proof (cases "e_rules s = []")
  case False
  then obtain vs where vs: "map_result (RuleCard rt now) (e_rules s) = Inr vs" "w = box vs"
    using assms by (auto simp: rule_list_def and_then_Inr_iff)
  have "emits_all vs \<subseteq> Delete ` rule_id ` set rs" if "map_result (RuleCard rt now) rs = Inr vs" for rs
    using that
    by (induction rs arbitrary: vs) (auto simp: and_then_Inr_iff RuleCard_def)
  with vs False show ?thesis by simp
qed (use assms in \<open>auto simp: rule_list_def\<close>)

text \<open>
  What a page that is shown can send: nothing while it loads or shows an error, else the buttons of the
  list and, when the form is open, those of the form.
\<close>

lemma emits_page:
  assumes "EvalRulesPage rt now s = Inr w"
  shows "emits w \<subseteq>
    (if e_loading s \<or> truthy_text (e_error s) \<noteq> None then {}
     else {NewRule, NewRuleEmpty} \<union> range Delete \<union>
       (if showNewRuleForm s
        then form_msgs \<union> SetFilter ` emits (FilterGroup 0 (form_filter (createForm s))) else {}))"
proof (cases "e_loading s \<or> truthy_text (e_error s) \<noteq> None")
  case True
  then show ?thesis
    using assms by (cases "e_loading s"; cases "truthy_text (e_error s)") (auto simp: EvalRulesPage_def)
next
  case False
  then obtain form l where parts: "(if showNewRuleForm s then and_then (new_rule_form rt s) (\<lambda>v. Inr [v]) else Inr []) = Inr form"
      "rule_list rt now s = Inr l" "w = box (page_header s # form @ [l])"
    using assms by (auto simp: EvalRulesPage_def and_then_Inr_iff)
  have "emits (page_header s) = {NewRule}" by (simp add: page_header_def)
  moreover have "emits l \<subseteq> {NewRuleEmpty} \<union> range Delete"
    using emits_rule_list [OF parts(2)] by (auto split: if_splits)
  moreover have "emits_all form \<subseteq> (if showNewRuleForm s
        then form_msgs \<union> SetFilter ` emits (FilterGroup 0 (form_filter (createForm s))) else {})"
    using parts(1) by (auto simp: and_then_Inr_iff dest!: emits_new_rule_form split: if_splits)
  ultimately show ?thesis using False parts(3) by auto
qed

section \<open>Invariants\<close>

text \<open>Every spinner waits for a call.\<close>

definition spinners_ok :: "eval_page \<Rightarrow> bool" where
  "spinners_ok s \<longleftrightarrow>
     (e_loading s \<longrightarrow> (\<exists>p. RulesCall p \<in> set (e_calls s))) \<and>
     (promptLoading s \<longrightarrow> (\<exists>p. PromptsCall p \<in> set (e_calls s))) \<and>
     (previewLoading s \<longrightarrow> (\<exists>f. PreviewCall f \<in> set (e_calls s)))"

definition form_ok :: "NewRuleFormState \<Rightarrow> bool" where
  "form_ok f \<longleftrightarrow>
     (\<exists>x. sampleRate f = Fin x \<and> x \<in> \<int> \<and> 0 \<le> x \<and> x \<le> 100) \<and> canonical (form_filter f)"

definition body_ok :: "CreateEvalRuleRequest \<Rightarrow> bool" where
  "body_ok b \<longleftrightarrow>
     cr_name b \<noteq> [] \<and> length (cr_name b) \<le> 128 \<and> cr_judge_model b \<noteq> [] \<and> length (cr_judge_model b) \<le> 64 \<and>
     (\<exists>y. cr_sample_rate b = Fin y \<and> 0 \<le> y \<and> y \<le> 1) \<and>
     canonical (cr_filter b) \<and> normalizeFilter (cr_filter b) = cr_filter b"

definition calls_ok :: "eval_page \<Rightarrow> bool" where
  "calls_ok s \<longleftrightarrow>
     (\<forall>p b. CreateCall p b \<in> set (e_calls s) \<longrightarrow> body_ok b) \<and>
     (\<forall>f. PreviewCall f \<in> set (e_calls s) \<longrightarrow> has_keys f \<and> canonical f \<and> normalizeFilter f = f)"

definition eval_inv :: "eval_page \<Rightarrow> bool" where
  "eval_inv s \<longleftrightarrow> spinners_ok s \<and> form_ok (createForm s) \<and> calls_ok s"

lemmas eval_inv_defs = eval_inv_def spinners_ok_def calls_ok_def
lemmas loading_defs = fetchRules_def fetchPrompts_def fetchPromptVersions_def send_def

lemma canonical_normalize: "canonical f \<Longrightarrow> canonical (normalizeFilter f)"
proof (induction rule: canonical.induct)
  case (leaf m a b)
  have "map_group normalizeFilter a \<in> {NoKey, Undef}" "map_group normalizeFilter b \<in> {NoKey, Undef}"
    using leaf by auto
  moreover have "fst ` set (map normalize_field m) \<subseteq> set leaf_keys"
    using leaf by (auto simp: image_image)
  ultimately show ?case using leaf by (simp add: canonical.leaf)
qed (auto intro!: canonical.intros)

lemma select_prompt_ok [simp]: "form_ok (select_prompt ps v f) = form_ok f" "form_ok (select_label ps v f) = form_ok f"
  by (auto simp: select_prompt_def select_label_def form_ok_def Let_def split: option.splits)

lemma default_form_ok [simp]: "form_ok defaultFormState"
  by (simp add: form_ok_def defaultFormState_def canonical_empty)

lemma form_ok_update [simp]:
  "form_ok (f\<lparr>ruleName := v\<rparr>) = form_ok f" "form_ok (f\<lparr>judgeModel := v\<rparr>) = form_ok f"
  "form_ok (f\<lparr>promptVersion := n\<rparr>) = form_ok f"
  "form_ok f \<Longrightarrow> form_ok (f\<lparr>sampleRate := sample_rate_of v\<rparr>)"
  "form_ok f \<Longrightarrow> canonical g \<Longrightarrow> form_ok (f\<lparr>form_filter := g\<rparr>)"
  using sample_rate_range [of v] by (auto simp: form_ok_def)

lemma create_body_ok:
  assumes "form_errors ps f = []" "form_ok f"
  shows "body_ok (create_body f)"
proof -
  obtain x where x: "sampleRate f = Fin x" "0 \<le> x" "x \<le> 100" and c: "canonical (form_filter f)"
    using assms(2) by (auto simp: form_ok_def)
  then have "canonical (normalizeFilter (form_filter f))"
    "normalizeFilter (normalizeFilter (form_filter f)) = normalizeFilter (form_filter f)"
    by (simp_all add: canonical_normalize normalizeFilter_twice)
  moreover have "length (trim (ruleName f)) \<le> 128" "length (trim (judgeModel f)) \<le> 64"
    using assms(1) length_trim [of "ruleName f"] length_trim [of "judgeModel f"] by (simp_all add: form_errors_Nil)
  ultimately show ?thesis
    using assms(1) x percent_fraction [of x] by (auto simp: body_ok_def create_body_def form_errors_Nil)
qed

lemma after_render_inv: "eval_inv s \<Longrightarrow> eval_inv (after_render s)"
  by (auto simp: eval_inv_defs after_render_def rules_effect_run_def prompts_effect_run_def loading_defs Let_def)

lemma handle_inv:
  assumes "eval_inv s" and "\<And>g. m = SetFilter g \<Longrightarrow> canonical g"
  shows "eval_inv (handle confirmed m s)"
proof (cases m)
  case Create
  show ?thesis
  proof (cases "form_errors (promptList s) (createForm s) = []")
    case True
    with assms(1) have "body_ok (create_body (createForm s))"
      by (intro create_body_ok) (auto simp: eval_inv_def)
    with True assms(1) Create show ?thesis
      by (auto simp: eval_inv_defs handleCreate_def validateForm_def Let_def send_def)
  qed (use assms(1) Create in \<open>auto simp: eval_inv_defs handleCreate_def validateForm_def Let_def send_def\<close>)
next
  case Preview
  have "canonical (normalizeFilter (form_filter (createForm s)))"
    using assms(1) by (simp add: eval_inv_def form_ok_def canonical_normalize)
  then show ?thesis
    using assms(1) Preview by (auto simp: eval_inv_defs handlePreview_def Let_def send_def normalizeFilter_twice)
qed (use assms in \<open>auto simp: eval_inv_defs openNewRule_def clear_error_def handlePromptSelect_def
  handleLabelSelect_def resetCreateForm_def handleDelete_def loading_defs Let_def\<close>)

lemma reply_inv:
  assumes "eval_inv s" and "e_calls s = xs @ c # ys"
  shows "c = RulesCall p \<Longrightarrow> eval_inv (rules_end p r (s\<lparr>e_calls := xs @ ys\<rparr>))"
    and "c = PromptsCall p \<Longrightarrow> eval_inv (prompts_end ps (s\<lparr>e_calls := xs @ ys\<rparr>))"
    and "c = VersionsCall n p \<Longrightarrow> eval_inv (versions_end n vs (s\<lparr>e_calls := xs @ ys\<rparr>))"
    and "c = PreviewCall f \<Longrightarrow> eval_inv (preview_end d (s\<lparr>e_calls := xs @ ys\<rparr>))"
    and "c = CreateCall p b \<Longrightarrow> eval_inv (create_end p b u (s\<lparr>e_calls := xs @ ys\<rparr>))"
    and "c = DeleteCall i \<Longrightarrow> eval_inv (delete_end i u (s\<lparr>e_calls := xs @ ys\<rparr>))"
  using assms
  by (auto simp: eval_inv_defs rules_end_def prompts_end_def versions_end_def preview_end_def create_end_def
      delete_end_def post_toast_def resetCreateForm_def loading_defs split: reply.splits)

lemma eval_invariant: "eval_run s \<Longrightarrow> eval_inv s"
proof (induction rule: eval_run.induct)
  case (eval_mount project)
  show ?case unfolding mount_page_def
    by (auto simp: eval_inv_defs after_render_def rules_effect_run_def prompts_effect_run_def loading_defs Let_def)
next
  case (eval_user s rt now w m confirmed)
  have "canonical g" if "m = SetFilter g" for g
    using emits_page [OF eval_user.hyps(2)] eval_user that
    by (auto simp: emits_FilterGroup form_msgs_def eval_inv_def form_ok_def intro: edit_canonical split: if_splits)
  with eval_user.IH show ?case by (intro after_render_inv handle_inv)
next
  case (eval_project s project)
  then show ?case by (intro after_render_inv) (auto simp: eval_inv_defs)
qed (rule after_render_inv, erule (1) reply_inv, rule refl)+

section \<open>What runs show\<close>

text \<open>
  C28: the page never waits in vain. In every interleaving of user actions, changes of project and replies,
  a spinner is shown only while a call that will end it is in flight; any reply to the last such call
  ends it.
\<close>

theorem spinners_wait_for_calls:
  assumes "eval_run s"
  shows "(e_loading s \<longrightarrow> (\<exists>p. RulesCall p \<in> set (e_calls s))) \<and>
    (promptLoading s \<longrightarrow> (\<exists>p. PromptsCall p \<in> set (e_calls s))) \<and>
    (previewLoading s \<longrightarrow> (\<exists>f. PreviewCall f \<in> set (e_calls s))) \<and>
    \<not> e_loading (rules_end p r s) \<and> \<not> promptLoading (prompts_end ps s) \<and> \<not> previewLoading (preview_end d s)"
  using eval_invariant [OF assms]
  by (auto simp: eval_inv_defs rules_end_def prompts_end_def preview_end_def split: reply.splits)

lemma spinners_wait_for_calls_witness:
  "e_loading (mount_page (js ''p'')) \<and> (\<exists>p. RulesCall p \<in> set (e_calls (mount_page (js ''p''))))"
proof -
  have "e_loading (mount_page (js ''p''))"
    by (simp add: mount_page_def after_render_def rules_effect_run_def prompts_effect_run_def loading_defs Let_def)
  with spinners_wait_for_calls [OF eval_mount [of "js ''p''"]] show ?thesis by blast
qed

text \<open>
  C14: a rule is posted exactly when the form has no errors, and every rule ever posted has a name and a judge
  within their limits, a sampling fraction between 0 and 1, and a filter in the editor's normal form with its
  numbers converted.
\<close>

theorem posted_rules_valid:
  assumes "eval_run s"
  shows "e_calls (handleCreate s) = e_calls s @
      (if form_errors (promptList s) (createForm s) = []
       then [CreateCall (e_project s) (create_body (createForm s))] else [])
    \<and> formErrors (handleCreate s) = form_errors (promptList s) (createForm s)
    \<and> (\<forall>p b. CreateCall p b \<in> set (e_calls (handleCreate s)) \<longrightarrow>
         cr_name b \<noteq> [] \<and> length (cr_name b) \<le> 128 \<and> cr_judge_model b \<noteq> [] \<and> length (cr_judge_model b) \<le> 64 \<and>
         (\<exists>y. cr_sample_rate b = Fin y \<and> 0 \<le> y \<and> y \<le> 1) \<and>
         canonical (cr_filter b) \<and> normalizeFilter (cr_filter b) = cr_filter b)"
proof -
  have "eval_inv (handle False Create s)"
    by (rule handle_inv [OF eval_invariant [OF assms]]) simp
  then have "calls_ok (handleCreate s)" by (simp add: eval_inv_def)
  then show ?thesis
    by (auto simp: calls_ok_def body_ok_def handleCreate_def validateForm_def Let_def send_def)
qed

text \<open>A user who names a rule and presses the button.\<close>

definition idle_page :: "jsstring \<Rightarrow> eval_page" where
  "idle_page p = after_render (rules_end p (Ok None) ((mount_page p)\<lparr>e_calls := []\<rparr>))"

lemmas page_steps = mount_page_def after_render_def rules_effect_run_def prompts_effect_run_def loading_defs
  rules_end_def openNewRule_def Let_def

lemma idle_page_eq:
  "idle_page p = \<lparr>e_project = p, e_rules = [], e_loading = False, e_error = None, showNewRuleForm = False,
      createForm = defaultFormState, createError = None, formErrors = [], previewLoading = False,
      previewError = None, previewResult = None, showPreview = False, promptList = [], promptVersions = [],
      promptLoading = False, rules_effect = Some p, prompts_effect = Some (p, False), e_calls = [], e_toasts = [],
      e_filled = Some p\<rparr>"
  by (simp add: idle_page_def page_steps)

lemma run_idle: "eval_run (idle_page p)"
  unfolding idle_page_def
  by (rule eval_rules [OF eval_mount, where xs = "[]" and ys = "[]", simplified]) (simp add: page_steps)

lemma page_no_form:
  assumes "\<not> e_loading s" "truthy_text (e_error s) = None" "\<not> showNewRuleForm s" "e_rules s = []"
  shows "\<exists>w. EvalRulesPage rt now s = Inr w \<and> {NewRule, NewRuleEmpty} \<subseteq> emits w"
  using assms by (auto simp: EvalRulesPage_def rule_list_def page_header_def)

lemma page_with_form:
  assumes "\<not> e_loading s" "truthy_text (e_error s) = None" "showNewRuleForm s" "e_rules s = []"
    "previewResult s = None" "\<not> previewLoading s"
  shows "\<exists>w. EvalRulesPage rt now s = Inr w \<and>
    {Preview, Create, Cancel} \<union> range SetRuleName \<union> SetFilter ` emits (FilterGroup 0 (form_filter (createForm s))) \<subseteq> emits w"
proof -
  have "\<exists>body. preview_body rt s = Inr body"
    using assms by (simp add: preview_body_def split: option.split)
  then have "\<exists>panel. preview_panel rt s = Inr panel"
    by (auto simp: preview_panel_def)
  with assms show ?thesis
    by (auto simp: EvalRulesPage_def rule_list_def new_rule_form_def preview_counts_def
        preview_button_def text_fields_def emits_map_view)
qed

definition form_page :: "jsstring \<Rightarrow> eval_page" where
  "form_page p = after_render (openNewRule (idle_page p))"

lemma form_page_eq:
  "form_page p = (idle_page p)\<lparr>showNewRuleForm := True, promptLoading := True, prompts_effect := Some (p, True),
     e_calls := [PromptsCall p]\<rparr>"
  by (simp add: form_page_def idle_page_eq page_steps)

lemma run_form: "eval_run (form_page p)"
proof -
  fix rt
  obtain w where "EvalRulesPage rt 0 (idle_page p) = Inr w" "NewRule \<in> emits w"
    using page_no_form [of "idle_page p" rt 0] by (auto simp: idle_page_eq truthy_text_def)
  from eval_user [OF run_idle this, of False] show ?thesis by (simp add: form_page_def)
qed

lemma posted_rules_valid_witness:
  "\<exists>s b. eval_run s \<and> form_errors (promptList s) (createForm s) = [] \<and>
    e_calls (handleCreate s) = e_calls s @ [CreateCall (js ''p'') b] \<and> cr_name b = js ''R'' \<and>
    (\<exists>y. cr_sample_rate b = Fin y \<and> 0 \<le> y \<and> y \<le> 1)"
proof -
  fix rt
  let ?s = "after_render (handle False (SetRuleName (js ''R'')) (form_page (js ''p'')))"
  obtain w where "EvalRulesPage rt 0 (form_page (js ''p'')) = Inr w" "SetRuleName (js ''R'') \<in> emits w"
    using page_with_form [of "form_page (js ''p'')" rt 0] by (fastforce simp: form_page_eq idle_page_eq truthy_text_def)
  from eval_user [OF run_form this] have run: "eval_run ?s" by simp
  have s: "promptList ?s = []" "createForm ?s = defaultFormState\<lparr>ruleName := js ''R''\<rparr>" "e_project ?s = js ''p''"
    by (simp_all add: form_page_eq idle_page_eq clear_error_def page_steps)
  have ok: "form_errors (promptList ?s) (createForm ?s) = []"
    unfolding s by (simp add: form_errors_Nil defaultFormState_def trim_def trim_start_def js_def is_space_unit_def)
  moreover have "cr_name (create_body (createForm ?s)) = js ''R''"
    unfolding s by (simp add: create_body_def trim_def trim_start_def js_def is_space_unit_def)
  moreover note posted_rules_valid [OF run]
  ultimately show ?thesis using run s(3) by (intro exI [of _ ?s] exI [of _ "create_body (createForm ?s)"]) auto
qed

text \<open>Every run ends after the effects of a render, which leave the project's rules requested.\<close>

lemma effects_settled: "rules_effect (after_render s) = Some (e_project (after_render s))"
  by (simp add: after_render_def rules_effect_run_def prompts_effect_run_def loading_defs Let_def)

lemma run_settled: "eval_run s \<Longrightarrow> rules_effect s = Some (e_project s)"
  by (induction rule: eval_run.induct) (simp_all only: mount_page_def effects_settled)

text \<open>
  C30: a preview that matches nothing takes the page down. The service sends \<open>null\<close> for an empty list of
  spans; whatever the state in which that answer arrives, as long as the form is shown, the next render
  throws, so the text "No matching spans found." never appears for it.
\<close>

theorem empty_preview_throws:
  assumes "eval_run s" and "e_calls s = xs @ PreviewCall f # ys" and "pr_spans d = None"
    and "showNewRuleForm s" and "\<not> e_loading s" and "truthy_text (e_error s) = None"
  shows "eval_run (after_render (preview_end (Ok d) (s\<lparr>e_calls := xs @ ys\<rparr>))) \<and>
    EvalRulesPage rt now (after_render (preview_end (Ok d) (s\<lparr>e_calls := xs @ ys\<rparr>))) = Inl (TypeError ''length'')"
proof
  show "eval_run (after_render (preview_end (Ok d) (s\<lparr>e_calls := xs @ ys\<rparr>)))"
    by (rule eval_preview [OF assms(1,2)])
  let ?t = "after_render (preview_end (Ok d) (s\<lparr>e_calls := xs @ ys\<rparr>))"
  have "\<not> e_loading ?t" "truthy_text (e_error ?t) = None" "showNewRuleForm ?t" "previewResult ?t = Some d"
    using assms(4-6) run_settled [OF assms(1)]
    by (simp_all add: preview_end_def after_render_def rules_effect_run_def prompts_effect_run_def loading_defs Let_def)
  with assms(3) show "EvalRulesPage rt now ?t = Inl (TypeError ''length'')"
    by (simp add: EvalRulesPage_def new_rule_form_def preview_counts_def spans_of_def)
qed

text \<open>The user chooses a kind of condition and asks for a preview.\<close>

definition kind_filter :: EvalFilter where
  "kind_filter = EvalFilter [(js ''kind'', JStr [])] NoKey NoKey None"

lemma kind_filter_offered: "kind_filter \<in> emits (FilterGroup 0 createEmptyFilter)"
proof -
  have "kind_filter = withField createEmptyFilter (js ''kind'') (JStr [])"
    by (simp add: kind_filter_def withField_def createEmptyFilter_def obj_put_def)
  moreover have "edit True createEmptyFilter (withField createEmptyFilter (js ''kind'') (JStr []))"
    by (rule edit.choose) (simp_all add: isLeaf_def hasOr_def hasAnd_def hasNot_def createEmptyFilter_def
        leaf_keys_def LEAF_CONDITIONS_def)
  ultimately show ?thesis by (simp add: emits_FilterGroup)
qed

definition filtered_page :: "jsstring \<Rightarrow> eval_page" where
  "filtered_page p = (form_page p)\<lparr>createForm := defaultFormState\<lparr>form_filter := kind_filter\<rparr>\<rparr>"

lemma run_filtered: "eval_run (filtered_page p)"
proof -
  fix rt
  have "SetFilter kind_filter \<in> SetFilter ` emits (FilterGroup 0 (form_filter (createForm (form_page p))))"
    using kind_filter_offered by (simp add: form_page_eq idle_page_eq defaultFormState_def)
  then obtain w where "EvalRulesPage rt 0 (form_page p) = Inr w" "SetFilter kind_filter \<in> emits w"
    using page_with_form [of "form_page p" rt 0] by (force simp: form_page_eq idle_page_eq truthy_text_def)
  from eval_user [OF run_form this]
  have "eval_run (after_render (handle False (SetFilter kind_filter) (form_page p)))" .
  moreover have "after_render (handle False (SetFilter kind_filter) (form_page p)) = filtered_page p"
    by (simp add: filtered_page_def form_page_eq idle_page_eq page_steps)
  ultimately show ?thesis by simp
qed

definition preview_page :: "jsstring \<Rightarrow> eval_page" where
  "preview_page p = (filtered_page p)\<lparr>previewLoading := True, showPreview := True,
     e_calls := [PromptsCall p, PreviewCall kind_filter]\<rparr>"

lemma normalize_kind: "normalizeFilter kind_filter = kind_filter"
  by (simp add: kind_filter_def normalize_field_def)

lemma run_preview: "eval_run (preview_page p)"
proof -
  fix rt
  obtain w where "EvalRulesPage rt 0 (filtered_page p) = Inr w" "Preview \<in> emits w"
    using page_with_form [of "filtered_page p" rt 0]
    by (force simp: filtered_page_def form_page_eq idle_page_eq truthy_text_def)
  from eval_user [OF run_filtered this] have "eval_run (after_render (handle False Preview (filtered_page p)))" .
  moreover have "has_keys kind_filter" by (simp add: has_keys_def kind_filter_def)
  then have "after_render (handle False Preview (filtered_page p)) = preview_page p"
    by (simp add: preview_page_def filtered_page_def form_page_eq idle_page_eq handlePreview_def normalize_kind page_steps)
  ultimately show ?thesis by simp
qed

lemma empty_preview_throws_witness:
  "\<exists>s. eval_run s \<and> (\<forall>rt now. EvalRulesPage rt now s = Inl (TypeError ''length''))"
proof -
  let ?d = "\<lparr>pr_spans = None, pr_match_count_24h = Fin 0\<rparr>"
  have "e_calls (preview_page []) = [PromptsCall []] @ PreviewCall kind_filter # []"
    by (simp add: preview_page_def)
  moreover have "showNewRuleForm (preview_page [])" "\<not> e_loading (preview_page [])"
    "truthy_text (e_error (preview_page [])) = None" "pr_spans ?d = None"
    by (simp_all add: preview_page_def filtered_page_def form_page_eq idle_page_eq truthy_text_def)
  ultimately show ?thesis using empty_preview_throws [OF run_preview] by blast
qed

text \<open>
  A delete that fails replaces the whole page by the text of the failure. The rules are all still there,
  but nothing the page shows can be acted on.
\<close>

theorem failed_delete_hides_page:
  assumes "eval_run s" and "e_calls s = xs @ DeleteCall i # ys" and "\<not> e_loading s" and "t \<noteq> []"
  shows "\<exists>w. EvalRulesPage rt now (after_render (delete_end i (NotOk t) (s\<lparr>e_calls := xs @ ys\<rparr>))) = Inr w \<and>
    emits w = {} \<and> t \<in> set (view_texts w) \<and>
    e_rules (after_render (delete_end i (NotOk t) (s\<lparr>e_calls := xs @ ys\<rparr>))) = e_rules s"
proof -
  let ?t = "after_render (delete_end i (NotOk t) (s\<lparr>e_calls := xs @ ys\<rparr>))"
  have "\<not> e_loading ?t" "truthy_text (e_error ?t) = Some t" "e_rules ?t = e_rules s"
    using assms(3,4) run_settled [OF assms(1)]
    by (simp_all add: delete_end_def text_or_def truthy_text_def after_render_def rules_effect_run_def
        prompts_effect_run_def loading_defs Let_def)
  then show ?thesis by (simp add: EvalRulesPage_def box_def para_def)
qed

definition one_rule :: EvalRule where
  "one_rule = \<lparr>rule_id = js ''r1'', rule_project = js ''p'', rule_name = js ''R'', rule_judge_model = None,
     rule_prompt_name = [], rule_prompt_version = 1, rule_sample_rate = None, rule_enabled = True,
     rule_created_at = [], rule_filter = None\<rparr>"

definition rule_page :: eval_page where
  "rule_page = (idle_page (js ''p''))\<lparr>e_rules := [one_rule]\<rparr>"

lemma run_rule_page: "eval_run rule_page"
proof -
  have "eval_run (after_render (rules_end (js ''p'') (Ok (Some [one_rule])) ((mount_page (js ''p''))\<lparr>e_calls := []\<rparr>)))"
    by (rule eval_rules [OF eval_mount, where xs = "[]" and ys = "[]", simplified]) (simp add: page_steps)
  then show ?thesis by (simp add: rule_page_def idle_page_eq page_steps)
qed

lemma run_deleting: "eval_run (rule_page\<lparr>e_calls := [DeleteCall (js ''r1'')]\<rparr>)"
proof -
  fix rt
  obtain w where "EvalRulesPage rt 0 rule_page = Inr w" "Delete (js ''r1'') \<in> emits w"
    by (auto simp: EvalRulesPage_def rule_page_def idle_page_eq rule_list_def RuleCard_def one_rule_def
        filterDisplayText_def truthy_text_def)
  from eval_user [OF run_rule_page this, of True]
  show ?thesis by (simp add: handleDelete_def rule_page_def idle_page_eq page_steps)
qed

lemma failed_delete_hides_page_witness:
  "\<exists>s. eval_run s \<and> e_rules s = [one_rule] \<and> (\<forall>rt now. \<exists>w. EvalRulesPage rt now s = Inr w \<and> emits w = {})"
proof -
  let ?s = "rule_page\<lparr>e_calls := [DeleteCall (js ''r1'')]\<rparr>"
  have split: "e_calls ?s = [] @ DeleteCall (js ''r1'') # []" by simp
  have "\<not> e_loading ?s" "e_rules ?s = [one_rule]" by (simp_all add: rule_page_def idle_page_eq)
  then show ?thesis
    using failed_delete_hides_page [OF run_deleting split, of "js ''store error''"]
      eval_delete [OF run_deleting split, of "NotOk (js ''store error'')"] by fastforce
qed

text \<open>
  Replies are applied whatever project they are for. After a change of project, an answer for the old one
  that comes last stays on screen: the page is idle, shows no error and no spinner, names the new project,
  and lists the rules of the old one.
\<close>

theorem late_rules_of_old_project:
  "\<exists>s. eval_run s \<and> e_calls s = [] \<and> \<not> e_loading s \<and> e_error s = None \<and>
     e_project s = js ''new'' \<and> e_filled s = Some (js ''old'') \<and> e_rules s = [one_rule]"
proof -
  let ?s0 = "mount_page (js ''old'')"
  let ?s1 = "after_render (?s0\<lparr>e_project := js ''new''\<rparr>)"
  have r1: "eval_run ?s1" by (rule eval_project [OF eval_mount])
  have c1: "e_calls ?s1 = [RulesCall (js ''old'')] @ RulesCall (js ''new'') # []" by (simp add: page_steps)
  let ?s2 = "after_render (rules_end (js ''new'') (Ok None) (?s1\<lparr>e_calls := [RulesCall (js ''old'')] @ []\<rparr>))"
  have r2: "eval_run ?s2" by (rule eval_rules [OF r1 c1])
  have c2: "e_calls ?s2 = [] @ RulesCall (js ''old'') # []" by (simp add: page_steps)
  let ?s3 = "after_render (rules_end (js ''old'') (Ok (Some [one_rule])) (?s2\<lparr>e_calls := [] @ []\<rparr>))"
  have "eval_run ?s3" by (rule eval_rules [OF r2 c2])
  moreover have "e_calls ?s3 = [] \<and> \<not> e_loading ?s3 \<and> e_error ?s3 = None \<and>
     e_project ?s3 = js ''new'' \<and> e_filled ?s3 = Some (js ''old'') \<and> e_rules ?s3 = [one_rule]"
    by (simp add: page_steps)
  ultimately show ?thesis by blast
qed

end
