(* ===== verification/SpanKinds.thy ===== *)
theory SpanKinds
  imports View
begin

text \<open>
  \<open>ui/src/modules/spanKindVisuals.tsx\<close>: colour, label and icon of each kind of span. The icons are drawings;
  an icon is an element that names it. Looking up another kind finds no entry, and reading its colour, or
  rendering its icon, throws.
\<close>

datatype Icon = SparkleIcon | WrenchIcon | PersonIcon | ChainIcon | DotIcon

record SpanKindVisual =
  skv_color :: string
  skv_label :: string
  skv_icon :: Icon

definition ICONS :: "(string \<times> Icon) list" where
  "ICONS = [(''llm'', SparkleIcon), (''tool'', WrenchIcon), (''agent'', PersonIcon), (''chain'', ChainIcon),
     (''internal'', DotIcon)]"

definition visual :: "string \<Rightarrow> string \<Rightarrow> Icon \<Rightarrow> SpanKindVisual" where
  "visual c l i = \<lparr>skv_color = c, skv_label = l, skv_icon = i\<rparr>"

definition spanKindVisuals :: "(string \<times> SpanKindVisual) list" where
  "spanKindVisuals =
     [(''llm'', visual ''#7C3AED'' ''LLM'' SparkleIcon), (''tool'', visual ''#06B6D4'' ''Tool'' WrenchIcon),
      (''agent'', visual ''#F59E0B'' ''Agent'' PersonIcon), (''chain'', visual ''#22D3EE'' ''Chain'' ChainIcon),
      (''internal'', visual ''#8B8BA7'' ''Internal'' DotIcon)]"

definition kind_entry :: "(string \<times> 'v) list \<Rightarrow> jsstring \<Rightarrow> 'v option" where
  "kind_entry t kind = map_of (map (apfst js) t) kind"

definition getSpanKindColor :: "jsstring \<Rightarrow> (js_error, string) result" where
  "getSpanKindColor kind =
     (case kind_entry spanKindVisuals kind of Some x \<Rightarrow> Inr (skv_color x) | None \<Rightarrow> Inl (TypeError ''color''))"

definition getSpanKindLabel :: "jsstring \<Rightarrow> (js_error, string) result" where
  "getSpanKindLabel kind =
     (case kind_entry spanKindVisuals kind of Some x \<Rightarrow> Inr (skv_label x) | None \<Rightarrow> Inl (TypeError ''label''))"

definition getSpanKindIcon :: "jsstring \<Rightarrow> Icon option" where
  "getSpanKindIcon kind = kind_entry ICONS kind"

fun icon_name :: "Icon \<Rightarrow> string" where
  "icon_name SparkleIcon = ''sparkle''" | "icon_name WrenchIcon = ''wrench''"
| "icon_name PersonIcon = ''person''" | "icon_name ChainIcon = ''chain''" | "icon_name DotIcon = ''dot''"

definition icon_view :: "Icon \<Rightarrow> 'm view" where
  "icon_view i = Elem ''svg'' [(''role'', pstr ''img''), (''name'', pstr (icon_name i))] [] []"

definition SpanKindIcon :: "jsstring \<Rightarrow> (js_error, 'm view) result" where
  "SpanKindIcon kind =
     (case getSpanKindIcon kind of Some i \<Rightarrow> Inr (icon_view i) | None \<Rightarrow> Inl (Thrown (js ''Element type is invalid'')))"

definition known_kind :: "jsstring \<Rightarrow> bool" where
  "known_kind k \<longleftrightarrow> k \<in> js ` {''llm'', ''tool'', ''agent'', ''chain'', ''internal''}"

text \<open>The three tables agree on the kinds they know, so a kind with a colour has a label and an icon.\<close>

lemma kind_tables:
  "(\<exists>c. getSpanKindColor k = Inr c) \<longleftrightarrow> known_kind k"
  "(\<exists>l. getSpanKindLabel k = Inr l) \<longleftrightarrow> known_kind k"
  "(\<exists>i. getSpanKindIcon k = Some i) \<longleftrightarrow> known_kind k"
  by (auto simp: getSpanKindColor_def getSpanKindLabel_def getSpanKindIcon_def kind_entry_def spanKindVisuals_def
      ICONS_def known_kind_def split: option.splits)

lemma emits_icon [simp]: "emits (icon_view i) = {}" "SpanKindIcon k = Inr w \<Longrightarrow> emits w = {}"
  by (auto simp: icon_view_def SpanKindIcon_def split: option.splits)

end
