(* ===== verification/DatasetModals.thy ===== *)
theory DatasetModals
  imports EvalRules
begin

text \<open>
  \<open>ui/src/components/SaveToDatasetModal.tsx\<close> and \<open>BulkAddToDatasetModal.tsx\<close>: the dialogs that add one span,
  or a selection of spans, to a dataset. They share the choice of the dataset, which is the record
  \<open>dataset_modal\<close>; each dialog extends it.
\<close>

section \<open>The shared part\<close>

record DatasetItem =
  ds_id :: jsstring
  ds_name :: jsstring
  ds_created_at :: jsstring
  ds_item_count :: jsnum

record new_item =
  ni_input :: jsstring
  ni_expected_output :: "jsstring option"
  ni_source_span_id :: jsstring

text \<open>
  The calls of a dialog. A list of datasets fetched after the creation of one remembers that the creation
  still waits for it.
\<close>

datatype modal_call =
    DatasetsCall bool
  | SpansCall "jsstring list"
  | SaveCall jsstring "new_item list"
  | CreateDatasetCall jsstring

datatype parent_msg = Closed | Succeeded

record dataset_modal =
  m_datasets :: "DatasetItem list"
  m_loading :: bool
  selectedDatasetId :: jsstring
  showCreateNew :: bool
  newDatasetName :: jsstring
  m_saving :: bool
  m_error :: "jsstring option"
  m_creating :: bool
  m_createError :: "jsstring option"
  m_calls :: "modal_call list"
  m_told :: "parent_msg list"

definition m_send :: "modal_call \<Rightarrow> 'a dataset_modal_scheme \<Rightarrow> 'a dataset_modal_scheme" where
  "m_send c s = s\<lparr>m_calls := m_calls s @ [c]\<rparr>"

definition tell :: "parent_msg \<Rightarrow> 'a dataset_modal_scheme \<Rightarrow> 'a dataset_modal_scheme" where
  "tell m s = s\<lparr>m_told := m_told s @ [m]\<rparr>"

definition fetchDatasets :: "bool \<Rightarrow> 'a dataset_modal_scheme \<Rightarrow> 'a dataset_modal_scheme" where
  "fetchDatasets creating s = m_send (DatasetsCall creating) (s\<lparr>m_loading := True, m_error := None\<rparr>)"

text \<open>A list of exactly one dataset selects it.\<close>

definition take_datasets :: "DatasetItem list option \<Rightarrow> 'a dataset_modal_scheme \<Rightarrow> 'a dataset_modal_scheme" where
  "take_datasets ds s =
     (case ds of
        None \<Rightarrow> s\<lparr>m_datasets := []\<rparr>
      | Some [d] \<Rightarrow> s\<lparr>m_datasets := [d], selectedDatasetId := ds_id d\<rparr>
      | Some ds \<Rightarrow> s\<lparr>m_datasets := ds\<rparr>)"

definition datasets_end ::
    "bool \<Rightarrow> DatasetItem list option reply \<Rightarrow> 'a dataset_modal_scheme \<Rightarrow> 'a dataset_modal_scheme" where
  "datasets_end creating r s =
     (let s' = (case r of
                  Threw _ \<Rightarrow> s\<lparr>m_error := Some (js ''Failed to load datasets'')\<rparr>
                | NotOk _ \<Rightarrow> s
                | Ok ds \<Rightarrow> take_datasets ds s)\<lparr>m_loading := False\<rparr>
      in if creating then s'\<lparr>m_creating := False\<rparr> else s')"

definition handleCreateDataset :: "'a dataset_modal_scheme \<Rightarrow> 'a dataset_modal_scheme" where
  "handleCreateDataset s =
     (if trim (newDatasetName s) = [] then s
      else m_send (CreateDatasetCall (trim (newDatasetName s))) (s\<lparr>m_creating := True, m_createError := None\<rparr>))"

definition create_dataset_end ::
    "jsstring reply \<Rightarrow> 'a dataset_modal_scheme \<Rightarrow> 'a dataset_modal_scheme" where
  "create_dataset_end r s =
     (case r of
        Threw _ \<Rightarrow> s\<lparr>m_createError := Some (js ''Network error while creating dataset''), m_creating := False\<rparr>
      | NotOk t \<Rightarrow> s\<lparr>m_createError := Some (text_or ''Failed to create dataset'' t), m_creating := False\<rparr>
      | Ok i \<Rightarrow> fetchDatasets True (s\<lparr>selectedDatasetId := i, showCreateNew := False, newDatasetName := []\<rparr>))"

definition save_items :: "new_item list \<Rightarrow> 'a dataset_modal_scheme \<Rightarrow> 'a dataset_modal_scheme" where
  "save_items items s =
     (if selectedDatasetId s = [] then s
      else m_send (SaveCall (selectedDatasetId s) items) (s\<lparr>m_saving := True, m_error := None\<rparr>))"

definition save_failed :: "jsstring \<Rightarrow> 'a dataset_modal_scheme \<Rightarrow> 'a dataset_modal_scheme" where
  "save_failed t s = s\<lparr>m_error := Some t, m_saving := False\<rparr>"

definition new_modal :: dataset_modal where
  "new_modal =
     \<lparr>m_datasets = [], m_loading = True, selectedDatasetId = [], showCreateNew = False, newDatasetName = [],
      m_saving = False, m_error = None, m_creating = False, m_createError = None, m_calls = [], m_told = []\<rparr>"

datatype modal_msg =
    Close | SelectDataset jsstring | ShowCreate | NameInput jsstring | CreateNow | CancelCreate | SaveNow
  | ExpectedOutput jsstring

text \<open>What both dialogs do alike.\<close>

fun modal_handle :: "modal_msg \<Rightarrow> 'a dataset_modal_scheme \<Rightarrow> 'a dataset_modal_scheme" where
  "modal_handle Close s = tell Closed s"
| "modal_handle (SelectDataset i) s = s\<lparr>selectedDatasetId := i\<rparr>"
| "modal_handle ShowCreate s = s\<lparr>showCreateNew := True\<rparr>"
| "modal_handle (NameInput v) s = s\<lparr>newDatasetName := v\<rparr>"
| "modal_handle CreateNow s = handleCreateDataset s"
| "modal_handle CancelCreate s = s\<lparr>showCreateNew := False, m_createError := None\<rparr>"
| "modal_handle _ s = s"

section \<open>One span\<close>

record save_modal = dataset_modal +
  sm_span :: jsstring
  sm_trace :: jsstring
  sm_input :: jsstring
  customExpectedOutput :: jsstring

definition open_save_modal :: "jsstring \<Rightarrow> jsstring \<Rightarrow> jsstring \<Rightarrow> jsstring option \<Rightarrow> save_modal" where
  "open_save_modal sp tr input expected =
     fetchDatasets False (dataset_modal.extend new_modal
       (save_modal.fields sp tr input (case expected of Some s \<Rightarrow> s | None \<Rightarrow> [])))"

definition one_item :: "save_modal \<Rightarrow> new_item" where
  "one_item s = \<lparr>ni_input = sm_input s,
     ni_expected_output = (if customExpectedOutput s \<noteq> [] then Some (customExpectedOutput s) else None),
     ni_source_span_id = sm_span s\<rparr>"

fun save_handle :: "modal_msg \<Rightarrow> save_modal \<Rightarrow> save_modal" where
  "save_handle SaveNow s = save_items [one_item s] s"
| "save_handle (ExpectedOutput v) s = s\<lparr>customExpectedOutput := v\<rparr>"
| "save_handle m s = modal_handle m s"

definition save_end :: "unit reply \<Rightarrow> save_modal \<Rightarrow> save_modal" where
  "save_end r s =
     (case r of
        Threw _ \<Rightarrow> save_failed (js ''Network error while saving'') s
      | NotOk t \<Rightarrow> save_failed (text_or ''Failed to save to dataset'' t) s
      | Ok _ \<Rightarrow> (tell Succeeded s)\<lparr>m_saving := False\<rparr>)"

section \<open>A selection of spans\<close>

record SpanData =
  sd_span_id :: jsstring
  sd_input :: "jsstring option"
  sd_output :: "jsstring option"

record bulk_modal = dataset_modal +
  bm_spans :: "jsstring list"
  fetchedSpans :: "SpanData list"

definition open_bulk_modal :: "jsstring list \<Rightarrow> bulk_modal" where
  "open_bulk_modal ids =
     m_send (SpansCall ids) (fetchDatasets False (dataset_modal.extend new_modal (bulk_modal.fields ids [])))"

definition span_data_end :: "SpanData list option reply \<Rightarrow> bulk_modal \<Rightarrow> bulk_modal" where
  "span_data_end r s =
     (case r of Ok ds \<Rightarrow> s\<lparr>fetchedSpans := (case ds of Some xs \<Rightarrow> xs | None \<Rightarrow> [])\<rparr> | _ \<Rightarrow> s)"

text \<open>\<open>new Map(fetchedSpans.map(...))\<close>: of two entries with one key the later is kept.\<close>

definition span_data :: "bulk_modal \<Rightarrow> jsstring \<Rightarrow> SpanData option" where
  "span_data s i = map_of (rev (map (\<lambda>d. (sd_span_id d, d)) (fetchedSpans s))) i"

definition bulk_item :: "bulk_modal \<Rightarrow> jsstring \<Rightarrow> new_item" where
  "bulk_item s i =
     \<lparr>ni_input = (case Option.bind (span_data s i) sd_input of Some t \<Rightarrow> t | None \<Rightarrow> []),
      ni_expected_output =
        (case Option.bind (span_data s i) sd_output of Some t \<Rightarrow> if t \<noteq> [] then Some t else None | None \<Rightarrow> None),
      ni_source_span_id = i\<rparr>"

fun bulk_handle :: "modal_msg \<Rightarrow> bulk_modal \<Rightarrow> bulk_modal" where
  "bulk_handle SaveNow s = save_items (map (bulk_item s) (bm_spans s)) s"
| "bulk_handle m s = modal_handle m s"

text \<open>The answer: how many items were created, and the list of those skipped, if given.\<close>

record batch_answer =
  ba_created :: "int option"
  ba_skipped :: "nat option"

definition partial_text :: "int \<Rightarrow> int \<Rightarrow> int \<Rightarrow> jsstring" where
  "partial_text created n skipped =
     js ''Added '' @ dec_int created @ js '' of '' @ dec_int n @ js '' spans '' @ em_dash @ js '' '' @
     dec_int skipped @ js '' skipped (no input)''"

definition batch_end :: "new_item list \<Rightarrow> batch_answer reply \<Rightarrow> bulk_modal \<Rightarrow> bulk_modal" where
  "batch_end items r s =
     (case r of
        Threw _ \<Rightarrow> save_failed (js ''Network error while saving'') s
      | NotOk t \<Rightarrow> save_failed (text_or ''Failed to save to dataset'' t) s
      | Ok a \<Rightarrow>
          (let created = (case ba_created a of Some n \<Rightarrow> n | None \<Rightarrow> 0);
               n = int (length items)
           in if created < n
              then save_failed (partial_text created n
                     (case ba_skipped a of Some k \<Rightarrow> int k | None \<Rightarrow> n - created)) s
              else (tell Succeeded s)\<lparr>m_saving := False\<rparr>))"

section \<open>What is shown\<close>

text \<open>A click on the backdrop closes the dialog; clicks inside do not reach it.\<close>

definition modal_frame :: "string \<Rightarrow> jsstring \<Rightarrow> modal_msg view list \<Rightarrow> modal_msg view list \<Rightarrow> modal_msg view" where
  "modal_frame title subtitle content footer =
     Elem ''div'' [] [OnClick Close]
       [box ([box [box [Elem ''h2'' [] [] [tx title], para [Text subtitle]],
                   button_with [(''aria-label'', pstr ''Close'')] Close []],
              box content] @ footer)]"

definition dataset_option :: "DatasetItem \<Rightarrow> 'm view" where
  "dataset_option d =
     option_tag (ds_id d) (ds_name d @ js '' ('' @ num_to_string (ds_item_count d) @ js '' items)'')"

definition dataset_choice :: "string \<Rightarrow> 'a dataset_modal_scheme \<Rightarrow> modal_msg view list" where
  "dataset_choice loading_text s =
     [box [Elem ''label'' [] [] [tx ''Dataset''],
           (if m_loading s then box [tx loading_text, Text ellipsis]
            else if m_datasets s = [] then box [tx ''No datasets found. Create one to get started.'']
            else Select (selectedDatasetId s) (\<lambda>v. Some (SelectDataset v)) (map dataset_option (m_datasets s)))],
      button ShowCreate [tx ''+ Create new dataset'']] @
     (case truthy_text (m_error s) of Some e \<Rightarrow> [box [Text e]] | None \<Rightarrow> [])"

definition create_dataset_form :: "'a dataset_modal_scheme \<Rightarrow> modal_msg view list" where
  "create_dataset_form s =
     [box ([box [Elem ''label'' [] [] [tx ''New Dataset Name''],
             Elem ''input''
               [(''type'', pstr ''text''), (''value'', PStr (newDatasetName s)),
                (''placeholder'', pstr ''e.g., eval-prompts-v1'')]
               [OnChange (\<lambda>v. Some (NameInput v)),
                OnKeyDown (\<lambda>k. if k = js ''Enter'' then Some CreateNow else None)] []],
           box [button_with [(''disabled'', PBool (trim (newDatasetName s) = [] \<or> m_creating s))] CreateNow
                  (if m_creating s then [tx ''Creating'', Text ellipsis] else [tx ''Create'']),
                button CancelCreate [tx ''Cancel'']]] @
          (case truthy_text (m_createError s) of Some e \<Rightarrow> [box [Text e]] | None \<Rightarrow> []))]"

definition modal_footer :: "'a dataset_modal_scheme \<Rightarrow> modal_msg view list" where
  "modal_footer s = shown (\<not> showCreateNew s \<and> m_datasets s \<noteq> [])
     [box [button Close [tx ''Cancel''],
           button_with [(''disabled'', PBool (selectedDatasetId s = [] \<or> m_saving s))] SaveNow
             (if m_saving s then [tx ''Saving'', Text ellipsis] else [tx ''Save to Dataset''])]]"

definition dataset_part :: "string \<Rightarrow> 'a dataset_modal_scheme \<Rightarrow> modal_msg view list" where
  "dataset_part loading_text s =
     (if showCreateNew s then create_dataset_form s else dataset_choice loading_text s)"

definition SaveToDatasetModal :: "save_modal \<Rightarrow> modal_msg view" where
  "SaveToDatasetModal s =
     modal_frame ''Save to Dataset''
       (js ''Trace '' @ take 12 (sm_trace s) @ ellipsis @ js '' '' @ [0xB7] @ js '' Span '' @ take 8 (sm_span s) @ ellipsis)
       ([box [Elem ''label'' [] [] [tx ''Input''],
              box [Text (if 200 < length (sm_input s) then take 200 (sm_input s) @ ellipsis else sm_input s)]],
         box [Elem ''label'' [] [] [tx ''Expected Output (optional)''],
              Elem ''textarea'' [(''value'', PStr (customExpectedOutput s))]
                [OnChange (\<lambda>v. Some (ExpectedOutput v))] []]] @ dataset_part ''Loading'' s)
       (modal_footer s)"

definition BulkAddToDatasetModal :: "bulk_modal \<Rightarrow> modal_msg view" where
  "BulkAddToDatasetModal s =
     modal_frame ''Add to Dataset''
       (dec_nat (length (bm_spans s)) @ js '' span'' @ (if length (bm_spans s) \<noteq> 1 then js ''s'' else []) @ js '' selected'')
       (dataset_part ''Loading datasets'' s) (modal_footer s)"

section \<open>Runs\<close>

text \<open>The user acts on what is shown; the calls of a dialog are answered in any order.\<close>

inductive save_run :: "save_modal \<Rightarrow> bool" where
  save_open: "save_run (open_save_modal sp tr input expected)"
| save_user: "save_run s \<Longrightarrow> m \<in> emits (SaveToDatasetModal s) \<Longrightarrow> save_run (save_handle m s)"
| save_datasets: "save_run s \<Longrightarrow> m_calls s = xs @ DatasetsCall c # ys \<Longrightarrow>
    save_run (datasets_end c ds (s\<lparr>m_calls := xs @ ys\<rparr>))"
| save_create: "save_run s \<Longrightarrow> m_calls s = xs @ CreateDatasetCall n # ys \<Longrightarrow>
    save_run (create_dataset_end r (s\<lparr>m_calls := xs @ ys\<rparr>))"
| save_saved: "save_run s \<Longrightarrow> m_calls s = xs @ SaveCall d items # ys \<Longrightarrow>
    save_run (save_end u (s\<lparr>m_calls := xs @ ys\<rparr>))"

inductive bulk_run :: "bulk_modal \<Rightarrow> bool" where
  bulk_open: "bulk_run (open_bulk_modal ids)"
| bulk_user: "bulk_run s \<Longrightarrow> m \<in> emits (BulkAddToDatasetModal s) \<Longrightarrow> bulk_run (bulk_handle m s)"
| bulk_datasets: "bulk_run s \<Longrightarrow> m_calls s = xs @ DatasetsCall c # ys \<Longrightarrow>
    bulk_run (datasets_end c ds (s\<lparr>m_calls := xs @ ys\<rparr>))"
| bulk_spans: "bulk_run s \<Longrightarrow> m_calls s = xs @ SpansCall ids # ys \<Longrightarrow>
    bulk_run (span_data_end r (s\<lparr>m_calls := xs @ ys\<rparr>))"
| bulk_create: "bulk_run s \<Longrightarrow> m_calls s = xs @ CreateDatasetCall n # ys \<Longrightarrow>
    bulk_run (create_dataset_end r' (s\<lparr>m_calls := xs @ ys\<rparr>))"
| bulk_saved: "bulk_run s \<Longrightarrow> m_calls s = xs @ SaveCall d items # ys \<Longrightarrow>
    bulk_run (batch_end items a (s\<lparr>m_calls := xs @ ys\<rparr>))"

section \<open>What a dialog can send\<close>

lemma emits_modal_frame [simp]:
  "emits (modal_frame t u content footer) = insert Close (emits_all content \<union> emits_all footer)"
  by (auto simp: modal_frame_def)

lemma emits_dataset_part:
  "emits_all (dataset_part l s) \<subseteq>
     {ShowCreate, CreateNow, CancelCreate} \<union> range SelectDataset \<union> range NameInput"
  "showCreateNew s \<Longrightarrow> trim (newDatasetName s) \<noteq> [] \<Longrightarrow> CreateNow \<in> emits_all (dataset_part l s)"
  "showCreateNew s \<Longrightarrow> NameInput v \<in> emits_all (dataset_part l s)"
  "\<not> showCreateNew s \<Longrightarrow> ShowCreate \<in> emits_all (dataset_part l s)"
proof -
  have opts: "emits_all (map dataset_option ds) = {}" for ds
    by (auto simp: emits_all_def dataset_option_def)
  show "emits_all (dataset_part l s) \<subseteq>
     {ShowCreate, CreateNow, CancelCreate} \<union> range SelectDataset \<union> range NameInput"
    by (cases "trim (newDatasetName s) = [] \<or> m_creating s")
      (auto simp: dataset_part_def dataset_choice_def create_dataset_form_def Select_def opts
        split: option.splits if_splits)
qed (auto simp: dataset_part_def dataset_choice_def create_dataset_form_def)

lemma emits_modal_footer:
  "emits_all (modal_footer s) \<subseteq> {Close, SaveNow}"
  "SaveNow \<in> emits_all (modal_footer s) \<longleftrightarrow>
     \<not> showCreateNew s \<and> m_datasets s \<noteq> [] \<and> selectedDatasetId s \<noteq> [] \<and> \<not> m_saving s"
  by (cases "selectedDatasetId s = [] \<or> m_saving s"; auto simp: modal_footer_def)+

lemma emits_bulk_save:
  "SaveNow \<in> emits (BulkAddToDatasetModal s) \<longleftrightarrow>
     \<not> showCreateNew s \<and> m_datasets s \<noteq> [] \<and> selectedDatasetId s \<noteq> [] \<and> \<not> m_saving s"
  using emits_dataset_part(1) [of "''Loading datasets''" s]
  by (auto simp: BulkAddToDatasetModal_def emits_modal_footer(2))

lemma emits_save_save:
  "SaveNow \<in> emits (SaveToDatasetModal s) \<longleftrightarrow>
     \<not> showCreateNew s \<and> m_datasets s \<noteq> [] \<and> selectedDatasetId s \<noteq> [] \<and> \<not> m_saving s"
  using emits_dataset_part(1) [of "''Loading''" s]
  by (auto simp: SaveToDatasetModal_def emits_modal_footer(2))

section \<open>Invariants of both dialogs\<close>

fun is_save :: "modal_call \<Rightarrow> bool" where
  "is_save (SaveCall d items) = True" | "is_save _ = False"

definition modal_inv :: "jsstring list \<Rightarrow> 'a dataset_modal_scheme \<Rightarrow> bool" where
  "modal_inv ids s \<longleftrightarrow>
     (m_loading s \<longrightarrow> (\<exists>c. DatasetsCall c \<in> set (m_calls s))) \<and>
     (m_creating s \<longrightarrow> (\<exists>n. CreateDatasetCall n \<in> set (m_calls s)) \<or> DatasetsCall True \<in> set (m_calls s)) \<and>
     length (filter is_save (m_calls s)) = (if m_saving s then 1 else 0) \<and>
     (\<forall>d items. SaveCall d items \<in> set (m_calls s) \<longrightarrow> d \<noteq> [] \<and> map ni_source_span_id items = ids)"

lemmas modal_defs = modal_inv_def m_send_def tell_def fetchDatasets_def datasets_end_def take_datasets_def
  handleCreateDataset_def create_dataset_end_def save_items_def save_failed_def Let_def

lemma modal_inv_handle: "modal_inv ids s \<Longrightarrow> modal_inv ids (modal_handle m s)"
  by (cases m) (auto simp: modal_defs)

lemma modal_inv_save:
  "modal_inv ids s \<Longrightarrow> \<not> m_saving s \<Longrightarrow> map ni_source_span_id items = ids \<Longrightarrow> modal_inv ids (save_items items s)"
  by (auto simp: modal_defs)

lemma modal_inv_datasets:
  "modal_inv ids s \<Longrightarrow> m_calls s = xs @ DatasetsCall c # ys \<Longrightarrow>
     modal_inv ids (datasets_end c ds (s\<lparr>m_calls := xs @ ys\<rparr>))"
  by (cases ds) (auto simp: modal_defs split: option.splits list.splits if_splits)

lemma modal_inv_create:
  "modal_inv ids s \<Longrightarrow> m_calls s = xs @ CreateDatasetCall n # ys \<Longrightarrow>
     modal_inv ids (create_dataset_end r (s\<lparr>m_calls := xs @ ys\<rparr>))"
  by (cases r) (auto simp: modal_defs)

lemma modal_inv_saved:
  assumes "modal_inv ids s" "m_calls s = xs @ SaveCall d items # ys"
  shows "modal_inv ids (s\<lparr>m_calls := xs @ ys, m_saving := False\<rparr>)"
  using assms by (auto simp: modal_defs split: if_splits)

text \<open>What the shared operations leave alone.\<close>

lemma save_frame [simp]:
  fixes s :: save_modal
  shows "sm_span (modal_handle m s) = sm_span s" "sm_span (datasets_end c ds s) = sm_span s"
    "sm_span (create_dataset_end r s) = sm_span s"
  by (cases m; simp add: modal_defs)
    (cases ds; simp add: modal_defs split: option.splits list.splits; fail | cases r; simp add: modal_defs)+

lemma bulk_frame [simp]:
  fixes s :: bulk_modal
  shows "bm_spans (modal_handle m s) = bm_spans s" "bm_spans (datasets_end c ds s) = bm_spans s"
    "bm_spans (create_dataset_end r s) = bm_spans s"
  by (cases m; simp add: modal_defs)
    (cases ds; simp add: modal_defs split: option.splits list.splits; fail | cases r; simp add: modal_defs)+

lemma save_invariant: "save_run s \<Longrightarrow> modal_inv [sm_span s] s"
proof (induction rule: save_run.induct)
  case (save_user s m)
  show ?case
  proof (cases "m = SaveNow")
    case True
    with save_user have "\<not> m_saving s" by (simp add: emits_save_save)
    then have "modal_inv [sm_span s] (save_items [one_item s] s)"
      by (intro modal_inv_save) (auto simp: save_user.IH one_item_def)
    with True show ?thesis by (simp add: save_items_def m_send_def split: if_splits)
  next
    case False
    show ?thesis
    proof (cases "\<exists>v. m = ExpectedOutput v")
      case True
      then obtain v where "m = ExpectedOutput v" by blast
      with save_user.IH show ?thesis by (simp add: modal_inv_def)
    next
      case False
      with \<open>m \<noteq> SaveNow\<close> have "save_handle m s = modal_handle m s" by (cases m) auto
      with modal_inv_handle [OF save_user.IH, of m] show ?thesis by (simp del: save_handle.simps modal_handle.simps)
    qed
  qed
next
  case (save_datasets s xs c ys ds)
  then show ?case using modal_inv_datasets [OF save_datasets.IH save_datasets.hyps(2)] by simp
next
  case (save_create s xs n ys r)
  then show ?case using modal_inv_create [OF save_create.IH save_create.hyps(2)] by simp
next
  case (save_saved s xs d items ys u)
  then show ?case using modal_inv_saved [OF save_saved.IH save_saved.hyps(2)]
    by (cases u) (auto simp: save_end_def save_failed_def tell_def modal_inv_def)
qed (auto simp: open_save_modal_def modal_defs dataset_modal.defs save_modal.defs new_modal_def)

lemma bulk_invariant: "bulk_run s \<Longrightarrow> modal_inv (bm_spans s) s"
proof (induction rule: bulk_run.induct)
  case (bulk_user s m)
  show ?case
  proof (cases "m = SaveNow")
    case True
    with bulk_user have "\<not> m_saving s" by (simp add: emits_bulk_save)
    then have "modal_inv (bm_spans s) (save_items (map (bulk_item s) (bm_spans s)) s)"
      by (intro modal_inv_save) (auto simp: bulk_user.IH bulk_item_def comp_def)
    with True show ?thesis by (simp add: save_items_def m_send_def split: if_splits)
  next
    case False
    then have "bulk_handle m s = modal_handle m s" by (cases m) auto
    with modal_inv_handle [OF bulk_user.IH, of m] show ?thesis by (simp del: bulk_handle.simps modal_handle.simps)
  qed
next
  case (bulk_datasets s xs c ys ds)
  then show ?case using modal_inv_datasets [OF bulk_datasets.IH bulk_datasets.hyps(2)] by simp
next
  case (bulk_spans s xs ids ys r)
  then show ?case by (cases r) (auto simp: span_data_end_def modal_inv_def split: option.splits)
next
  case (bulk_create s xs n ys r)
  then show ?case using modal_inv_create [OF bulk_create.IH bulk_create.hyps(2)] by simp
next
  case (bulk_saved s xs d items ys a)
  then show ?case using modal_inv_saved [OF bulk_saved.IH bulk_saved.hyps(2)]
    by (cases a) (auto simp: batch_end_def save_failed_def tell_def modal_inv_def Let_def)
qed (auto simp: open_bulk_modal_def modal_defs dataset_modal.defs bulk_modal.defs new_modal_def)

section \<open>What runs show\<close>

text \<open>
  C27: a dialog saves at most once at a time. While it says so, exactly one save is on its way, and none
  otherwise; what is sent names exactly the spans the dialog was opened for, in their order, for a dataset
  that was chosen; and its other two indicators are shown only while a call that ends them is in flight.
\<close>

theorem one_save_at_a_time:
  assumes "bulk_run s" and "save_run t"
  shows "length (filter is_save (m_calls s)) = (if m_saving s then 1 else 0) \<and>
    length (filter is_save (m_calls t)) = (if m_saving t then 1 else 0) \<and>
    (\<forall>d items. SaveCall d items \<in> set (m_calls s) \<longrightarrow> d \<noteq> [] \<and> map ni_source_span_id items = bm_spans s) \<and>
    (\<forall>d items. SaveCall d items \<in> set (m_calls t) \<longrightarrow> d \<noteq> [] \<and> map ni_source_span_id items = [sm_span t]) \<and>
    (m_loading s \<longrightarrow> (\<exists>c. DatasetsCall c \<in> set (m_calls s))) \<and>
    (m_creating s \<longrightarrow> (\<exists>n. CreateDatasetCall n \<in> set (m_calls s)) \<or> DatasetsCall True \<in> set (m_calls s))"
  using bulk_invariant [OF assms(1)] save_invariant [OF assms(2)] unfolding modal_inv_def by blast

definition demo_dataset :: DatasetItem where
  "demo_dataset = \<lparr>ds_id = js ''d1'', ds_name = js ''D'', ds_created_at = [], ds_item_count = Fin 0\<rparr>"

text \<open>The only dataset has been loaded; the spans have not.\<close>

definition bulk_ready :: bulk_modal where
  "bulk_ready = datasets_end False (Ok (Some [demo_dataset]))
     ((open_bulk_modal [js ''s1'', js ''s2''])\<lparr>m_calls := [] @ [SpansCall [js ''s1'', js ''s2'']]\<rparr>)"

lemmas bulk_open_defs = open_bulk_modal_def dataset_modal.defs bulk_modal.defs new_modal_def

lemma run_bulk_ready: "bulk_run bulk_ready"
  unfolding bulk_ready_def
  by (rule bulk_datasets [OF bulk_open]) (simp add: bulk_open_defs modal_defs)

lemma bulk_ready_simps [simp]:
  "m_calls bulk_ready = [SpansCall [js ''s1'', js ''s2'']]" "m_datasets bulk_ready = [demo_dataset]"
  "selectedDatasetId bulk_ready = js ''d1''" "\<not> m_saving bulk_ready" "\<not> showCreateNew bulk_ready"
  "fetchedSpans bulk_ready = []" "bm_spans bulk_ready = [js ''s1'', js ''s2'']" "newDatasetName bulk_ready = []"
  by (simp_all add: bulk_ready_def bulk_open_defs modal_defs demo_dataset_def)

lemma run_bulk_saving: "bulk_run (bulk_handle SaveNow bulk_ready)"
  by (rule bulk_user [OF run_bulk_ready]) (simp add: emits_bulk_save)

lemma one_save_at_a_time_witness:
  "length (filter is_save (m_calls (bulk_handle SaveNow bulk_ready))) = 1 \<and>
   length (filter is_save (m_calls (open_save_modal (js ''s'') (js ''t'') (js ''in'') None))) = 0"
proof -
  have "m_saving (bulk_handle SaveNow bulk_ready)" "\<not> m_saving (open_save_modal (js ''s'') (js ''t'') (js ''in'') None)"
    by (simp_all add: save_items_def m_send_def open_save_modal_def fetchDatasets_def dataset_modal.defs
        save_modal.defs new_modal_def)
  with one_save_at_a_time [OF run_bulk_saving save_open [of "js ''s''" "js ''t''" "js ''in''" None]]
  show ?thesis by simp
qed

text \<open>
  Saving does not wait for the contents of the spans. Once the only dataset has been loaded the dialog can
  be saved, and if the spans have not arrived by then every item goes out with an empty input, which the
  service skips.
\<close>

theorem early_save_sends_no_input:
  "\<exists>s d items ids. bulk_run s \<and> SpansCall ids \<in> set (m_calls s) \<and> SaveCall d items \<in> set (m_calls s) \<and>
     map ni_input items = [[], []] \<and> map ni_expected_output items = [None, None]"
proof -
  let ?s = "bulk_handle SaveNow bulk_ready"
  let ?items = "map (bulk_item bulk_ready) [js ''s1'', js ''s2'']"
  have "SaveCall (js ''d1'') ?items \<in> set (m_calls ?s)" "SpansCall [js ''s1'', js ''s2''] \<in> set (m_calls ?s)"
    by (simp_all add: save_items_def m_send_def)
  moreover have "map ni_input ?items = [[], []]" "map ni_expected_output ?items = [None, None]"
    by (simp_all add: bulk_item_def span_data_def)
  ultimately show ?thesis using run_bulk_saving by (intro exI conjI)
qed

text \<open>
  The Enter key is not guarded by the indicator that disables the button, so pressing it twice creates two
  datasets of the same name.
\<close>

theorem enter_creates_twice:
  "\<exists>s. bulk_run s \<and> filter (\<lambda>c. c = CreateDatasetCall (js ''new'')) (m_calls s) =
     [CreateDatasetCall (js ''new''), CreateDatasetCall (js ''new'')]"
proof -
  let ?s1 = "bulk_handle ShowCreate bulk_ready"
  have s1: "bulk_run ?s1"
    by (rule bulk_user [OF run_bulk_ready]) (simp add: BulkAddToDatasetModal_def emits_dataset_part)
  let ?s2 = "bulk_handle (NameInput (js ''new'')) ?s1"
  have s2: "bulk_run ?s2"
    by (rule bulk_user [OF s1]) (simp add: BulkAddToDatasetModal_def emits_dataset_part)
  have nm: "trim (js ''new'') = js ''new''"
    by (simp add: trim_def trim_start_def js_def is_space_unit_def)
  let ?s3 = "bulk_handle CreateNow ?s2"
  have s3: "bulk_run ?s3"
    by (rule bulk_user [OF s2]) (simp add: BulkAddToDatasetModal_def emits_dataset_part nm)
  have "bulk_run (bulk_handle CreateNow ?s3)"
    by (rule bulk_user [OF s3])
      (simp add: BulkAddToDatasetModal_def emits_dataset_part handleCreateDataset_def m_send_def nm)
  moreover have "filter (\<lambda>c. c = CreateDatasetCall (js ''new'')) (m_calls (bulk_handle CreateNow ?s3)) =
     [CreateDatasetCall (js ''new''), CreateDatasetCall (js ''new'')]"
    by (simp add: handleCreateDataset_def m_send_def nm)
  ultimately show ?thesis by blast
qed

end
