(* ===== verification/Traces.thy ===== *)
theory Traces
  imports Formatters TimeRange SpanKinds Ui FilterGroup
begin

text \<open>
  \<open>ui/src/pages/Traces.tsx\<close>, the data: spans, the filters of the side bar and the request they make, the text
  inputs for lists, and the cells of the table. The page itself is in \<open>TracesPage\<close>.
\<close>

section \<open>Spans and requests\<close>

record Span =
  sp_span_id :: jsstring
  sp_trace_id :: jsstring
  sp_parent_id :: jsstring
  sp_project_id :: jsstring
  sp_name :: jsstring
  sp_kind :: jsstring
  sp_model :: "jsstring option"
  sp_start_time :: jsstring
  sp_end_time :: jsstring
  sp_cost_usd :: jsnum
  sp_input_tokens :: jsnum
  sp_output_tokens :: jsnum
  sp_input :: "jsstring option"
  sp_output :: "jsstring option"
  sp_status_code :: "jsstring option"
  sp_span_count :: "jsnum option"
  sp_kind_counts :: "(jsstring \<times> jsnum) list option"

datatype filter_operand = Operand jsstring | Operands "jsstring list" | Bound jsnum

record QueryFilter =
  qf_field :: string
  qf_op :: string
  qf_value :: filter_operand

record SpanQueryRequest =
  rq_project_id :: jsstring
  rq_window :: time_window
  rq_limit :: jsnum
  rq_cursor :: "jsstring option"
  rq_filters :: "QueryFilter list option"

section \<open>The filters of the side bar\<close>

text \<open>A list of values, or a range whose ends may be empty.\<close>

datatype filter_value = Values "jsstring list" | Range (range_min: "jsnum option") (range_max: "jsnum option")

type_synonym FilterState = "(string \<times> filter_value) list"

definition FILTER_SECTIONS :: "string list" where
  "FILTER_SECTIONS = [''trace_name'', ''model'', ''kind'', ''status'', ''duration'', ''tokens'', ''cost'']"

definition FILTER_LABELS :: "(string \<times> string) list" where
  "FILTER_LABELS =
     [(''trace_name'', ''Trace Name''), (''model'', ''Model''), (''kind'', ''Kind''), (''status'', ''Status Code''),
      (''duration'', ''Duration''), (''tokens'', ''Tokens''), (''cost'', ''Cost'')]"

definition KNOWN_KINDS :: "string list" where
  "KNOWN_KINDS = [''llm'', ''tool'', ''agent'', ''chain'']"

definition DEFAULT_FILTERS :: FilterState where
  "DEFAULT_FILTERS =
     [(''trace_name'', Values []), (''model'', Values []), (''kind'', Values []), (''status'', Values []),
      (''duration'', Range None None), (''tokens'', Range None None), (''cost'', Range None None)]"

record section_config =
  sc_field :: string
  sc_op :: string
  sc_range :: bool

definition config :: "string \<Rightarrow> string \<Rightarrow> bool \<Rightarrow> section_config" where
  "config f p r = \<lparr>sc_field = f, sc_op = p, sc_range = r\<rparr>"

definition filterSectionConfig :: "(string \<times> section_config) list" where
  "filterSectionConfig =
     [(''trace_name'', config ''name'' ''in'' False), (''model'', config ''model'' ''in'' False),
      (''kind'', config ''kind'' ''in'' False), (''status'', config ''status_code'' ''in'' False),
      (''duration'', config ''duration_ms'' ''gte'' True), (''tokens'', config ''input_tokens'' ''gte'' True),
      (''cost'', config ''cost_usd'' ''gte'' True)]"

definition query_filter :: "string \<Rightarrow> string \<Rightarrow> filter_operand \<Rightarrow> QueryFilter" where
  "query_filter f p v = \<lparr>qf_field = f, qf_op = p, qf_value = v\<rparr>"

definition end_filter :: "string \<Rightarrow> string \<Rightarrow> jsnum option \<Rightarrow> QueryFilter list" where
  "end_filter f p e = (case e of Some n \<Rightarrow> [query_filter f p (Bound n)] | None \<Rightarrow> [])"

definition section_filters :: "string \<Rightarrow> filter_value \<Rightarrow> QueryFilter list" where
  "section_filters sec v =
     (case (v, map_of filterSectionConfig sec) of
        (Values vs, Some c) \<Rightarrow>
          if vs \<noteq> [] \<and> \<not> sc_range c then [query_filter (sc_field c) (sc_op c) (Operands vs)] else []
      | (Range lo hi, Some c) \<Rightarrow>
          if sc_range c
          then end_filter (sc_field c) (sc_op c) lo @
               end_filter (sc_field c) (if sc_op c = ''gte'' then ''lte'' else ''gte'') hi
          else []
      | (_, None) \<Rightarrow> [])"

definition buildFiltersFromState :: "FilterState \<Rightarrow> QueryFilter list" where
  "buildFiltersFromState fs = concat (map (\<lambda>(sec, v). section_filters sec v) fs)"

definition QUERY_TIMEOUT_MS :: nat where "QUERY_TIMEOUT_MS = 30000"

definition NARROW_TIME_RANGES :: "string list" where "NARROW_TIME_RANGES = [''1h'', ''6h'', ''1d'']"

text \<open>The request for one page of rows; the clock gives the window.\<close>

definition request_filters :: "jsstring \<Rightarrow> FilterState \<Rightarrow> QueryFilter list option" where
  "request_filters search fs =
     (let name = (if search \<noteq> [] then Some [query_filter ''name'' ''contains'' (Operand search)] else None);
          built = buildFiltersFromState fs
      in if built \<noteq> [] then Some ((case name of Some x \<Rightarrow> x | None \<Rightarrow> []) @ built) else name)"

definition span_query ::
    "int \<Rightarrow> jsstring \<Rightarrow> jsstring option \<Rightarrow> jsnum \<Rightarrow> jsstring \<Rightarrow> FilterState \<Rightarrow> jsstring \<Rightarrow>
     (js_error, SpanQueryRequest) result" where
  "span_query now project preset limit search fs cursor =
     and_then (presetToFromTo now preset) (\<lambda>w. Inr
       \<lparr>rq_project_id = project, rq_window = w, rq_limit = limit,
        rq_cursor = (if cursor \<noteq> [] then Some cursor else None), rq_filters = request_filters search fs\<rparr>)"

section \<open>Lists typed as text\<close>

definition values_text :: "jsstring list \<Rightarrow> jsstring" where
  "values_text vs = join (js '', '') vs"

definition parse_values :: "jsstring \<Rightarrow> jsstring list" where
  "parse_values input = filter (\<lambda>s. s \<noteq> []) (map trim (split_unit 0x2C input))"

text \<open>\<open>Array.from(new Set(xs))\<close>: the first of equal elements is kept.\<close>

definition js_set :: "'a list \<Rightarrow> 'a list" where
  "js_set xs = rev (remdups (rev xs))"

text \<open>Applying the text of the model filter keeps the known models that are checked.\<close>

definition merge_models :: "jsstring list \<Rightarrow> jsstring list \<Rightarrow> jsstring list \<Rightarrow> jsstring list" where
  "merge_models known checked vals = js_set (filter (\<lambda>v. v \<in> set known) checked @ vals)"

definition toggle_value :: "jsstring list \<Rightarrow> jsstring \<Rightarrow> jsstring list" where
  "toggle_value vs x = (if x \<in> set vs then filter (\<lambda>v. v \<noteq> x) vs else vs @ [x])"

text \<open>\<open>raw === "" ? "" : Math.max(0, Number(raw))\<close>\<close>

definition range_end :: "jsstring \<Rightarrow> jsnum option" where
  "range_end raw = (if raw = [] then None else Some (num_max (Fin 0) (string_to_number raw)))"

definition formatRange :: "jsnum option \<Rightarrow> jsnum option \<Rightarrow> jsstring" where
  "formatRange lo hi =
     (if lo = None \<and> hi = None then []
      else (case lo of None \<Rightarrow> js ''0'' | Some n \<Rightarrow> num_to_string n) @ en_dash @
           (case hi of None \<Rightarrow> infinity_sign | Some n \<Rightarrow> num_to_string n))"

section \<open>Cells\<close>

definition SPAN_KIND_LABELS :: "(string \<times> string) list" where
  "SPAN_KIND_LABELS = [(''llm'', ''LLM''), (''tool'', ''Tool''), (''agent'', ''Agent''), (''chain'', ''Chain''),
     (''internal'', ''Internal'')]"

definition pill_label :: "jsstring \<Rightarrow> jsstring" where
  "pill_label kind =
     (case kind_entry SPAN_KIND_LABELS kind of Some l \<Rightarrow> js l | None \<Rightarrow> to_upper (take 3 kind))"

definition pill :: "jsstring \<Rightarrow> jsnum \<Rightarrow> 'm view" where
  "pill kind count =
     (let displayName = pill_label kind @ js '' '' @ num_to_string count
      in Elem ''span'' [(''role'', pstr ''status''), (''title'', PStr displayName), (''aria-label'', PStr displayName)] []
           [Text (to_upper (take 3 kind)), tx '' '', Text (num_to_string count)])"

definition ObservationPills :: "(jsstring \<times> jsnum) list option \<Rightarrow> 'm view list" where
  "ObservationPills kindCounts =
     (case kindCounts of
        None \<Rightarrow> []
      | Some kcs \<Rightarrow> shown (kcs \<noteq> []) [box (map (\<lambda>(k, n). pill k n) kcs)])"

definition BookmarkStar :: "bool \<Rightarrow> 'm \<Rightarrow> 'm view" where
  "BookmarkStar starred m =
     (let t = (if starred then ''Remove bookmark'' else ''Bookmark this trace'')
      in button_with [(''title'', pstr t), (''aria-label'', pstr t)] m [])"

definition preview_or_dash :: "jsstring option \<Rightarrow> jsstring" where
  "preview_or_dash s =
     (case s of Some t \<Rightarrow> if t \<noteq> [] then formatJsonPreview t 40 else em_dash | None \<Rightarrow> em_dash)"

definition name_cell :: "Span \<Rightarrow> 'm \<Rightarrow> (js_error, 'm view) result" where
  "name_cell s m =
     and_then (getSpanKindColor (sp_kind s)) (\<lambda>c.
     and_then (SpanKindIcon (sp_kind s)) (\<lambda>icon. Inr
       (button_with [(''title'', pstr ''View trace'')] m
          [box [Elem ''span'' [(''title'', PStr (sp_kind s)), (''color'', pstr c)] [] [icon],
                inline [Text (sp_name s)]],
           box [Text (take 12 (sp_trace_id s) @ ellipsis)]])))"

definition tokens_cell :: "runtime \<Rightarrow> Span \<Rightarrow> 'm view" where
  "tokens_cell rt s =
     inline [Text (rt_locale_number rt (totalTokens (sp_input_tokens s) (sp_output_tokens s))),
       inline [Text (js ''('' @ num_to_string (num_max (Fin 0) (sp_input_tokens s)) @ js ''+'' @
         num_to_string (num_max (Fin 0) (sp_output_tokens s)) @ js '')'')]]"

text \<open>The messages of the bookmark and of the name are the owner's.\<close>

definition TableCellRenderer ::
    "runtime \<Rightarrow> int \<Rightarrow> string \<Rightarrow> Span \<Rightarrow> jsstring list \<Rightarrow> (jsstring \<Rightarrow> 'm) \<Rightarrow> (jsstring \<Rightarrow> 'm) \<Rightarrow>
     (js_error, 'm view list) result" where
  "TableCellRenderer rt now col s bookmarks onToggleBookmark onOpenTrace =
     (if col = ''bookmark''
      then Inr [BookmarkStar (sp_trace_id s \<in> set bookmarks) (onToggleBookmark (sp_trace_id s))]
      else if col = ''timestamp'' then Inr [inline [Text (formatTimeWithYear rt now (sp_start_time s))]]
      else if col = ''name'' then and_then (name_cell s (onOpenTrace (sp_trace_id s))) (\<lambda>v. Inr [v])
      else if col = ''input'' then Inr [box [Text (preview_or_dash (sp_input s))]]
      else if col = ''output'' then Inr [box [Text (preview_or_dash (sp_output s))]]
      else if col = ''observationLevels'' then Inr (ObservationPills (sp_kind_counts s))
      else if col = ''latency'' then Inr [inline [Text (formatDuration rt (sp_start_time s) (sp_end_time s))]]
      else if col = ''tokens'' then Inr [tokens_cell rt s]
      else if col = ''cost'' then Inr [inline [Text (formatCost (Some (sp_cost_usd s)))]]
      else Inr [])"

section \<open>The text inputs\<close>

definition apply_button :: "'m \<Rightarrow> 'm view" where
  "apply_button m = button m [tx ''Apply'']"

definition TextFilter :: "jsstring \<Rightarrow> (jsstring \<Rightarrow> 'm) \<Rightarrow> 'm \<Rightarrow> jsstring \<Rightarrow> 'm view" where
  "TextFilter input onType onApply placeholder =
     box [Elem ''input'' [(''type'', pstr ''text''), (''value'', PStr input), (''placeholder'', PStr placeholder)]
            [OnChange (\<lambda>v. Some (onType v))] [],
          apply_button onApply]"

definition CheckboxFilter ::
    "jsstring list \<Rightarrow> (jsstring \<times> jsstring) list \<Rightarrow> jsstring list \<Rightarrow> (jsstring list \<Rightarrow> 'm) \<Rightarrow> 'm view" where
  "CheckboxFilter options labels vs onApply =
     box (map (\<lambda>x. Elem ''label'' [] []
       [Elem ''input'' [(''type'', pstr ''checkbox''), (''checked'', PBool (x \<in> set vs))]
          [OnToggle (onApply (toggle_value vs x))] [],
        inline [Text (case map_of labels x of Some l \<Rightarrow> l | None \<Rightarrow> x)]]) options)"

definition range_input :: "string \<Rightarrow> jsnum option \<Rightarrow> string \<Rightarrow> (jsnum option \<Rightarrow> 'm) \<Rightarrow> 'm view" where
  "range_input label v placeholder onEdit =
     box [inline [tx label],
          Elem ''input''
            [(''type'', pstr ''number''), (''value'', case v of Some n \<Rightarrow> PNum n | None \<Rightarrow> PStr []),
             (''placeholder'', pstr placeholder), (''min'', PNum (Fin 0))]
            [OnChange (\<lambda>raw. Some (onEdit (range_end raw)))] []]"

definition RangeFilterField ::
    "jsnum option \<Rightarrow> jsnum option \<Rightarrow> string \<Rightarrow> string \<Rightarrow> string \<Rightarrow> (filter_value \<Rightarrow> 'm) \<Rightarrow> 'm view" where
  "RangeFilterField lo hi minLabel maxLabel placeholder onApply =
     box [box [range_input minLabel lo placeholder (\<lambda>e. onApply (Range e hi)), inline [Text em_dash],
               range_input maxLabel hi placeholder (\<lambda>e. onApply (Range lo e))],
          apply_button (onApply (Range lo hi))]"

section \<open>Lemmas on lists typed as text\<close>

definition plain_value :: "jsstring \<Rightarrow> bool" where
  "plain_value v \<longleftrightarrow> v \<noteq> [] \<and> trim v = v \<and> 0x2C \<notin> set v"

lemma split_values_text:
  "vs \<noteq> [] \<Longrightarrow> \<forall>v\<in>set vs. 0x2C \<notin> set v \<Longrightarrow>
     split_unit 0x2C (values_text vs) = hd vs # map (\<lambda>v. 0x20 # v) (tl vs)"
proof (induction vs rule: induct_list012)
  case (2 v)
  then show ?case by (simp add: values_text_def split_unit_single)
next
  case (3 v w vs)
  have "values_text (v # w # vs) = v @ 0x2C # 0x20 # values_text (w # vs)"
    by (simp add: values_text_def js_def)
  moreover have "split_unit 0x2C (0x20 # values_text (w # vs)) = (0x20 # w) # map (\<lambda>v. 0x20 # v) vs"
    using 3 by simp
  ultimately show ?case using 3 by (simp add: split_unit_append)
qed simp

lemma parse_values_text:
  assumes "\<forall>v\<in>set vs. plain_value v"
  shows "parse_values (values_text vs) = vs"
proof (cases vs)
  case (Cons v ws)
  have pad: "trim (0x20 # u) = trim u" for u
    by (simp add: trim_def trim_start_def is_space_unit_def)
  have "split_unit 0x2C (values_text vs) = v # map (\<lambda>v. 0x20 # v) ws"
    using split_values_text [of vs] assms Cons by (auto simp: plain_value_def)
  moreover have "map trim (map (\<lambda>v. 0x20 # v) ws) = ws"
    using assms Cons by (auto simp: pad plain_value_def intro!: map_idI)
  ultimately show ?thesis using assms Cons by (auto simp: parse_values_def plain_value_def intro!: filter_True)
qed (simp add: parse_values_def values_text_def trim_def trim_start_def)

text \<open>
  A list typed as text settles. Whatever is typed, applying it and applying again the text the input then
  shows gives the same list; and a list of trimmed, non-empty values without commas is exactly what its text
  stands for.
\<close>

theorem typed_list_settles:
  "parse_values (values_text (parse_values s)) = parse_values s \<and>
   (\<forall>vs. (\<forall>v\<in>set vs. v \<noteq> [] \<and> trim v = v \<and> 0x2C \<notin> set v) \<longrightarrow> parse_values (values_text vs) = vs)"
proof
  have "plain_value v" if "v \<in> set (parse_values s)" for v
    using that split_unit_free [of _ "0x2C" s]
    by (auto simp: parse_values_def plain_value_def trim_idem dest: set_trim [THEN subsetD])
  then show "parse_values (values_text (parse_values s)) = parse_values s"
    by (intro parse_values_text) blast
  show "\<forall>vs. (\<forall>v\<in>set vs. v \<noteq> [] \<and> trim v = v \<and> 0x2C \<notin> set v) \<longrightarrow> parse_values (values_text vs) = vs"
    using parse_values_text unfolding plain_value_def by blast
qed

lemma typed_list_settles_witness:
  "parse_values (values_text [js ''gpt-4'', js ''claude 3'']) = [js ''gpt-4'', js ''claude 3'']"
proof -
  have "\<forall>v\<in>set [js ''gpt-4'', js ''claude 3'']. v \<noteq> [] \<and> trim v = v \<and> 0x2C \<notin> set v"
    by (simp add: js_def trim_def trim_start_def is_space_unit_def)
  with typed_list_settles show ?thesis by blast
qed

end
