(* ===== verification/LatestOnly.thy ===== *)
theory LatestOnly
  imports Prelude
begin

text \<open>
  Pages that number their requests and apply only the answer to the latest one. What such a page has in
  common: a sequence number, the requests in flight with their numbers, an indicator that it is loading, and
  what it shows. The laws are those of starting a request and of applying an answer; the lemmas are what
  the pages rely on.
\<close>

locale latest_only =
  fixes seq :: "'s \<Rightarrow> nat" and inflight :: "'s \<Rightarrow> 'c list" and number :: "'c \<Rightarrow> nat" and busy :: "'s \<Rightarrow> bool"
    and visible :: "'s \<Rightarrow> 'v" and start :: "'p \<Rightarrow> 's \<Rightarrow> 's" and finish :: "'c \<Rightarrow> 'r \<Rightarrow> 's \<Rightarrow> 's"
  assumes start_seq: "seq (start p s) = seq s + 1"
    and start_call: "\<exists>c. inflight (start p s) = inflight s @ [c] \<and> number c = seq s + 1"
    and start_busy: "busy (start p s)"
    and finish_seq: "seq (finish c r s) = seq s"
    and finish_call: "inflight (finish c r s) = remove1 c (inflight s)"
    and finish_busy: "busy (finish c r s) \<longleftrightarrow> busy s \<and> number c \<noteq> seq s"
    and stale: "number c \<noteq> seq s \<Longrightarrow> visible (finish c r s) = visible s"
begin

definition gate :: "'s \<Rightarrow> bool" where
  "gate s \<longleftrightarrow> distinct (map number (inflight s)) \<and> (\<forall>c\<in>set (inflight s). number c \<le> seq s) \<and>
     (busy s \<longleftrightarrow> (\<exists>c\<in>set (inflight s). number c = seq s))"

lemma gate_start:
  assumes "gate s"
  shows "gate (start p s)"
proof -
  obtain c where c: "inflight (start p s) = inflight s @ [c]" "number c = seq s + 1" using start_call by blast
  then show ?thesis using assms by (fastforce simp: gate_def start_seq start_busy)
qed

lemma gate_finish:
  assumes "gate s" and "c \<in> set (inflight s)"
  shows "gate (finish c r s)"
proof -
  have d: "distinct (inflight s)" "inj_on number (set (inflight s))"
    using assms(1) by (auto simp: gate_def distinct_map)
  have "distinct (map number (remove1 c (inflight s)))"
    using d by (auto simp: distinct_map intro: inj_on_subset dest: notin_set_remove1)
  moreover have "(\<exists>x\<in>set (inflight s) - {c}. number x = seq s) \<longleftrightarrow> busy s \<and> number c \<noteq> seq s"
    using assms d(2) by (auto simp: gate_def inj_on_def)
  ultimately show ?thesis
    using assms(1) d(1) by (auto simp: gate_def finish_seq finish_call finish_busy set_remove1_eq)
qed

lemma gate_frame:
  "gate s \<Longrightarrow> seq t = seq s \<Longrightarrow> inflight t = inflight s \<Longrightarrow> busy t = busy s \<Longrightarrow> gate t"
  by (simp add: gate_def)

lemma gate_new: "inflight s = [] \<Longrightarrow> \<not> busy s \<Longrightarrow> gate s"
  by (simp add: gate_def)

text \<open>A request that was given a number but never sent.\<close>

lemma gate_abort: "gate s \<Longrightarrow> seq t = seq s + 1 \<Longrightarrow> inflight t = inflight s \<Longrightarrow> \<not> busy t \<Longrightarrow> gate t"
  by (fastforce simp: gate_def)

text \<open>The latest request is unique, and once it has been answered none is left.\<close>

lemma latest_unique:
  "gate s \<Longrightarrow> c \<in> set (inflight s) \<Longrightarrow> d \<in> set (inflight s) \<Longrightarrow> number c = seq s \<Longrightarrow> number d = seq s \<Longrightarrow> c = d"
  by (auto simp: gate_def distinct_map inj_on_def)

lemma superseded:
  "gate s \<Longrightarrow> c \<in> set (inflight s) \<Longrightarrow> number c \<noteq> seq s \<Longrightarrow> number c < seq s \<and> visible (finish c r s) = visible s"
  by (auto simp: gate_def stale order.strict_iff_order)

text \<open>Starting a request makes the answers to all earlier ones invisible.\<close>

lemma start_supersedes:
  "gate s \<Longrightarrow> c \<in> set (inflight s) \<Longrightarrow> visible (finish c r (start p s)) = visible (start p s)"
  by (rule stale) (auto simp: gate_def start_seq)

end

end
