(* ===== verification/TracesPage.thy ===== *)
theory TracesPage
  imports Traces LatestOnly
begin

text \<open>
  \<open>ui/src/pages/Traces.tsx\<close>, the page: rows loaded page by page, filters, search, selection, bookmarks and the
  overlay. Its state has the requests in flight; handlers are cut at their \<open>await\<close>.
\<close>

section \<open>State\<close>

datatype query_state = Pending | Resolved | Failed

text \<open>
  React compares dependencies by identity. Every applied filter is a new object, so the filters carry a
  stamp, the defaults the stamp 0; so does each list, for the text input that follows it.
\<close>

record fetch_deps =
  fd_project :: jsstring
  fd_limit :: jsnum
  fd_filters :: nat
  fd_search :: jsstring
  fd_range :: "jsstring option"

record trace_call =
  tc_seq :: nat
  tc_append :: bool
  tc_cursor :: jsstring
  tc_request :: SpanQueryRequest
  tc_deps :: fetch_deps

text \<open>A mounted text input: its text and the stamp of the list it was last filled from.\<close>

type_synonym text_input = "(jsstring \<times> nat) option"

text \<open>The model filter, when mounted: the models it knows, its dependencies, and whether it waits for them.\<close>

type_synonym model_list = "(jsstring list \<times> (jsstring \<times> jsstring option) \<times> bool) option"

text \<open>
  The last two fields are ghosts: the pages that make up the rows, each with the dependencies and the cursor
  it was requested with and the cursor it gave, and whether the latest fresh load ended without an answer.
\<close>

record traces_page =
  tp_project :: jsstring
  tp_range :: "jsstring option"
  tp_overlay :: "jsstring option"
  tp_spans :: "Span list"
  nextCursor :: jsstring
  tp_loading :: bool
  queryState :: query_state
  pageSize :: jsnum
  searchQuery :: jsstring
  debouncedQuery :: jsstring
  search_timer :: "jsstring option"
  requestSeq :: nat
  autoRefresh :: bool
  columnVisibility :: "(string \<times> bool) list"
  expandedFilters :: "(string \<times> bool) list"
  filterState :: FilterState
  filter_stamp :: nat
  list_stamps :: "(string \<times> nat) list"
  last_stamp :: nat
  name_input :: text_input
  model_input :: text_input
  known_models :: model_list
  bookmarks :: "jsstring list"
  bookmark_posts :: "(jsstring \<times> bool) list"
  showColumnsMenu :: bool
  selectedSpanIds :: "jsstring list"
  isBulkModalOpen :: bool
  tp_calls :: "trace_call list"
  fetched :: "fetch_deps option"
  tp_pages :: "(fetch_deps \<times> jsstring \<times> jsstring \<times> Span list) list"
  tp_unanswered :: bool

definition deps :: "traces_page \<Rightarrow> fetch_deps" where
  "deps s = \<lparr>fd_project = tp_project s, fd_limit = pageSize s, fd_filters = filter_stamp s,
     fd_search = debouncedQuery s, fd_range = tp_range s\<rparr>"

section \<open>Loading rows\<close>

definition begin_request :: "jsstring \<Rightarrow> bool \<Rightarrow> SpanQueryRequest \<Rightarrow> traces_page \<Rightarrow> traces_page" where
  "begin_request cursor further rq s =
     s\<lparr>requestSeq := requestSeq s + 1, tp_loading := True,
       queryState := (if further then queryState s else Pending),
       tp_calls := tp_calls s @ [\<lparr>tc_seq = requestSeq s + 1, tc_append = further, tc_cursor = cursor,
         tc_request = rq, tc_deps = deps s\<rparr>]\<rparr>"

text \<open>
  \<open>fetchSpans\<close> up to its first \<open>await\<close>. When the window cannot be computed it throws after having taken a
  number, and only the indicator is reset.
\<close>

definition fetchSpans :: "int \<Rightarrow> jsstring \<Rightarrow> bool \<Rightarrow> traces_page \<Rightarrow> traces_page" where
  "fetchSpans now cursor further s =
     (case span_query now (tp_project s) (tp_range s) (pageSize s) (debouncedQuery s) (filterState s) cursor of
        Inr rq \<Rightarrow> begin_request cursor further rq s
      | Inl e \<Rightarrow> s\<lparr>requestSeq := requestSeq s + 1, tp_loading := False,
                   queryState := (if further then queryState s else Pending),
                   tp_unanswered := (tp_unanswered s \<or> \<not> further)\<rparr>)"

text \<open>
  What a request comes to: no answer (the network, or the timeout), an answer outside 2xx, a 2xx answer whose
  body cannot be read (also when the timeout strikes while it is read), or rows and the next cursor.
\<close>

datatype span_reply = NoAnswer | Refused | Unreadable | Rows "Span list option" "jsstring option"

definition take_rows :: "trace_call \<Rightarrow> Span list option \<Rightarrow> jsstring option \<Rightarrow> traces_page \<Rightarrow> traces_page" where
  "take_rows c rows next_cursor s =
     (let new = (case rows of Some xs \<Rightarrow> xs | None \<Rightarrow> []);
          cur = (case next_cursor of Some x \<Rightarrow> x | None \<Rightarrow> []);
          pg = (tc_deps c, tc_cursor c, cur, new)
      in s\<lparr>tp_spans := (if tc_append c then tp_spans s @ new else new), nextCursor := cur, queryState := Resolved,
           tp_pages := (if tc_append c then tp_pages s @ [pg] else [pg]),
           tp_unanswered := (tp_unanswered s \<and> tc_append c)\<rparr>)"

definition apply_reply :: "trace_call \<Rightarrow> span_reply \<Rightarrow> traces_page \<Rightarrow> traces_page" where
  "apply_reply c r s =
     (case r of
        NoAnswer \<Rightarrow> if tc_append c then s else s\<lparr>queryState := Failed, tp_unanswered := True\<rparr>
      | Refused \<Rightarrow> if tc_append c then s
                   else s\<lparr>tp_spans := [], nextCursor := [], queryState := Failed, tp_pages := [],
                          tp_unanswered := False\<rparr>
      | Unreadable \<Rightarrow> if tc_append c then s else s\<lparr>tp_unanswered := True\<rparr>
      | Rows rows cur \<Rightarrow> take_rows c rows cur s)"

definition end_request :: "trace_call \<Rightarrow> span_reply \<Rightarrow> traces_page \<Rightarrow> traces_page" where
  "end_request c r s =
     (if tc_seq c = requestSeq s then (apply_reply c r s)\<lparr>tp_loading := False\<rparr> else s)"

section \<open>Effects\<close>

definition section_value :: "string \<Rightarrow> traces_page \<Rightarrow> filter_value" where
  "section_value k s = (case map_of (filterState s) k of Some v \<Rightarrow> v | None \<Rightarrow> Values [])"

definition section_list :: "string \<Rightarrow> traces_page \<Rightarrow> jsstring list" where
  "section_list k s = (case section_value k s of Values vs \<Rightarrow> vs | Range _ _ \<Rightarrow> [])"

definition list_stamp :: "string \<Rightarrow> traces_page \<Rightarrow> nat" where
  "list_stamp k s = (case map_of (list_stamps s) k of Some n \<Rightarrow> n | None \<Rightarrow> 0)"

definition is_expanded :: "string \<Rightarrow> traces_page \<Rightarrow> bool" where
  "is_expanded k s \<longleftrightarrow> map_of (expandedFilters s) k = Some True"

text \<open>A text input is mounted with its section and follows its list.\<close>

definition sync_input :: "bool \<Rightarrow> nat \<Rightarrow> jsstring list \<Rightarrow> text_input \<Rightarrow> text_input" where
  "sync_input mounted stamp vs t =
     (if \<not> mounted then None
      else case t of
             Some (x, k) \<Rightarrow> if k = stamp then t else Some (values_text vs, stamp)
           | None \<Rightarrow> Some (values_text vs, stamp))"

text \<open>The model filter asks for the models of the project and window; an unknown preset asks nothing.\<close>

definition sync_models :: "int \<Rightarrow> bool \<Rightarrow> jsstring \<times> jsstring option \<Rightarrow> model_list \<Rightarrow> model_list" where
  "sync_models now mounted d m =
     (if \<not> mounted then None
      else let asks = (case presetToFromTo now (snd d) of Inr _ \<Rightarrow> True | Inl _ \<Rightarrow> False)
           in case m of
                None \<Rightarrow> Some ([], d, asks)
              | Some (known, d', waiting) \<Rightarrow> if d' = d then m else Some (known, d, asks))"

definition sync_filters :: "int \<Rightarrow> traces_page \<Rightarrow> traces_page" where
  "sync_filters now s =
     s\<lparr>name_input := sync_input (is_expanded ''trace_name'' s) (list_stamp ''trace_name'' s)
         (section_list ''trace_name'' s) (name_input s),
       model_input := sync_input (is_expanded ''model'' s) (list_stamp ''model'' s)
         (section_list ''model'' s) (model_input s),
       known_models := sync_models now (is_expanded ''model'' s) (tp_project s, tp_range s) (known_models s)\<rparr>"

text \<open>The rows of the answer with a model; a failure leaves the list.\<close>

definition models_end :: "jsstring option list option option \<Rightarrow> traces_page \<Rightarrow> traces_page" where
  "models_end rows s =
     (case (known_models s, rows) of
        (Some (known, d, True), Some xs) \<Rightarrow>
          s\<lparr>known_models := Some (filter (\<lambda>m. m \<noteq> []) (List.map_filter id (case xs of Some ys \<Rightarrow> ys | None \<Rightarrow> [])), d, False)\<rparr>
      | (Some (known, d, True), None) \<Rightarrow> s\<lparr>known_models := Some (known, d, False)\<rparr>
      | _ \<Rightarrow> s)"

text \<open>The one effect that fetches: a change of any dependency starts a fresh load.\<close>

definition fetch_effect :: "int \<Rightarrow> traces_page \<Rightarrow> traces_page" where
  "fetch_effect now s =
     (if fetched s = Some (deps s) then s else fetchSpans now [] False (s\<lparr>fetched := Some (deps s)\<rparr>))"

definition after_render :: "int \<Rightarrow> traces_page \<Rightarrow> traces_page" where
  "after_render now s = fetch_effect now (sync_filters now s)"

section \<open>Handlers\<close>

definition applyFilter :: "string \<Rightarrow> filter_value \<Rightarrow> traces_page \<Rightarrow> traces_page" where
  "applyFilter k v s =
     s\<lparr>filterState := assoc_set k v (filterState s), filter_stamp := last_stamp s + 1,
       list_stamps := assoc_set k (last_stamp s + 1) (list_stamps s), last_stamp := last_stamp s + 1\<rparr>"

definition clearFilters :: "traces_page \<Rightarrow> traces_page" where
  "clearFilters s =
     s\<lparr>filterState := DEFAULT_FILTERS, filter_stamp := 0, list_stamps := [],
       expandedFilters := [(''trace_name'', True)]\<rparr>"

definition toggleFilter :: "string \<Rightarrow> traces_page \<Rightarrow> traces_page" where
  "toggleFilter k s = s\<lparr>expandedFilters := assoc_set k (\<not> is_expanded k s) (expandedFilters s)\<rparr>"

definition input_text :: "text_input \<Rightarrow> jsstring" where
  "input_text t = (case t of Some (x, _) \<Rightarrow> x | None \<Rightarrow> [])"

definition type_input :: "jsstring \<Rightarrow> text_input \<Rightarrow> text_input" where
  "type_input v t = map_option (\<lambda>(_, k). (v, k)) t"

definition known_list :: "traces_page \<Rightarrow> jsstring list" where
  "known_list s = (case known_models s of Some (known, _, _) \<Rightarrow> known | None \<Rightarrow> [])"

definition apply_names :: "traces_page \<Rightarrow> traces_page" where
  "apply_names s = applyFilter ''trace_name'' (Values (parse_values (input_text (name_input s)))) s"

definition apply_models :: "traces_page \<Rightarrow> traces_page" where
  "apply_models s =
     applyFilter ''model'' (Values (merge_models (known_list s) (section_list ''model'' s)
       (parse_values (input_text (model_input s))))) s"

text \<open>A change of the search starts its timer again; React drops an update to the same text.\<close>

definition type_search :: "jsstring \<Rightarrow> traces_page \<Rightarrow> traces_page" where
  "type_search v s = (if v = searchQuery s then s else s\<lparr>searchQuery := v, search_timer := Some v\<rparr>)"

definition fire_search :: "traces_page \<Rightarrow> traces_page" where
  "fire_search s =
     (case search_timer s of Some v \<Rightarrow> s\<lparr>debouncedQuery := v, search_timer := None\<rparr> | None \<Rightarrow> s)"

definition handleSelectAll :: "traces_page \<Rightarrow> traces_page" where
  "handleSelectAll s =
     s\<lparr>selectedSpanIds := (if length (selectedSpanIds s) = length (tp_spans s) then []
                           else js_set (map sp_span_id (tp_spans s)))\<rparr>"

definition handleSelectRow :: "jsstring \<Rightarrow> traces_page \<Rightarrow> traces_page" where
  "handleSelectRow i s = s\<lparr>selectedSpanIds := toggle_value (selectedSpanIds s) i\<rparr>"

definition handleBulkAddSuccess :: "int \<Rightarrow> traces_page \<Rightarrow> traces_page" where
  "handleBulkAddSuccess now s = fetchSpans now [] False (s\<lparr>selectedSpanIds := [], isBulkModalOpen := False\<rparr>)"

definition toggleBookmark :: "jsstring \<Rightarrow> traces_page \<Rightarrow> traces_page" where
  "toggleBookmark i s =
     (let b = toggle_value (bookmarks s) i
      in s\<lparr>bookmarks := b, bookmark_posts := bookmark_posts s @ [(i, i \<in> set b)]\<rparr>)"

definition toggleColumn :: "string \<Rightarrow> traces_page \<Rightarrow> traces_page" where
  "toggleColumn c s =
     s\<lparr>columnVisibility := assoc_set c (map_of (columnVisibility s) c \<noteq> Some True) (columnVisibility s)\<rparr>"

text \<open>The arrow keys, while the overlay shows a trace of the list: the trace to open next, if any.\<close>

fun find_index :: "('a \<Rightarrow> bool) \<Rightarrow> 'a list \<Rightarrow> nat option" where
  "find_index P [] = None"
| "find_index P (x # xs) = (if P x then Some 0 else map_option Suc (find_index P xs))"

definition handleKeyDown :: "jsstring \<Rightarrow> traces_page \<Rightarrow> jsstring option" where
  "handleKeyDown key s =
     (case tp_overlay s of
        None \<Rightarrow> None
      | Some t \<Rightarrow>
          if t = [] \<or> (key \<noteq> js ''ArrowDown'' \<and> key \<noteq> js ''ArrowUp'') then None
          else case find_index (\<lambda>x. sp_trace_id x = t) (tp_spans s) of
                 None \<Rightarrow> None
               | Some i \<Rightarrow>
                   if key = js ''ArrowDown''
                   then (if i + 1 < length (tp_spans s) then Some (sp_trace_id (tp_spans s ! (i + 1))) else None)
                   else (if 0 < i then Some (sp_trace_id (tp_spans s ! (i - 1))) else None))"

datatype traces_msg =
    ToggleFilter string | ApplyFilter string filter_value | TypeName jsstring | ApplyNames | TypeModel jsstring
  | ApplyModels | ClearFilters | Search jsstring | SetAutoRefresh | OpenBulk | CloseBulk | BulkSaved
  | ToggleColumn string | ToggleColumnsMenu | CloseColumnsMenu | Retry | SelectAll | SelectRow jsstring
  | ToggleBookmark jsstring | OpenTrace jsstring | SetPageSize jsstring | LoadNext | CopyText jsstring

fun handle :: "int \<Rightarrow> traces_msg \<Rightarrow> traces_page \<Rightarrow> traces_page" where
  "handle now (ToggleFilter k) s = toggleFilter k s"
| "handle now (ApplyFilter k v) s = applyFilter k v s"
| "handle now (TypeName v) s = s\<lparr>name_input := type_input v (name_input s)\<rparr>"
| "handle now ApplyNames s = apply_names s"
| "handle now (TypeModel v) s = s\<lparr>model_input := type_input v (model_input s)\<rparr>"
| "handle now ApplyModels s = apply_models s"
| "handle now ClearFilters s = clearFilters s"
| "handle now (Search v) s = type_search v s"
| "handle now SetAutoRefresh s = s\<lparr>autoRefresh := \<not> autoRefresh s\<rparr>"
| "handle now OpenBulk s = s\<lparr>isBulkModalOpen := True\<rparr>"
| "handle now CloseBulk s = s\<lparr>isBulkModalOpen := False\<rparr>"
| "handle now BulkSaved s = handleBulkAddSuccess now s"
| "handle now (ToggleColumn c) s = toggleColumn c s"
| "handle now ToggleColumnsMenu s = s\<lparr>showColumnsMenu := \<not> showColumnsMenu s\<rparr>"
| "handle now CloseColumnsMenu s = s\<lparr>showColumnsMenu := False\<rparr>"
| "handle now Retry s = fetchSpans now [] False s"
| "handle now SelectAll s = handleSelectAll s"
| "handle now (SelectRow i) s = handleSelectRow i s"
| "handle now (ToggleBookmark i) s = toggleBookmark i s"
| "handle now (OpenTrace i) s = s"
| "handle now (SetPageSize v) s = s\<lparr>pageSize := string_to_number v\<rparr>"
| "handle now LoadNext s = fetchSpans now (nextCursor s) True s"
| "handle now (CopyText t) s = s"

definition default_columns :: "(string \<times> bool) list" where
  "default_columns =
     [(''bookmark'', True), (''timestamp'', True), (''name'', True), (''latency'', True), (''tokens'', True),
      (''cost'', True), (''input'', False), (''output'', False), (''observationLevels'', False)]"

definition new_traces_page :: "jsstring \<Rightarrow> jsstring option \<Rightarrow> traces_page" where
  "new_traces_page project preset =
     \<lparr>tp_project = project, tp_range = preset, tp_overlay = None, tp_spans = [], nextCursor = [],
      tp_loading = False, queryState = Pending, pageSize = Fin 25, searchQuery = [], debouncedQuery = [],
      search_timer = Some [], requestSeq = 0, autoRefresh = False, columnVisibility = default_columns,
      expandedFilters = [(''trace_name'', True)], filterState = DEFAULT_FILTERS, filter_stamp = 0,
      list_stamps = [], last_stamp = 0, name_input = None, model_input = None, known_models = None,
      bookmarks = [], bookmark_posts = [], showColumnsMenu = False, selectedSpanIds = [],
      isBulkModalOpen = False, tp_calls = [], fetched = None, tp_pages = [], tp_unanswered = False\<rparr>"

definition mount_traces :: "int \<Rightarrow> jsstring \<Rightarrow> jsstring option \<Rightarrow> traces_page" where
  "mount_traces now project preset = after_render now (new_traces_page project preset)"

section \<open>What is shown\<close>

fun range_ends :: "filter_value \<Rightarrow> jsnum option \<times> jsnum option" where
  "range_ends (Range lo hi) = (lo, hi)" | "range_ends (Values _) = (None, None)"

definition list_section :: "string \<Rightarrow> traces_page \<Rightarrow> traces_msg view" where
  "list_section k s =
     (if k = ''model'' then
        box (shown (known_list s \<noteq> [])
               [CheckboxFilter (known_list s) [] (section_list k s) (\<lambda>vs. ApplyFilter k (Values vs))] @
             [TextFilter (input_text (model_input s)) TypeModel ApplyModels
                (js ''e.g. gpt-4, claude-3'' @ ellipsis)])
      else if k = ''trace_name'' then
        TextFilter (input_text (name_input s)) TypeName ApplyNames (js ''Search trace names'' @ ellipsis)
      else if k = ''kind'' then
        CheckboxFilter (map js KNOWN_KINDS) [] (section_list k s) (\<lambda>vs. ApplyFilter k (Values vs))
      else if k = ''status'' then
        CheckboxFilter (map js [''OK'', ''ERROR'', ''UNSET'']) [(js ''UNSET'', js ''Unset'')] (section_list k s)
          (\<lambda>vs. ApplyFilter k (Values vs))
      else
        (let r = range_ends (section_value k s);
             u = (if k = ''duration'' then '' (ms)'' else if k = ''cost'' then '' ($)'' else [])
         in RangeFilterField (fst r) (snd r) (''Min'' @ u) (''Max'' @ u)
              (if k = ''duration'' then ''ms'' else if k = ''cost'' then ''USD'' else ''tokens'') (ApplyFilter k)))"

definition FilterSection :: "traces_page \<Rightarrow> string \<Rightarrow> traces_msg view" where
  "FilterSection s k =
     box (button (ToggleFilter k)
            [inline [tx (case map_of FILTER_LABELS k of Some l \<Rightarrow> l | None \<Rightarrow> k)],
             inline (case section_value k s of
                       Range lo hi \<Rightarrow> [inline [Text (formatRange lo hi)]]
                     | Values vs \<Rightarrow> shown (vs \<noteq> []) [inline [Text (dec_nat (length vs)), tx '' selected'']])] #
          shown (is_expanded k s) [box [list_section k s]])"

definition filter_bar :: "traces_page \<Rightarrow> traces_msg view" where
  "filter_bar s =
     box [Elem ''h3'' [] [] [tx ''Filters''], box (map (FilterSection s) FILTER_SECTIONS),
          button ClearFilters [tx ''Clear All Filters'']]"

text \<open>The columns in their order, with their titles; the first two cannot be hidden in the menu.\<close>

definition columns :: "(string \<times> string) list" where
  "columns =
     [(''selection'', []), (''bookmark'', []), (''timestamp'', ''Timestamp''), (''name'', ''Name''),
      (''latency'', ''Latency''), (''tokens'', ''Tokens''), (''cost'', ''Cost''), (''input'', ''Input''),
      (''output'', ''Output''), (''observationLevels'', ''Levels'')]"

definition column_visible :: "traces_page \<Rightarrow> string \<Rightarrow> bool" where
  "column_visible s c \<longleftrightarrow> c = ''selection'' \<or> map_of (columnVisibility s) c = Some True"

definition visibleColumns :: "traces_page \<Rightarrow> (string \<times> string) list" where
  "visibleColumns s = filter (\<lambda>(c, _). column_visible s c) columns"

definition columnTooltips :: "(string \<times> string) list" where
  "columnTooltips =
     [(''timestamp'', ''Timestamp of the span''), (''name'', ''Span or trace name''),
      (''input'', ''Input content (JSON preview)''), (''output'', ''Output content (JSON preview)''),
      (''observationLevels'', ''Observation count and type (e.g. LLM 3, chain 2)''),
      (''latency'', ''Duration of the span''), (''tokens'', ''Total token count (input + output)''),
      (''cost'', ''Estimated cost in USD'')]"

definition column_toggle :: "traces_msg view list \<Rightarrow> string \<times> string \<Rightarrow> traces_msg view" where
  "column_toggle vs c =
     button_with [(''aria-label'', pstr (''Toggle '' @ snd c @ '' column''))] (ToggleColumn (fst c)) vs"

definition menu_columns :: "(string \<times> string) list" where
  "menu_columns = filter (\<lambda>(c, _). c \<noteq> ''bookmark'') columns"

definition columns_menu :: "traces_page \<Rightarrow> traces_msg view" where
  "columns_menu s =
     box ([box (map (column_toggle []) menu_columns),
           button_with [(''title'', pstr ''Show/hide columns''), (''aria-label'', pstr ''Column visibility'')]
             ToggleColumnsMenu [tx ''Columns'']] @
          shown (showColumnsMenu s)
            [box (map (\<lambda>c. column_toggle [inline [tx (snd c)]] c) menu_columns @
               [button CloseColumnsMenu [tx ''Close'']])])"

definition toolbar :: "traces_page \<Rightarrow> traces_msg view" where
  "toolbar s =
     box ([Elem ''input''
             [(''type'', pstr ''text''), (''placeholder'', pstr ''Search by ID/Name...''), (''value'', PStr (searchQuery s))]
             [OnChange (\<lambda>v. Some (Search v))] [],
           Elem ''label'' [] []
             [Elem ''input'' [(''type'', pstr ''checkbox''), (''checked'', PBool (autoRefresh s))] [OnToggle SetAutoRefresh] [],
              inline [tx ''30s'']]] @
          shown (selectedSpanIds s \<noteq> [])
            [button_with [(''aria-label'', pstr ''Add to dataset'')] OpenBulk
               [Text (js ''Add to dataset ('' @ dec_nat (length (selectedSpanIds s)) @ js '')'')]] @
          [columns_menu s])"

definition header_cell :: "traces_page \<Rightarrow> string \<times> string \<Rightarrow> traces_msg view" where
  "header_cell s c =
     (if fst c = ''selection''
      then Elem ''th'' [] []
        [Elem ''input''
           [(''type'', pstr ''checkbox''),
            (''checked'', PBool (tp_spans s \<noteq> [] \<and> length (selectedSpanIds s) = length (tp_spans s))),
            (''aria-label'', pstr ''Select all traces'')] [OnToggle SelectAll] []]
      else Elem ''th''
        [(''title'', pstr (case map_of columnTooltips (fst c) of Some t \<Rightarrow> t | None \<Rightarrow> snd c))] [] [tx (snd c)])"

definition body_cell :: "runtime \<Rightarrow> int \<Rightarrow> traces_page \<Rightarrow> Span \<Rightarrow> string \<times> string \<Rightarrow> (js_error, traces_msg view) result" where
  "body_cell rt now s x c =
     (if fst c = ''selection''
      then Inr (Elem ''td'' [] []
        [Elem ''input''
           [(''type'', pstr ''checkbox''), (''checked'', PBool (sp_span_id x \<in> set (selectedSpanIds s))),
            (''aria-label'', PStr (js ''Select trace '' @ sp_name x))] [OnToggle (SelectRow (sp_span_id x))] []])
      else and_then (TableCellRenderer rt now (fst c) x (bookmarks s) ToggleBookmark OpenTrace)
             (\<lambda>vs. Inr (Elem ''td'' [] [] vs)))"

definition row_view :: "runtime \<Rightarrow> int \<Rightarrow> traces_page \<Rightarrow> Span \<Rightarrow> (js_error, traces_msg view) result" where
  "row_view rt now s x =
     and_then (map_result (body_cell rt now s x) (visibleColumns s)) (\<lambda>vs. Inr
       (Elem ''tr'' [(''active'', PBool (tp_overlay s = Some (sp_trace_id x) \<and> sp_trace_id x \<noteq> []))] [] vs))"

definition traces_table :: "runtime \<Rightarrow> int \<Rightarrow> traces_page \<Rightarrow> (js_error, traces_msg view) result" where
  "traces_table rt now s =
     and_then (map_result (row_view rt now s) (tp_spans s)) (\<lambda>rows. Inr
       (Elem ''table'' [] [] [Elem ''thead'' [] [] (map (header_cell s) (visibleColumns s)), Elem ''tbody'' [] [] rows]))"

definition hasActiveFilters :: "traces_page \<Rightarrow> bool" where
  "hasActiveFilters s \<longleftrightarrow> buildFiltersFromState (filterState s) \<noteq> []"

definition isNarrowTimeRange :: "traces_page \<Rightarrow> bool" where
  "isNarrowTimeRange s \<longleftrightarrow> (case tp_range s of Some p \<Rightarrow> p \<in> js ` set NARROW_TIME_RANGES | None \<Rightarrow> False)"

definition no_rows :: "bool \<times> bool \<Rightarrow> traces_page \<Rightarrow> traces_msg view" where
  "no_rows copied s =
     (if searchQuery s \<noteq> []
      then EmptyState EmptyStateVariant.Search (Some (js ''No results found''))
        (Some (js ''No traces match '' @ [0x22] @ searchQuery s @ [0x22])) (Some (js ''Clear Search''))
        (Some (Search []))
      else if hasActiveFilters s \<or> isNarrowTimeRange s
      then EmptyState EmptyStateVariant.Search (Some (js ''No matching traces''))
        (Some (js ''No traces match your filters or time range'')) None None
      else map_view CopyText (OnboardingEmptyState (fst copied) (snd copied)))"

definition table_area :: "runtime \<Rightarrow> int \<Rightarrow> bool \<times> bool \<Rightarrow> traces_page \<Rightarrow> (js_error, traces_msg view) result" where
  "table_area rt now copied s =
     (if tp_spans s = [] then Inr
        (case queryState s of
           Failed \<Rightarrow> box [ErrorBanner
             (js ''Failed to load traces. The query timed out or the server returned an error.'')
             None (Some Retry) (js ''Retry'')]
         | Resolved \<Rightarrow> no_rows copied s
         | Pending \<Rightarrow> box (replicate 8 Skeleton))
      else traces_table rt now s)"

definition size_option :: "int \<Rightarrow> 'm view" where
  "size_option n = Elem ''option'' [(''value'', PNum (num_of_int n))] [] [Text (dec_int n)]"

definition PaginationControls :: "traces_page \<Rightarrow> traces_msg view" where
  "PaginationControls s =
     (let hasMore = nextCursor s \<noteq> [] in
      box [box [inline [tx ''Rows per page:''],
                Elem ''select'' [(''value'', PNum (pageSize s))] [OnChange (\<lambda>v. Some (SetPageSize v))]
                  (map size_option [10, 25, 50, 100])],
           button_with [(''disabled'', PBool (tp_loading s \<or> \<not> hasMore))] LoadNext
             [if tp_loading s then inline [tx ''Loading...''] else if hasMore then tx ''Load Next Page''
              else tx ''No more data'']])"

text \<open>The dialog is a component of its own; here it is its two callbacks.\<close>

definition bulk_dialog :: "traces_msg view" where
  "bulk_dialog = Elem ''dialog'' [] [OnClick CloseBulk, OnSubmit BulkSaved] []"

definition TracesPage :: "runtime \<Rightarrow> int \<Rightarrow> bool \<times> bool \<Rightarrow> traces_page \<Rightarrow> (js_error, traces_msg view) result" where
  "TracesPage rt now copied s =
     and_then (table_area rt now copied s) (\<lambda>area. Inr
       (box [filter_bar s,
             box ([toolbar s, area, PaginationControls s] @ shown (isBulkModalOpen s) [bulk_dialog])]))"

section \<open>Runs\<close>

inductive traces_run :: "traces_page \<Rightarrow> bool" where
  traces_mount: "traces_run (mount_traces now project preset)"
| traces_user: "traces_run s \<Longrightarrow> TracesPage rt now' copied s = Inr v \<Longrightarrow> m \<in> emits v \<Longrightarrow>
    traces_run (after_render now (handle now m s))"
| traces_props: "traces_run s \<Longrightarrow>
    traces_run (after_render now (s\<lparr>tp_project := project, tp_range := preset, tp_overlay := t\<rparr>))"
| traces_search: "traces_run s \<Longrightarrow> traces_run (after_render now (fire_search s))"
| traces_tick: "traces_run s \<Longrightarrow> autoRefresh s \<Longrightarrow> traces_run (after_render now (fetchSpans now [] False s))"
| traces_models: "traces_run s \<Longrightarrow> traces_run (after_render now (models_end rows s))"
| traces_reply: "traces_run s \<Longrightarrow> tp_calls s = xs @ c # ys \<Longrightarrow>
    traces_run (after_render now (end_request c r (s\<lparr>tp_calls := xs @ ys\<rparr>)))"

section \<open>Only the latest answer counts\<close>

definition shown_rows :: "traces_page \<Rightarrow> Span list \<times> jsstring \<times> query_state" where
  "shown_rows s = (tp_spans s, nextCursor s, queryState s)"

definition start_request :: "jsstring \<times> bool \<times> SpanQueryRequest \<Rightarrow> traces_page \<Rightarrow> traces_page" where
  "start_request p s = (case p of (cursor, further, rq) \<Rightarrow> begin_request cursor further rq s)"

definition answer_request :: "trace_call \<Rightarrow> span_reply \<Rightarrow> traces_page \<Rightarrow> traces_page" where
  "answer_request c r s = end_request c r (s\<lparr>tp_calls := remove1 c (tp_calls s)\<rparr>)"

lemma apply_reply_frame [simp]:
  "requestSeq (apply_reply c r s) = requestSeq s" "tp_calls (apply_reply c r s) = tp_calls s"
  "tp_loading (apply_reply c r s) = tp_loading s" "fetched (apply_reply c r s) = fetched s"
  "deps (apply_reply c r s) = deps s"
  by (auto simp: apply_reply_def take_rows_def deps_def Let_def split: span_reply.split)

interpretation rows: latest_only requestSeq tp_calls tc_seq tp_loading shown_rows start_request answer_request
  by unfold_locales
    (auto simp: start_request_def begin_request_def answer_request_def end_request_def shown_rows_def
      split: prod.split)

section \<open>The pages of rows\<close>

fun chained :: "jsstring \<Rightarrow> (fetch_deps \<times> jsstring \<times> jsstring \<times> Span list) list \<Rightarrow> bool" where
  "chained cur [] = True"
| "chained cur ((q, c, n, xs) # ps) = (c = cur \<and> chained n ps)"

fun last_cursor :: "jsstring \<Rightarrow> (fetch_deps \<times> jsstring \<times> jsstring \<times> Span list) list \<Rightarrow> jsstring" where
  "last_cursor cur [] = cur"
| "last_cursor cur ((q, c, n, xs) # ps) = last_cursor n ps"

definition page_rows :: "(fetch_deps \<times> jsstring \<times> jsstring \<times> Span list) list \<Rightarrow> Span list" where
  "page_rows ps = concat (map (\<lambda>(q, c, n, xs). xs) ps)"

definition pages_of :: "fetch_deps \<Rightarrow> (fetch_deps \<times> jsstring \<times> jsstring \<times> Span list) list \<Rightarrow> bool" where
  "pages_of q ps \<longleftrightarrow> (\<forall>p\<in>set ps. fst p = q) \<and> chained [] ps"

lemma chained_snoc:
  "chained cur (ps @ [(q, c, n, xs)]) \<longleftrightarrow> chained cur ps \<and> c = last_cursor cur ps"
  "last_cursor cur (ps @ [(q, c, n, xs)]) = n"
  by (induction cur ps rule: chained.induct) auto

definition fresh_pending :: "traces_page \<Rightarrow> bool" where
  "fresh_pending s \<longleftrightarrow> (\<exists>c\<in>set (tp_calls s). tc_seq c = requestSeq s \<and> \<not> tc_append c)"

text \<open>The dependencies are those the fetch effect last ran with.\<close>

definition rows_inv :: "traces_page \<Rightarrow> bool" where
  "rows_inv s \<longleftrightarrow>
     rows.gate s \<and> tp_spans s = page_rows (tp_pages s) \<and> nextCursor s = last_cursor [] (tp_pages s) \<and>
     (\<forall>c\<in>set (tp_calls s). tc_seq c = requestSeq s \<longrightarrow>
        tc_deps c = the (fetched s) \<and> tc_cursor c = (if tc_append c then nextCursor s else [])) \<and>
     (\<not> tp_unanswered s \<and> \<not> fresh_pending s \<longrightarrow> pages_of (the (fetched s)) (tp_pages s))"

definition core :: "traces_page \<Rightarrow> traces_page" where
  "core s = (new_traces_page [] None)
     \<lparr>tp_spans := tp_spans s, nextCursor := nextCursor s, tp_loading := tp_loading s, requestSeq := requestSeq s,
      tp_calls := tp_calls s, fetched := fetched s, tp_pages := tp_pages s, tp_unanswered := tp_unanswered s\<rparr>"

lemma core_eqD:
  assumes "core t = core s"
  shows "tp_spans t = tp_spans s" "nextCursor t = nextCursor s" "tp_loading t = tp_loading s"
    "requestSeq t = requestSeq s" "tp_calls t = tp_calls s" "fetched t = fetched s" "tp_pages t = tp_pages s"
    "tp_unanswered t = tp_unanswered s"
  using assms by (auto simp: core_def dest!: arg_cong [of _ _ "\<lambda>s. (tp_spans s, nextCursor s, tp_loading s,
    requestSeq s, tp_calls s, fetched s, tp_pages s, tp_unanswered s)"])

lemma rows_inv_frame: "rows_inv s \<Longrightarrow> core t = core s \<Longrightarrow> rows_inv t"
  using core_eqD [of t s] rows.gate_frame [of s t] by (simp add: rows_inv_def fresh_pending_def)

lemma fetchSpans_cases:
  obtains (failed) "fetchSpans now cursor further s =
      s\<lparr>requestSeq := requestSeq s + 1, tp_loading := False,
        queryState := (if further then queryState s else Pending),
        tp_unanswered := (tp_unanswered s \<or> \<not> further)\<rparr>"
  | (sent) rq where "fetchSpans now cursor further s = begin_request cursor further rq s"
  by (cases "span_query now (tp_project s) (tp_range s) (pageSize s) (debouncedQuery s) (filterState s) cursor")
    (auto simp: fetchSpans_def)

text \<open>A fresh load needs less: whatever was on its way is superseded.\<close>

definition rows_base :: "traces_page \<Rightarrow> bool" where
  "rows_base s \<longleftrightarrow> rows.gate s \<and> tp_spans s = page_rows (tp_pages s) \<and> nextCursor s = last_cursor [] (tp_pages s)"

lemma gate_below: "rows.gate s \<Longrightarrow> c \<in> set (tp_calls s) \<Longrightarrow> tc_seq c \<noteq> Suc (requestSeq s)"
  by (auto simp: rows.gate_def)

lemma fetchSpans_gate: "rows.gate s \<Longrightarrow> rows.gate (fetchSpans now cursor further s)"
  using rows.gate_start [of s "(cursor, further, rq)" for rq]
  by (cases rule: fetchSpans_cases [of now cursor further s])
    (auto simp: start_request_def intro: rows.gate_abort)

lemma fresh_load_inv:
  assumes base: "rows_base s" and eff: "fetched s = Some (deps s)"
  shows "rows_inv (fetchSpans now [] False s)"
proof -
  have "rows.gate (fetchSpans now [] False s)" using base by (simp add: rows_base_def fetchSpans_gate)
  moreover have "\<forall>c\<in>set (tp_calls s). tc_seq c \<noteq> Suc (requestSeq s)"
    using base gate_below by (auto simp: rows_base_def)
  ultimately show ?thesis
    using base eff
    by (cases rule: fetchSpans_cases [of now "[]" False s])
      (simp_all add: rows_inv_def rows_base_def begin_request_def fresh_pending_def)
qed

lemma next_load_inv:
  assumes inv: "rows_inv s" and eff: "fetched s = Some (deps s)" and idle: "\<not> tp_loading s"
  shows "rows_inv (fetchSpans now (nextCursor s) True s)"
proof -
  have gate: "rows.gate s" using inv by (simp add: rows_inv_def)
  then have "rows.gate (fetchSpans now (nextCursor s) True s)" by (rule fetchSpans_gate)
  moreover have "\<forall>c\<in>set (tp_calls s). tc_seq c \<noteq> Suc (requestSeq s)"
    using gate gate_below by auto
  moreover have "\<not> fresh_pending s"
    using idle gate by (auto simp: rows.gate_def fresh_pending_def)
  ultimately show ?thesis
    using inv eff
    by (cases rule: fetchSpans_cases [of now "nextCursor s" True s])
      (simp_all add: rows_inv_def begin_request_def fresh_pending_def)
qed

lemma rows_inv_base: "rows_inv s \<Longrightarrow> rows_base s"
  by (simp add: rows_inv_def rows_base_def)

lemma traces_render_inv:
  assumes "rows_inv s"
  shows "rows_inv (after_render now s)" "fetched (after_render now s) = Some (deps (after_render now s))"
proof -
  let ?t = "sync_filters now s"
  have inv: "rows_inv ?t"
    by (rule rows_inv_frame [OF assms]) (simp add: core_def sync_filters_def)
  then have "rows_base (?t\<lparr>fetched := Some (deps ?t)\<rparr>)"
    using rows.gate_frame [of ?t] by (simp add: rows_inv_def rows_base_def)
  then have "rows_inv (fetchSpans now [] False (?t\<lparr>fetched := Some (deps ?t)\<rparr>))"
    by (rule fresh_load_inv) (simp add: deps_def)
  with inv show "rows_inv (after_render now s)" by (simp add: after_render_def fetch_effect_def)
  show "fetched (after_render now s) = Some (deps (after_render now s))"
    by (simp add: after_render_def fetch_effect_def fetchSpans_def begin_request_def deps_def split: sum.split)
qed

lemma traces_reply_inv:
  assumes inv: "rows_inv s" and call: "tp_calls s = xs @ c # ys"
  shows "rows_inv (end_request c r (s\<lparr>tp_calls := xs @ ys\<rparr>))"
proof -
  have gate: "rows.gate s" using inv by (simp add: rows_inv_def)
  then have "c \<notin> set xs" using call by (auto simp: rows.gate_def)
  then have rem: "remove1 c (tp_calls s) = xs @ ys" using call by (simp add: remove1_append)
  with gate call have gate': "rows.gate (end_request c r (s\<lparr>tp_calls := xs @ ys\<rparr>))"
    using rows.gate_finish [OF gate, of c r] by (simp add: answer_request_def)
  show ?thesis
  proof (cases "tc_seq c = requestSeq s")
    case False
    then show ?thesis using inv gate' call by (auto simp: rows_inv_def end_request_def fresh_pending_def)
  next
    case True
    then have none: "\<forall>d\<in>set (xs @ ys). tc_seq d \<noteq> requestSeq s"
      using gate call by (auto simp: rows.gate_def image_iff)
    have c: "tc_deps c = the (fetched s)" "tc_cursor c = (if tc_append c then nextCursor s else [])"
      using inv call True by (auto simp: rows_inv_def)
    have pend: "fresh_pending s \<longleftrightarrow> \<not> tc_append c"
      using none call True by (auto simp: fresh_pending_def)
    let ?s = "s\<lparr>tp_calls := xs @ ys\<rparr>"
    have "tp_spans (apply_reply c r ?s) = page_rows (tp_pages (apply_reply c r ?s))"
      "nextCursor (apply_reply c r ?s) = last_cursor [] (tp_pages (apply_reply c r ?s))"
      using inv by (auto simp: rows_inv_def apply_reply_def take_rows_def Let_def page_rows_def chained_snoc
          split: span_reply.split)
    moreover have "\<not> tp_unanswered (apply_reply c r ?s) \<longrightarrow> pages_of (the (fetched s)) (tp_pages (apply_reply c r ?s))"
      using inv c pend
      by (auto simp: rows_inv_def apply_reply_def take_rows_def Let_def pages_of_def chained_snoc
          split: span_reply.split)
    ultimately show ?thesis
      using True gate' none by (simp add: rows_inv_def end_request_def fresh_pending_def)
  qed
qed

section \<open>What the page can send\<close>

lemma emits_cell:
  "TableCellRenderer rt now c x b f g = Inr vs \<Longrightarrow> emits_all vs \<subseteq> range f \<union> range g"
  by (auto simp: TableCellRenderer_def name_cell_def and_then_Inr_iff BookmarkStar_def Let_def tokens_cell_def
      ObservationPills_def pill_def emits_all_map split: if_splits option.splits)

definition row_msgs :: "traces_msg set" where
  "row_msgs = range SelectRow \<union> range ToggleBookmark \<union> range OpenTrace \<union> {SelectAll}"

lemma emits_traces_table:
  assumes "traces_table rt now s = Inr w"
  shows "emits w \<subseteq> row_msgs"
proof -
  obtain rws where rws: "map_result (row_view rt now s) (tp_spans s) = Inr rws"
    "w = Elem ''table'' [] [] [Elem ''thead'' [] [] (map (header_cell s) (visibleColumns s)), Elem ''tbody'' [] [] rws]"
    using assms by (auto simp: traces_table_def and_then_Inr_iff)
  have cell: "emits u \<subseteq> row_msgs" if "body_cell rt now s x c = Inr u" for x c u
    using that emits_cell [of rt now "fst c" x "bookmarks s" ToggleBookmark OpenTrace]
    by (auto simp: body_cell_def and_then_Inr_iff row_msgs_def split: if_splits)
  have "emits u \<subseteq> row_msgs" if u: "row_view rt now s x = Inr u" for x u
  proof -
    obtain vs where vs: "map_result (body_cell rt now s x) (visibleColumns s) = Inr vs"
      "u = Elem ''tr'' [(''active'', PBool (tp_overlay s = Some (sp_trace_id x) \<and> sp_trace_id x \<noteq> []))] [] vs"
      using u by (auto simp: row_view_def and_then_Inr_iff)
    have "emits_all vs \<subseteq> row_msgs" by (rule emits_map_result [OF vs(1) cell])
    then show ?thesis by (simp add: vs(2))
  qed
  with rws(1) have "emits_all rws \<subseteq> row_msgs" by (intro emits_map_result) auto
  moreover have "emits (header_cell s c) \<subseteq> row_msgs" for c
    by (cases "fst c = ''selection''") (simp_all add: header_cell_def row_msgs_def)
  then have "emits_all (map (header_cell s) cs) \<subseteq> row_msgs" for cs
    by (auto simp: emits_all_map)
  ultimately show ?thesis by (auto simp: rws(2))
qed

lemma emits_checkbox: "emits (CheckboxFilter xs ls vs f) \<subseteq> range f"
  by (auto simp: CheckboxFilter_def emits_all_map)

definition filter_msgs :: "traces_msg set" where
  "filter_msgs = range ToggleFilter \<union> range (case_prod ApplyFilter) \<union> range TypeName \<union> range TypeModel \<union>
     {ApplyNames, ApplyModels, ClearFilters}"

lemma emits_list_section: "emits (list_section k s) \<subseteq> filter_msgs"
proof -
  have box: "emits (CheckboxFilter xs ls vs (\<lambda>vs. ApplyFilter k (Values vs))) \<subseteq> filter_msgs" for xs ls vs
    by (rule order_trans [OF emits_checkbox]) (auto simp: filter_msgs_def)
  have inp: "emits (TextFilter x f m p) \<subseteq> range f \<union> {m}" for x p and f :: "jsstring \<Rightarrow> traces_msg" and m
    by (auto simp: TextFilter_def apply_button_def)
  have rng: "emits (RangeFilterField lo hi a b c (ApplyFilter k)) \<subseteq> filter_msgs" for lo hi a b c
    by (auto simp: RangeFilterField_def range_input_def apply_button_def filter_msgs_def)
  show ?thesis
  proof (cases "k \<in> {''model'', ''trace_name'', ''kind'', ''status''}")
    case True
    have "emits (TextFilter x TypeModel ApplyModels p) \<subseteq> filter_msgs" "emits (TextFilter x TypeName ApplyNames p) \<subseteq> filter_msgs"
      for x p using inp by (fastforce simp: filter_msgs_def)+
    then have "emits (box (shown b [CheckboxFilter xs ls vs (\<lambda>vs. ApplyFilter k (Values vs))] @
        [TextFilter x TypeModel ApplyModels p])) \<subseteq> filter_msgs" for b xs ls vs x p
      using box by simp
    with True \<open>\<And>x p. emits (TextFilter x TypeName ApplyNames p) \<subseteq> filter_msgs\<close> box show ?thesis
      unfolding list_section_def by (elim insertE emptyE) simp_all
  next
    case False
    with rng show ?thesis by (simp add: list_section_def Let_def)
  qed
qed

lemma emits_filter_bar: "emits (filter_bar s) \<subseteq> filter_msgs"
proof -
  have "emits (FilterSection s k) \<subseteq> filter_msgs" for k
    using emits_list_section [of k s]
    by (auto simp: FilterSection_def filter_msgs_def split: filter_value.splits)
  then have "emits_all (map (FilterSection s) ks) \<subseteq> filter_msgs" for ks by (auto simp: emits_all_map)
  then show ?thesis by (simp add: filter_bar_def filter_msgs_def)
qed

definition tool_msgs :: "traces_msg set" where
  "tool_msgs = range Search \<union> range ToggleColumn \<union> {SetAutoRefresh, OpenBulk, ToggleColumnsMenu, CloseColumnsMenu}"

lemma emits_toolbar: "emits (toolbar s) \<subseteq> tool_msgs"
proof -
  have "emits_all (map (\<lambda>c. column_toggle [inline [tx (snd c)]] c) cs) \<subseteq> tool_msgs" for cs
    by (auto simp: emits_all_map column_toggle_def tool_msgs_def)
  moreover have "{ToggleColumnsMenu, CloseColumnsMenu, SetAutoRefresh, OpenBulk} \<subseteq> tool_msgs" "range Search \<subseteq> tool_msgs"
    by (auto simp: tool_msgs_def)
  moreover have "emits_all (map (column_toggle []) cs) \<subseteq> tool_msgs" for cs
    by (auto simp: emits_all_map column_toggle_def tool_msgs_def)
  ultimately have "emits (columns_menu s) \<subseteq> tool_msgs"
    by (simp add: columns_menu_def)
  with \<open>range Search \<subseteq> tool_msgs\<close> \<open>{ToggleColumnsMenu, CloseColumnsMenu, SetAutoRefresh, OpenBulk} \<subseteq> tool_msgs\<close>
  show ?thesis by (auto simp: toolbar_def)
qed

lemma emits_pagination:
  "emits (PaginationControls s) \<subseteq> insert LoadNext (range SetPageSize)"
  "LoadNext \<in> emits (PaginationControls s) \<longleftrightarrow> \<not> tp_loading s \<and> nextCursor s \<noteq> []"
proof -
  have opts: "emits (size_option n) = {}" for n
    by (simp add: size_option_def)
  have btn: "emits (button_with [(''disabled'', PBool b)] LoadNext vs) = (if b then {} else {LoadNext}) \<union> emits_all vs"
    for b and vs :: "traces_msg view list" by (cases b) simp_all
  show "emits (PaginationControls s) \<subseteq> insert LoadNext (range SetPageSize)"
    "LoadNext \<in> emits (PaginationControls s) \<longleftrightarrow> \<not> tp_loading s \<and> nextCursor s \<noteq> []"
    by (auto simp: PaginationControls_def Let_def opts btn)
qed

lemma emits_area:
  assumes "table_area rt now copied s = Inr w"
  shows "emits w \<subseteq> (if tp_spans s = [] then range CopyText \<union> range Search \<union>
      (if queryState s = Failed then {Retry} else {}) else row_msgs)"
  using assms emits_traces_table
  by (auto simp: table_area_def no_rows_def emits_map_view split: if_splits query_state.splits)

text \<open>The next page can be asked for only while nothing loads and there is a cursor.\<close>

lemma LoadNext_enabled:
  assumes "TracesPage rt now copied s = Inr w"
  shows "LoadNext \<in> emits w \<longleftrightarrow> \<not> tp_loading s \<and> nextCursor s \<noteq> []"
proof -
  obtain area where a: "table_area rt now copied s = Inr area"
    "w = box [filter_bar s, box ([toolbar s, area, PaginationControls s] @ shown (isBulkModalOpen s) [bulk_dialog])]"
    using assms by (auto simp: TracesPage_def and_then_Inr_iff)
  have "LoadNext \<notin> emits (filter_bar s)" "LoadNext \<notin> emits (toolbar s)" "LoadNext \<notin> emits area"
    "LoadNext \<notin> emits bulk_dialog"
    using emits_filter_bar [of s] emits_toolbar [of s] emits_area [OF a(1)]
    by (auto simp: filter_msgs_def tool_msgs_def row_msgs_def bulk_dialog_def split: if_splits)
  then show ?thesis using emits_pagination(2) [of s] by (simp add: a(2))
qed

section \<open>The invariant of runs\<close>

lemma traces_handle_inv:
  assumes "rows_inv s" and "fetched s = Some (deps s)" and "m = LoadNext \<Longrightarrow> \<not> tp_loading s"
  shows "rows_inv (handle now m s)"
proof -
  consider "m = LoadNext" | "m \<in> {Retry, BulkSaved}" | "core (handle now m s) = core s"
    by (cases m) (auto simp: core_def toggleFilter_def applyFilter_def apply_names_def apply_models_def clearFilters_def
        type_search_def toggleColumn_def handleSelectAll_def handleSelectRow_def toggleBookmark_def Let_def)
  then show ?thesis
  proof cases
    case 1
    with assms show ?thesis by (auto intro: next_load_inv)
  next
    case 2
    let ?t = "s\<lparr>selectedSpanIds := [], isBulkModalOpen := False\<rparr>"
    have "rows_inv ?t" by (rule rows_inv_frame [OF assms(1)]) (simp add: core_def)
    moreover have "fetched ?t = Some (deps ?t)" using assms(2) by (simp add: deps_def)
    ultimately have "rows_inv (fetchSpans now [] False ?t)" "rows_inv (fetchSpans now [] False s)"
      using assms by (simp_all only: fresh_load_inv rows_inv_base)
    with 2 show ?thesis by (auto simp: handleBulkAddSuccess_def)
  next
    case 3
    with assms(1) show ?thesis by (rule rows_inv_frame)
  qed
qed

lemma new_page_inv: "rows_inv (new_traces_page project preset)"
  by (simp add: rows_inv_def new_traces_page_def page_rows_def pages_of_def rows.gate_new)

lemma traces_invariant: "traces_run s \<Longrightarrow> rows_inv s \<and> fetched s = Some (deps s)"
proof (induction rule: traces_run.induct)
  case (traces_mount now project preset)
  show ?case unfolding mount_traces_def by (intro conjI traces_render_inv new_page_inv)
next
  case (traces_user s rt now' copied w m now)
  have "rows_inv (handle now m s)"
    using traces_user LoadNext_enabled [OF traces_user.hyps(2)] by (intro traces_handle_inv) auto
  then show ?case by (intro conjI traces_render_inv)
next
  case (traces_props s now t preset project)
  have "rows_inv (s\<lparr>tp_project := project, tp_range := preset, tp_overlay := t\<rparr>)"
    by (rule rows_inv_frame [of s]) (simp_all add: traces_props.IH core_def)
  then show ?case by (intro conjI traces_render_inv)
next
  case (traces_search s now)
  have "rows_inv (fire_search s)"
    by (rule rows_inv_frame [of s]) (simp_all add: traces_search.IH core_def fire_search_def split: option.split)
  then show ?case by (intro conjI traces_render_inv)
next
  case (traces_tick s now)
  then have "rows_inv (fetchSpans now [] False s)" by (intro fresh_load_inv rows_inv_base) auto
  then show ?case by (intro conjI traces_render_inv)
next
  case (traces_models s now rws)
  have "rows_inv (models_end rws s)"
    by (rule rows_inv_frame [of s])
      (simp_all add: traces_models.IH core_def models_end_def split: option.split prod.split bool.split)
  then show ?case by (intro conjI traces_render_inv)
next
  case (traces_reply s xs c ys now r)
  then have "rows_inv (end_request c r (s\<lparr>tp_calls := xs @ ys\<rparr>))" by (intro traces_reply_inv) auto
  then show ?case by (intro conjI traces_render_inv)
qed

section \<open>What runs show\<close>

text \<open>
  C23: as long as the latest fresh load got an answer, the rows of an idle page are one query's pages. They are
  the concatenation of pages that were all requested for the project, filters, search, window and page
  size the page has now, the first without a cursor and each further one with the cursor its predecessor
  gave; the button for the next page continues from the last. Whatever the user does, the page loads exactly
  while its latest request is in flight.
\<close>

theorem rows_are_pages_of_one_query:
  assumes "traces_run s" and "\<not> tp_unanswered s" and "\<not> tp_loading s"
  shows "tp_spans s = concat (map (\<lambda>(q, c, n, xs). xs) (tp_pages s)) \<and>
    (\<forall>p\<in>set (tp_pages s). fst p = deps s) \<and> chained [] (tp_pages s) \<and>
    nextCursor s = last_cursor [] (tp_pages s) \<and>
    (\<forall>t. traces_run t \<longrightarrow> (tp_loading t \<longleftrightarrow> (\<exists>c\<in>set (tp_calls t). tc_seq c = requestSeq t)))"
proof -
  have inv: "rows_inv s" "fetched s = Some (deps s)" using traces_invariant [OF assms(1)] by auto
  then have "\<not> fresh_pending s" using assms(3) by (auto simp: rows_inv_def rows.gate_def fresh_pending_def)
  then have "pages_of (deps s) (tp_pages s)" using inv assms(2) by (simp add: rows_inv_def)
  moreover have "tp_loading t \<longleftrightarrow> (\<exists>c\<in>set (tp_calls t). tc_seq c = requestSeq t)" if "traces_run t" for t
    using traces_invariant [OF that] by (simp add: rows_inv_def rows.gate_def)
  ultimately show ?thesis using inv by (auto simp: rows_inv_def pages_of_def page_rows_def)
qed


text \<open>Two spans, and a page that shows the first one.\<close>

definition demo_span :: "string \<Rightarrow> Span" where
  "demo_span i =
     \<lparr>sp_span_id = js i, sp_trace_id = js i, sp_parent_id = [], sp_project_id = [], sp_name = js i,
      sp_kind = js ''llm'', sp_model = None, sp_start_time = [], sp_end_time = [], sp_cost_usd = Fin 0,
      sp_input_tokens = Fin 0, sp_output_tokens = Fin 0, sp_input = None, sp_output = None,
      sp_status_code = None, sp_span_count = None, sp_kind_counts = None\<rparr>"

lemma default_window: "\<exists>w. presetToFromTo now None = Inr w"
  by (simp add: presetToFromTo_def preset_duration_def toISOString_def)

text \<open>The page of the project \<open>old\<close> while its first rows are loaded, and when their answer is there.\<close>

definition old_deps :: fetch_deps where
  "old_deps = \<lparr>fd_project = js ''old'', fd_limit = Fin 25, fd_filters = 0, fd_search = [], fd_range = None\<rparr>"

definition old_query :: SpanQueryRequest where
  "old_query = (case span_query 0 (js ''old'') None (Fin 25) [] DEFAULT_FILTERS [] of Inr rq \<Rightarrow> rq)"

definition old_call :: trace_call where
  "old_call = \<lparr>tc_seq = 1, tc_append = False, tc_cursor = [], tc_request = old_query, tc_deps = old_deps\<rparr>"

definition old_page :: traces_page where
  "old_page = (new_traces_page (js ''old'') None)\<lparr>name_input := Some ([], 0), fetched := Some old_deps,
     requestSeq := 1, tp_loading := True\<rparr>"

definition first_rows :: "span_reply \<Rightarrow> traces_page" where
  "first_rows r = (apply_reply old_call r old_page)\<lparr>tp_loading := False\<rparr>"

lemma old_page_simps [simp]:
  "tp_calls old_page = []" "requestSeq old_page = 1" "tp_project old_page = js ''old''"
  "tp_range old_page = None" "pageSize old_page = Fin 25" "filterState old_page = DEFAULT_FILTERS"
  "filter_stamp old_page = 0" "debouncedQuery old_page = []" "columnVisibility old_page = default_columns"
  "selectedSpanIds old_page = []" "fetched old_page = Some old_deps" "bookmarks old_page = []"
  "tp_overlay old_page = None" "expandedFilters old_page = [(''trace_name'', True)]"
  "list_stamps old_page = []" "name_input old_page = Some ([], 0)" "model_input old_page = None"
  "known_models old_page = None" "tp_spans old_page = []" "nextCursor old_page = []" "queryState old_page = Pending"
  "tp_unanswered old_page = False"
  by (simp_all add: old_page_def new_traces_page_def)

lemma span_query_total: "\<exists>rq. span_query now p r n d f c = Inr rq" if "\<exists>w. presetToFromTo now r = Inr w"
  using that by (auto simp: span_query_def)

lemma mount_old: "mount_traces 0 (js ''old'') None = old_page\<lparr>tp_calls := [old_call]\<rparr>"
proof -
  obtain rq where rq: "span_query 0 (js ''old'') None (Fin 25) [] DEFAULT_FILTERS [] = Inr rq"
    using span_query_total [OF default_window] by blast
  then have "old_query = rq" by (simp add: old_query_def)
  with rq show ?thesis
    by (simp add: mount_traces_def new_traces_page_def after_render_def fetch_effect_def sync_filters_def deps_def
      fetchSpans_def begin_request_def old_page_def old_call_def old_deps_def sync_input_def is_expanded_def
      list_stamp_def section_list_def section_value_def DEFAULT_FILTERS_def values_text_def sync_models_def)
qed

lemma old_settled: "after_render now s = s"
  if "name_input s = Some ([], 0)" "model_input s = None" "known_models s = None" "list_stamps s = []"
    "expandedFilters s = [(''trace_name'', True)]" "fetched s = Some (deps s)"
  using that by (simp add: after_render_def fetch_effect_def sync_filters_def deps_def sync_input_def is_expanded_def
      list_stamp_def sync_models_def)

lemma reply_frame [simp]:
  "tp_project (apply_reply c r s) = tp_project s" "tp_range (apply_reply c r s) = tp_range s"
  "pageSize (apply_reply c r s) = pageSize s" "filterState (apply_reply c r s) = filterState s"
  "filter_stamp (apply_reply c r s) = filter_stamp s" "debouncedQuery (apply_reply c r s) = debouncedQuery s"
  "name_input (apply_reply c r s) = name_input s" "model_input (apply_reply c r s) = model_input s"
  "known_models (apply_reply c r s) = known_models s" "list_stamps (apply_reply c r s) = list_stamps s"
  "expandedFilters (apply_reply c r s) = expandedFilters s"
  "columnVisibility (apply_reply c r s) = columnVisibility s"
  "selectedSpanIds (apply_reply c r s) = selectedSpanIds s"
  by (simp_all add: apply_reply_def take_rows_def Let_def split: span_reply.split)

lemma run_first_rows: "traces_run (first_rows r)"
proof -
  have "tp_calls (old_page\<lparr>tp_calls := [old_call]\<rparr>) = [] @ old_call # []" by simp
  then have "traces_run (after_render 0 (end_request old_call r (old_page\<lparr>tp_calls := []\<rparr>)))"
    using traces_reply [of "old_page\<lparr>tp_calls := [old_call]\<rparr>" "[]" old_call "[]" 0 r]
      traces_mount [of 0 "js ''old''" None] by (simp add: mount_old)
  moreover have "old_page\<lparr>tp_calls := []\<rparr> = old_page" by (simp add: old_page_def new_traces_page_def)
  moreover have "end_request old_call r old_page = first_rows r"
    by (simp add: end_request_def first_rows_def old_call_def)
  moreover have "after_render 0 (first_rows r) = first_rows r"
    by (rule old_settled) (simp_all add: first_rows_def deps_def old_deps_def)
  ultimately show ?thesis by simp
qed

lemma first_rows_shown:
  "tp_spans (first_rows (Rows (Some xs) n)) = xs"
  "nextCursor (first_rows (Rows (Some xs) n)) = (case n of Some c \<Rightarrow> c | None \<Rightarrow> [])"
  "queryState (first_rows (Rows (Some xs) n)) = Resolved"
  "\<not> tp_unanswered (first_rows (Rows (Some xs) n))"
  "tp_spans (first_rows Unreadable) = []" "queryState (first_rows Unreadable) = Pending"
  "nextCursor (first_rows Unreadable) = []"
  by (simp_all add: first_rows_def apply_reply_def take_rows_def Let_def old_call_def)

lemma first_rows_simps [simp]:
  "tp_calls (first_rows r) = []" "requestSeq (first_rows r) = 1" "tp_loading (first_rows r) = False"
  "tp_project (first_rows r) = js ''old''" "pageSize (first_rows r) = Fin 25"
  "columnVisibility (first_rows r) = default_columns" "filterState (first_rows r) = DEFAULT_FILTERS"
  "selectedSpanIds (first_rows r) = []"
  by (simp_all add: first_rows_def)

lemma rows_are_pages_of_one_query_witness:
  "tp_spans (first_rows (Rows (Some [demo_span ''a'']) None)) = [demo_span ''a''] \<and>
   chained [] (tp_pages (first_rows (Rows (Some [demo_span ''a'']) None))) \<and>
   \<not> tp_loading (first_rows (Rows (Some [demo_span ''a'']) None))"
  using rows_are_pages_of_one_query [OF run_first_rows, of "Rows (Some [demo_span ''a'']) None"]
  by (simp add: first_rows_shown)

text \<open>The page with the rows of spans of a known kind can be shown.\<close>

lemma rows_visible:
  assumes "\<forall>x\<in>set (tp_spans s). known_kind (sp_kind x)"
  shows "\<exists>w. TracesPage rt now copied s = Inr w"
proof -
  have name: "\<exists>w. name_cell x m = Inr w" if k: "known_kind (sp_kind x)" for x and m :: traces_msg
  proof -
    obtain c i where "getSpanKindColor (sp_kind x) = Inr c" "getSpanKindIcon (sp_kind x) = Some i"
      using k kind_tables by blast
    then show ?thesis by (simp add: name_cell_def SpanKindIcon_def)
  qed
  have "\<exists>w. body_cell rt now s x c = Inr w" if k: "known_kind (sp_kind x)" for x c
  proof -
    obtain w where "name_cell x (OpenTrace (sp_trace_id x)) = Inr w" using name [OF k] by blast
    then show ?thesis by (simp add: body_cell_def TableCellRenderer_def)
  qed
  then have cells: "\<exists>ws. map_result (body_cell rt now s x) cs = Inr ws" if "known_kind (sp_kind x)" for x cs
    using that map_result_exists by metis
  have "\<exists>w. row_view rt now s x = Inr w" if k: "known_kind (sp_kind x)" for x
  proof -
    obtain ws where "map_result (body_cell rt now s x) (visibleColumns s) = Inr ws" using cells [OF k] by blast
    then show ?thesis by (simp add: row_view_def)
  qed
  then obtain ws where "map_result (row_view rt now s) (tp_spans s) = Inr ws"
    using assms map_result_exists [of "tp_spans s"] by metis
  then show ?thesis by (cases "tp_spans s = []") (simp_all add: TracesPage_def table_area_def traces_table_def del: map_result.simps)
qed

lemma known_demo: "known_kind (sp_kind (demo_span i))"
  by (simp add: known_kind_def demo_span_def)

section \<open>Single steps\<close>

lemma sync_filters_frame [simp]:
  "tp_project (sync_filters now s) = tp_project s" "tp_range (sync_filters now s) = tp_range s"
  "tp_overlay (sync_filters now s) = tp_overlay s" "tp_spans (sync_filters now s) = tp_spans s"
  "nextCursor (sync_filters now s) = nextCursor s" "tp_loading (sync_filters now s) = tp_loading s"
  "queryState (sync_filters now s) = queryState s" "pageSize (sync_filters now s) = pageSize s"
  "debouncedQuery (sync_filters now s) = debouncedQuery s" "requestSeq (sync_filters now s) = requestSeq s"
  "filterState (sync_filters now s) = filterState s" "selectedSpanIds (sync_filters now s) = selectedSpanIds s"
  "tp_calls (sync_filters now s) = tp_calls s" "fetched (sync_filters now s) = fetched s"
  "tp_pages (sync_filters now s) = tp_pages s" "tp_unanswered (sync_filters now s) = tp_unanswered s"
  "columnVisibility (sync_filters now s) = columnVisibility s" "deps (sync_filters now s) = deps s"
  by (simp_all add: sync_filters_def deps_def)

lemma render_same: "fetched s = Some (deps s) \<Longrightarrow> after_render now s = sync_filters now s"
  by (simp add: after_render_def fetch_effect_def)

lemma render_fresh:
  assumes "fetched s \<noteq> Some (deps s)" and "\<exists>w. presetToFromTo now (tp_range s) = Inr w"
  shows "\<exists>rq. after_render now s = begin_request [] False rq ((sync_filters now s)\<lparr>fetched := Some (deps s)\<rparr>)"
  using assms(1) span_query_total [OF assms(2), of "tp_project s" "pageSize s" "debouncedQuery s" "filterState s" "[]"]
  by (auto simp: after_render_def fetch_effect_def fetchSpans_def)

text \<open>The answer to the only request in flight.\<close>

lemma run_reply_only:
  assumes "traces_run s" and "tp_calls s = [c]"
  shows "traces_run (after_render now (end_request c r (s\<lparr>tp_calls := []\<rparr>)))"
  using traces_reply [of s "[]" c "[]"] assms by simp

lemma run_load_next:
  assumes "traces_run s" and "\<forall>x\<in>set (tp_spans s). known_kind (sp_kind x)" and "\<not> tp_loading s" and "nextCursor s \<noteq> []"
  shows "traces_run (after_render now (fetchSpans now (nextCursor s) True s))"
proof -
  fix rt copied
  obtain w where "TracesPage rt now copied s = Inr w" using rows_visible [OF assms(2)] by blast
  with LoadNext_enabled [OF this] assms traces_user [OF assms(1) this, of LoadNext now] show ?thesis by simp
qed

section \<open>Rows of two projects\<close>

text \<open>
  C25: rows of two projects are reachable on an idle page that reports success. When the load after a change of
  project gets no answer, rows and cursor of the old project stay and no error shows above them; the next
  page is then asked for with the new project and the old cursor, and its rows are appended.
\<close>

theorem rows_of_two_projects:
  "\<exists>s. traces_run s \<and> tp_project s = js ''new'' \<and> queryState s = Resolved \<and> \<not> tp_loading s \<and> tp_calls s = [] \<and>
     tp_spans s = [demo_span ''a'', demo_span ''b''] \<and>
     map (\<lambda>(q, c, n, xs). (fd_project q, c, xs)) (tp_pages s) =
       [(js ''old'', [], [demo_span ''a'']), (js ''new'', js ''n'', [demo_span ''b''])]"
proof -
  let ?s = "first_rows (Rows (Some [demo_span ''a'']) (Some (js ''n'')))"
  let ?t = "?s\<lparr>tp_project := js ''new'', tp_range := None, tp_overlay := None\<rparr>"
  have fetched_s: "fetched ?s = Some (deps ?s)" using traces_invariant [OF run_first_rows] by blast
  have pages_s: "tp_pages ?s = [(old_deps, [], js ''n'', [demo_span ''a''])]"
    by (simp add: first_rows_def apply_reply_def take_rows_def Let_def old_call_def)
  define p where "p = after_render 0 ?t"
  have run_p: "traces_run p" unfolding p_def by (rule traces_props [OF run_first_rows])
  obtain rq where "p = begin_request [] False rq ((sync_filters 0 ?t)\<lparr>fetched := Some (deps ?t)\<rparr>)"
    unfolding p_def using render_fresh [of ?t 0] default_window fetched_s by (auto simp: deps_def)
  then have p: "\<exists>c. tp_calls p = [c] \<and> tc_seq c = requestSeq p \<and> \<not> tc_append c"
    "tp_spans p = [demo_span ''a'']" "nextCursor p = js ''n''" "tp_project p = js ''new''" "tp_range p = None"
    "tp_pages p = tp_pages ?s"
    by (simp_all add: begin_request_def first_rows_shown)
  then obtain c where c: "tp_calls p = [c]" "tc_seq c = requestSeq p" "\<not> tc_append c" by blast
  define q where "q = after_render 0 (end_request c NoAnswer (p\<lparr>tp_calls := []\<rparr>))"
  have run_q: "traces_run q" unfolding q_def by (rule run_reply_only [OF run_p c(1)])
  have fetched_p: "fetched p = Some (deps p)" using traces_invariant [OF run_p] by blast
  have q: "tp_calls q = []" "\<not> tp_loading q" "tp_spans q = [demo_span ''a'']" "nextCursor q = js ''n''"
    "tp_project q = js ''new''" "tp_range q = None" "tp_pages q = tp_pages ?s"
    using fetched_p p c by (simp_all add: q_def render_same end_request_def apply_reply_def deps_def)
  have run_next: "traces_run (after_render 0 (fetchSpans 0 (nextCursor q) True q))"
    using run_load_next [OF run_q] q by (simp add: known_demo)
  obtain rq' where fetch_q: "fetchSpans 0 (nextCursor q) True q = begin_request (js ''n'') True rq' q"
    using span_query_total [of 0 "tp_range q" "tp_project q" "pageSize q" "debouncedQuery q" "filterState q" "js ''n''"]
      default_window q by (auto simp: fetchSpans_def)
  have fetched_q: "fetched q = Some (deps q)" using traces_invariant [OF run_q] by blast
  define u where "u = after_render 0 (begin_request (js ''n'') True rq' q)"
  have run_u: "traces_run u" using run_next fetch_q by (simp add: u_def)
  have u: "\<exists>d. tp_calls u = [d] \<and> tc_seq d = requestSeq u \<and> tc_append d \<and> tc_cursor d = js ''n'' \<and> tc_deps d = deps q"
    "tp_spans u = [demo_span ''a'']" "tp_project u = js ''new''" "tp_pages u = tp_pages ?s"
    using fetched_q q by (simp_all add: u_def render_same begin_request_def deps_def)
  then obtain d where d: "tp_calls u = [d]" "tc_seq d = requestSeq u" "tc_append d" "tc_cursor d = js ''n''"
    "tc_deps d = deps q" by blast
  define v where "v = after_render 0 (end_request d (Rows (Some [demo_span ''b'']) None) (u\<lparr>tp_calls := []\<rparr>))"
  have fetched_u: "fetched u = Some (deps u)" using traces_invariant [OF run_u] by blast
  have "traces_run v" unfolding v_def by (rule run_reply_only [OF run_u d(1)])
  moreover have "tp_project v = js ''new''" "queryState v = Resolved" "\<not> tp_loading v" "tp_calls v = []"
    "tp_spans v = [demo_span ''a'', demo_span ''b'']"
    "tp_pages v = tp_pages ?s @ [(deps q, js ''n'', [], [demo_span ''b''])]"
    using fetched_u u d by (simp_all add: v_def render_same end_request_def apply_reply_def take_rows_def Let_def deps_def)
  moreover have "fd_project (deps q) = js ''new''" "fd_project old_deps = js ''old''"
    by (simp_all add: deps_def q old_deps_def)
  ultimately show ?thesis using pages_s by (intro exI [of _ v]) simp
qed


section \<open>Other surprises\<close>


text \<open>A key pressed while the overlay is open.\<close>

definition press :: "jsstring \<Rightarrow> traces_page \<Rightarrow> traces_page" where
  "press key s = (case handleKeyDown key s of Some t \<Rightarrow> s\<lparr>tp_overlay := Some t\<rparr> | None \<Rightarrow> s)"

lemma find_index_nth:
  "distinct (map f xs) \<Longrightarrow> i < length xs \<Longrightarrow> find_index (\<lambda>x. f x = f (xs ! i)) xs = Some i"
proof (induction xs arbitrary: i)
  case (Cons x xs)
  then show ?case by (cases i) (use nth_mem in fastforce)+
qed simp

lemma press_at:
  assumes "distinct (map sp_trace_id (tp_spans s))" and "[] \<notin> sp_trace_id ` set (tp_spans s)"
    and "i < length (tp_spans s)" and "tp_overlay s = Some (sp_trace_id (tp_spans s ! i))"
  shows "press (js ''ArrowDown'') s = s\<lparr>tp_overlay := Some (sp_trace_id (tp_spans s ! min (i + 1) (length (tp_spans s) - 1)))\<rparr>"
    and "press (js ''ArrowUp'') s = s\<lparr>tp_overlay := Some (sp_trace_id (tp_spans s ! (i - 1)))\<rparr>"
proof -
  have ne: "sp_trace_id (tp_spans s ! i) \<noteq> []" using assms(2,3) by (metis image_eqI nth_mem)
  have self: "s\<lparr>tp_overlay := Some (sp_trace_id (tp_spans s ! i))\<rparr> = s" using assms(4) by simp
  have idx: "find_index (\<lambda>x. sp_trace_id x = sp_trace_id (tp_spans s ! i)) (tp_spans s) = Some i"
    using find_index_nth [OF assms(1,3)] .
  have keys: "js ''ArrowUp'' \<noteq> js ''ArrowDown''" by (simp add: js_def)
  show "press (js ''ArrowDown'') s = s\<lparr>tp_overlay := Some (sp_trace_id (tp_spans s ! min (i + 1) (length (tp_spans s) - 1)))\<rparr>"
  proof (cases "i + 1 < length (tp_spans s)")
    case True
    then have "min (i + 1) (length (tp_spans s) - 1) = i + 1" by simp
    then show ?thesis using True by (simp add: press_def handleKeyDown_def assms(4) ne idx)
  next
    case False
    then have "min (i + 1) (length (tp_spans s) - 1) = i" using assms(3) by simp
    then show ?thesis using False self by (simp add: press_def handleKeyDown_def assms(4) ne idx)
  qed
  show "press (js ''ArrowUp'') s = s\<lparr>tp_overlay := Some (sp_trace_id (tp_spans s ! (i - 1)))\<rparr>"
  proof (cases "0 < i")
    case True
    then show ?thesis by (simp add: press_def handleKeyDown_def assms(4) ne idx keys)
  next
    case False
    then have "i = 0" by simp
    with idx ne self show ?thesis by (simp add: press_def handleKeyDown_def assms(4) keys)
  qed
qed

lemma presses:
  assumes "distinct (map sp_trace_id (tp_spans s))" and "[] \<notin> sp_trace_id ` set (tp_spans s)"
    and "i < length (tp_spans s)"
  shows "(press (js ''ArrowDown'') ^^ k) (s\<lparr>tp_overlay := Some (sp_trace_id (tp_spans s ! i))\<rparr>) =
      s\<lparr>tp_overlay := Some (sp_trace_id (tp_spans s ! min (i + k) (length (tp_spans s) - 1)))\<rparr>"
    and "(press (js ''ArrowUp'') ^^ k) (s\<lparr>tp_overlay := Some (sp_trace_id (tp_spans s ! i))\<rparr>) =
      s\<lparr>tp_overlay := Some (sp_trace_id (tp_spans s ! (i - k)))\<rparr>"
proof (induction k)
  case 0
  case 1 show ?case using assms(3) by (simp add: min_def)
  case 2 show ?case by simp
next
  case (Suc k)
  let ?n = "length (tp_spans s)"
  let ?at = "\<lambda>j. s\<lparr>tp_overlay := Some (sp_trace_id (tp_spans s ! j))\<rparr>"
  have step: "press (js ''ArrowDown'') (?at j) = ?at (min (j + 1) (?n - 1))"
    "press (js ''ArrowUp'') (?at j) = ?at (j - 1)" if "j < ?n" for j
    using press_at [of "?at j" j] assms(1,2) that by simp_all
  have next_i: "min (min (i + k) (?n - 1) + 1) (?n - 1) = min (i + Suc k) (?n - 1)" by linarith
  have "min (i + k) (?n - 1) < ?n" using assms(3) by linarith
  with step(1) have down: "press (js ''ArrowDown'') (?at (min (i + k) (?n - 1))) = ?at (min (i + Suc k) (?n - 1))"
    by (simp only: next_i)
  case 1 show ?case using Suc.IH(1) down by (simp del: One_nat_def min_def)
  case 2 show ?case using Suc.IH(2) step(2) [of "i - k"] assms(3) by simp
qed

text \<open>
  The arrow keys walk the whole list: as long as its trace ids differ, pressing the down key leads from each row
  to the next, through all of them in order, stops at the last, and the up key leads back.
\<close>

theorem arrow_keys_walk:
  assumes "distinct (map sp_trace_id (tp_spans s))" and "[] \<notin> sp_trace_id ` set (tp_spans s)"
    and "tp_overlay s = Some (sp_trace_id (tp_spans s ! i))" and "i + k < length (tp_spans s)"
  shows "tp_overlay ((press (js ''ArrowDown'') ^^ k) s) = Some (sp_trace_id (tp_spans s ! (i + k))) \<and>
    (press (js ''ArrowUp'') ^^ k) ((press (js ''ArrowDown'') ^^ k) s) = s \<and>
    press (js ''ArrowDown'') (s\<lparr>tp_overlay := Some (sp_trace_id (last (tp_spans s)))\<rparr>) =
      s\<lparr>tp_overlay := Some (sp_trace_id (last (tp_spans s)))\<rparr>"
proof -
  have self: "s\<lparr>tp_overlay := Some (sp_trace_id (tp_spans s ! i))\<rparr> = s" using assms(3) by simp
  have down: "(press (js ''ArrowDown'') ^^ k) s = s\<lparr>tp_overlay := Some (sp_trace_id (tp_spans s ! (i + k)))\<rparr>"
    using presses(1) [OF assms(1,2), of i k] assms(4) by (simp add: self)
  have up: "(press (js ''ArrowUp'') ^^ k) (s\<lparr>tp_overlay := Some (sp_trace_id (tp_spans s ! (i + k)))\<rparr>) = s"
    using presses(2) [OF assms(1,2,4), of k] by (simp add: self)
  have "last (tp_spans s) = tp_spans s ! (length (tp_spans s) - 1)" using assms(4) by (metis last_conv_nth list.size(3) not_less0)
  with presses(1) [OF assms(1,2), of "length (tp_spans s) - 1" 1] assms(4) down up show ?thesis by simp
qed

lemma arrow_keys_walk_witness:
  "tp_overlay ((press (js ''ArrowDown'') ^^ 1)
     ((first_rows (Rows (Some [demo_span ''a'', demo_span ''b'']) None))\<lparr>tp_overlay := Some (js ''a'')\<rparr>)) = Some (js ''b'')"
  using arrow_keys_walk [of "(first_rows (Rows (Some [demo_span ''a'', demo_span ''b'']) None))\<lparr>tp_overlay := Some (js ''a'')\<rparr>" 0 1]
  by (simp add: first_rows_shown demo_span_def js_def)

text \<open>
  The box that selects all compares counts. After a reload the selection of the old rows is still there, and with
  as many new rows the box shows all as selected while none is; checking it then clears the selection.
\<close>

theorem select_all_by_count:
  "\<exists>s ps. traces_run s \<and> queryState s = Resolved \<and> \<not> tp_loading s \<and> tp_spans s = [demo_span ''b''] \<and>
     set (selectedSpanIds s) \<inter> sp_span_id ` set (tp_spans s) = {} \<and> selectedSpanIds s \<noteq> [] \<and>
     header_cell s (''selection'', '''') = Elem ''th'' [] [] [Elem ''input'' ps [OnToggle SelectAll] []] \<and>
     (''checked'', PBool True) \<in> set ps \<and> selectedSpanIds (handle 0 SelectAll s) = []"
proof -
  let ?s = "first_rows (Rows (Some [demo_span ''a'']) None)"
  fix rt copied
  obtain w where w: "TracesPage rt 0 copied ?s = Inr w"
    using rows_visible [of ?s rt 0 copied] known_demo by (auto simp: first_rows_shown)
  have "SelectAll \<in> emits w"
  proof -
    obtain area where a: "table_area rt 0 copied ?s = Inr area"
      "w = box [filter_bar ?s, box ([toolbar ?s, area, PaginationControls ?s] @ shown (isBulkModalOpen ?s) [bulk_dialog])]"
      using w by (auto simp: TracesPage_def and_then_Inr_iff)
    have "SelectAll \<in> emits (header_cell ?s (''selection'', ''''))" by (simp add: header_cell_def)
    moreover have "(''selection'', '''') \<in> set (visibleColumns ?s)"
      by (simp add: visibleColumns_def columns_def column_visible_def)
    ultimately have "SelectAll \<in> emits area"
      using a(1) by (auto simp: table_area_def traces_table_def first_rows_shown and_then_Inr_iff emits_all_map)
    then show ?thesis by (simp add: a(2))
  qed
  then have "traces_run (after_render 0 (handle 0 SelectAll ?s))" by (rule traces_user [OF run_first_rows w])
  then have run_a: "traces_run (after_render 0 (?s\<lparr>selectedSpanIds := [js ''a'']\<rparr>))"
    by (simp add: handleSelectAll_def first_rows_shown demo_span_def js_set_def)
  define t where "t = after_render 0 (?s\<lparr>selectedSpanIds := [js ''a'']\<rparr>)"
  have fetched_s: "fetched ?s = Some (deps ?s)" using traces_invariant [OF run_first_rows] by blast
  have t: "selectedSpanIds t = [js ''a'']" "tp_project t = js ''old''" "tp_calls t = []"
    using fetched_s by (simp_all add: t_def render_same deps_def)
  have run_t: "traces_run t" using run_a by (simp add: t_def)
  let ?t = "t\<lparr>tp_project := js ''new'', tp_range := None, tp_overlay := None\<rparr>"
  have fetched_t: "fetched t = Some (deps t)" using traces_invariant [OF run_t] by blast
  define p where "p = after_render 0 ?t"
  have run_p: "traces_run p" unfolding p_def by (rule traces_props [OF run_t])
  obtain rq where "p = begin_request [] False rq ((sync_filters 0 ?t)\<lparr>fetched := Some (deps ?t)\<rparr>)"
    unfolding p_def using render_fresh [of ?t 0] default_window fetched_t t by (auto simp: deps_def js_def)
  then have p: "\<exists>c. tp_calls p = [c] \<and> tc_seq c = requestSeq p \<and> \<not> tc_append c" "selectedSpanIds p = [js ''a'']"
    by (simp_all add: begin_request_def t)
  then obtain c where c: "tp_calls p = [c]" "tc_seq c = requestSeq p" "\<not> tc_append c" by blast
  define q where "q = after_render 0 (end_request c (Rows (Some [demo_span ''b'']) None) (p\<lparr>tp_calls := []\<rparr>))"
  have fetched_p: "fetched p = Some (deps p)" using traces_invariant [OF run_p] by blast
  have "traces_run q" unfolding q_def by (rule run_reply_only [OF run_p c(1)])
  moreover have "queryState q = Resolved" "\<not> tp_loading q" "tp_spans q = [demo_span ''b'']" "selectedSpanIds q = [js ''a'']"
    using fetched_p p c by (simp_all add: q_def render_same end_request_def apply_reply_def take_rows_def Let_def deps_def)
  moreover have "sp_span_id (demo_span ''b'') = js ''b''" "js ''a'' \<noteq> js ''b''" by (simp_all add: demo_span_def js_def)
  ultimately show ?thesis
    by (intro exI [of _ q]) (simp add: header_cell_def handleSelectAll_def)
qed

end
