(* ===== verification/TraceDetail.thy ===== *)
theory TraceDetail
  imports Formatters SpanRollup SpanMessages SpanKinds Url
begin

text \<open>
  \<open>ui/src/pages/TraceDetail.tsx\<close>, the data: the rows of the waterfall, and the overlay's state with its
  requests and the polling of a trace whose root span has not arrived.
\<close>

section \<open>Content\<close>

text \<open>A message that is truthy, with a \<open>content\<close> that is a text with more than white space.\<close>

definition message_with_content :: "json \<Rightarrow> bool" where
  "message_with_content m \<longleftrightarrow>
     truthy m \<and> (case get_prop_opt m ''content'' of Some (JStr c) \<Rightarrow> trim c \<noteq> [] | _ \<Rightarrow> False)"

definition hasRealContent :: "jsstring option \<Rightarrow> bool" where
  "hasRealContent v =
     (case v of
        None \<Rightarrow> False
      | Some s \<Rightarrow>
          if s = [] \<or> trim s = [] then False
          else case JSON_parse s of
                 Inr (JArr ms) \<Rightarrow> list_ex message_with_content ms
               | _ \<Rightarrow> trim s \<noteq> [])"

section \<open>The waterfall\<close>

record WaterfallEntry =
  wf_name :: jsstring
  wf_spanId :: jsstring
  wf_start :: jsnum
  wf_duration :: jsnum
  wf_color :: string
  wf_kind :: jsstring
  wf_model :: "jsstring option"

definition entry_end :: "WaterfallEntry \<Rightarrow> jsnum" where
  "entry_end e = num_add (wf_start e) (wf_duration e)"

definition computeWaterfallAxisDomain :: "WaterfallEntry list \<Rightarrow> jsnum \<times> jsnum" where
  "computeWaterfallAxisDomain entries =
     (if entries = [] then (Fin 0, Fin 0) else (Fin 0, foldl num_max NegInf (map entry_end entries)))"

text \<open>\<open>collect\<close>: every span, then those below it.\<close>

fun collect_spans :: "AnnotatedSpan list \<Rightarrow> AnnotatedSpan list" where
  "collect_spans [] = []"
| "collect_spans (Annotated s r cs # xs) =
     Annotated s r cs # (case cs of Some ys \<Rightarrow> collect_spans ys | None \<Rightarrow> []) @ collect_spans xs"

definition all_spans :: "Span option \<Rightarrow> AnnotatedSpan list" where
  "all_spans tr = (case tr of Some t \<Rightarrow> collect_spans [annotateSpanTree t] | None \<Rightarrow> [])"

definition waterfall_entry :: "runtime \<Rightarrow> jsnum \<Rightarrow> SpanInfo \<Rightarrow> (js_error, WaterfallEntry) result" where
  "waterfall_entry rt base s =
     (let start = num_sub (getTime (date_parse rt (si_start_time s))) base;
          finish = num_sub (getTime (date_parse rt (si_end_time s))) base
      in and_then (getSpanKindColor (si_kind s)) (\<lambda>c. Inr
           \<lparr>wf_name = si_name s, wf_spanId = si_span_id s, wf_start = start, wf_duration = num_sub finish start,
            wf_color = c, wf_kind = si_kind s, wf_model = si_model s\<rparr>))"

definition waterfallData :: "runtime \<Rightarrow> Span option \<Rightarrow> (js_error, WaterfallEntry list) result" where
  "waterfallData rt tr =
     (case tr of
        None \<Rightarrow> Inr []
      | Some t \<Rightarrow>
          map_result (waterfall_entry rt (getTime (date_parse rt (si_start_time (span_info t)))))
            (map ann_info (all_spans tr)))"

section \<open>State\<close>

datatype live_status = Live | Stalled

datatype view_mode = Waterfall | TreeMode

text \<open>A request: whether it is a poll, and the trace and project of the effect that sent it.\<close>

record detail_call =
  dc_poll :: bool
  dc_trace :: jsstring
  dc_project :: jsstring

text \<open>The span to save, with its input and its output.\<close>

type_synonym save_span = "SpanInfo \<times> jsstring \<times> jsstring option"

text \<open>The last field is a ghost: the trace and project the shown trace was asked for with.\<close>

record trace_detail =
  td_trace_id :: jsstring
  td_project :: jsstring
  td_trace :: "Span option"
  traceRollup :: "rollup option"
  td_loading :: bool
  td_error :: "jsstring option"
  saveSpan :: "save_span option"
  liveStatus :: "live_status option"
  liveStart :: "int option"
  viewMode :: view_mode
  td_selected :: "jsstring option"
  expandedSpanId :: "jsstring option"
  td_interval :: bool
  td_calls :: "detail_call list"
  td_toasts :: "jsstring list"
  td_source :: "(jsstring \<times> jsstring) option"

definition LIVE_POLL_INTERVAL_MS :: nat where "LIVE_POLL_INTERVAL_MS = 5000"

text \<open>The environment's value is read once; 20 minutes unless it is a positive number.\<close>

definition LIVE_TIMEOUT_MS :: "jsstring option \<Rightarrow> jsnum" where
  "LIVE_TIMEOUT_MS raw =
     (let parsed = (case raw of Some s \<Rightarrow> string_to_number s | None \<Rightarrow> NaN);
          minutes = (case parsed of Fin x \<Rightarrow> if 0 < x then parsed else Fin 20 | _ \<Rightarrow> Fin 20)
      in num_mul (num_mul minutes (Fin 60)) (Fin 1000))"

definition DEFAULT_WORD_WRAP :: "jsstring option \<Rightarrow> bool" where
  "DEFAULT_WORD_WRAP raw \<longleftrightarrow> raw \<noteq> Some (js ''false'')"

section \<open>Loading\<close>

text \<open>\<open>None\<close> where the project's name cannot be encoded.\<close>

definition trace_url :: "jsstring \<Rightarrow> jsstring \<Rightarrow> jsstring option" where
  "trace_url i project =
     map_option (\<lambda>p. js ''/api/v1/traces/'' @ i @ js ''?project_id='' @ p) (encode_uri_component project)"

record TraceResponse =
  root_span :: "Span option"
  total_input_tokens :: "jsnum option"
  total_output_tokens :: "jsnum option"
  total_cost_usd :: "jsnum option"

text \<open>
  What a request comes to: the status of an answer outside 2xx, the message of whatever broke it (the network,
  or a body that is no trace), or a trace. Requests that were aborted come to nothing.
\<close>

datatype trace_reply = Status nat | Broken jsstring | Answer TraceResponse

definition status_message :: "nat \<Rightarrow> jsstring" where
  "status_message n =
     (if n = 404 then js ''Trace not found'' else js ''Failed to load trace ('' @ dec_nat n @ js '')'')"

definition or_zero :: "jsnum option \<Rightarrow> jsnum" where
  "or_zero v = (case v of Some x \<Rightarrow> x | None \<Rightarrow> Fin 0)"

definition applyData :: "detail_call \<Rightarrow> TraceResponse \<Rightarrow> trace_detail \<Rightarrow> trace_detail" where
  "applyData c d s =
     s\<lparr>td_trace := root_span d,
       traceRollup := Some \<lparr>ru_input_tokens = or_zero (total_input_tokens d),
         ru_output_tokens = or_zero (total_output_tokens d), ru_cost_usd = or_zero (total_cost_usd d)\<rparr>,
       td_source := Some (dc_trace c, dc_project c)\<rparr>"

text \<open>A root span that has a parent stands in for one that has not arrived.\<close>

definition provisional :: "Span option \<Rightarrow> bool" where
  "provisional tr = (case tr of Some t \<Rightarrow> si_parent_id (span_info t) \<noteq> [] | None \<Rightarrow> False)"

text \<open>The effect, after the clean-up of the one before it: its requests are aborted and its timer is cleared.\<close>

definition load_effect :: "trace_detail \<Rightarrow> trace_detail" where
  "load_effect s =
     s\<lparr>td_loading := True, td_error := None, liveStatus := None, liveStart := None, td_interval := False,
       td_calls := [\<lparr>dc_poll = False, dc_trace = td_trace_id s, dc_project = td_project s\<rparr>]\<rparr>"

definition load_end :: "int \<Rightarrow> detail_call \<Rightarrow> trace_reply \<Rightarrow> trace_detail \<Rightarrow> trace_detail" where
  "load_end now c r s =
     (case r of
        Status n \<Rightarrow> s\<lparr>td_error := Some (status_message n), td_loading := False\<rparr>
      | Broken m \<Rightarrow> s\<lparr>td_error := Some m, td_loading := False\<rparr>
      | Answer d \<Rightarrow>
          (let t = (applyData c d s)\<lparr>td_loading := False\<rparr>
           in if provisional (root_span d)
              then t\<lparr>liveStatus := Some Live, liveStart := Some now, td_interval := True\<rparr> else t))"

definition poll_tick :: "jsstring option \<Rightarrow> int \<Rightarrow> trace_detail \<Rightarrow> trace_detail" where
  "poll_tick env now s =
     (case liveStart s of
        Some start \<Rightarrow>
          if num_lt (LIVE_TIMEOUT_MS env) (num_of_int (now - start))
          then s\<lparr>liveStatus := Some Stalled, td_interval := False\<rparr>
          else s\<lparr>td_calls := td_calls s @ [\<lparr>dc_poll = True, dc_trace = td_trace_id s, dc_project = td_project s\<rparr>]\<rparr>
      | None \<Rightarrow> s\<lparr>td_calls := td_calls s @ [\<lparr>dc_poll = True, dc_trace = td_trace_id s, dc_project = td_project s\<rparr>]\<rparr>)"

definition poll_end :: "detail_call \<Rightarrow> trace_reply \<Rightarrow> trace_detail \<Rightarrow> trace_detail" where
  "poll_end c r s =
     (case r of
        Answer d \<Rightarrow>
          if provisional (root_span d) then applyData c d s
          else (applyData c d s)\<lparr>liveStatus := None, td_interval := False\<rparr>
      | _ \<Rightarrow> s)"

definition call_end :: "int \<Rightarrow> detail_call \<Rightarrow> trace_reply \<Rightarrow> trace_detail \<Rightarrow> trace_detail" where
  "call_end now c r s = (if dc_poll c then poll_end c r s else load_end now c r s)"

definition new_detail :: "jsstring \<Rightarrow> jsstring \<Rightarrow> trace_detail" where
  "new_detail i project =
     \<lparr>td_trace_id = i, td_project = project, td_trace = None, traceRollup = None, td_loading = True,
      td_error = None, saveSpan = None, liveStatus = None, liveStart = None, viewMode = Waterfall,
      td_selected = None, expandedSpanId = None, td_interval = False, td_calls = [], td_toasts = [],
      td_source = None\<rparr>"

definition mount_detail :: "jsstring \<Rightarrow> jsstring \<Rightarrow> trace_detail" where
  "mount_detail i project = load_effect (new_detail i project)"

definition change_props :: "jsstring \<Rightarrow> jsstring \<Rightarrow> trace_detail \<Rightarrow> trace_detail" where
  "change_props i project s =
     (if i = td_trace_id s \<and> project = td_project s then s
      else load_effect (s\<lparr>td_trace_id := i, td_project := project\<rparr>))"

end
