(* ===== verification/TraceView.thy ===== *)
theory TraceView
  imports TraceDetail JsonBlock Ui Prelude
begin

text \<open>
  \<open>ui/src/pages/TraceDetail.tsx\<close>, what the overlay shows: the waterfall, the tree of spans, the panel of a
  selected span; and the runs of the overlay.
\<close>

section \<open>Messages\<close>

datatype panel_tab = ChatTab | RawTab

datatype detail_msg =
    CloseDetail | SetMode view_mode | SelectSpan jsstring | ToggleDetails jsstring | ToggleRow "jsstring list"
  | ShowSave SpanInfo | ToggleWrap | SetTab panel_tab | ClosePanel | CloseSave | SaveDone

text \<open>The last ones with a state of their own belong to rows and panels, which keep it.\<close>

definition toggle_id :: "jsstring option \<Rightarrow> jsstring \<Rightarrow> jsstring option" where
  "toggle_id cur i = (if cur = Some i then None else Some i)"

definition handleSaveSuccess :: "trace_detail \<Rightarrow> trace_detail" where
  "handleSaveSuccess s =
     s\<lparr>saveSpan := None, td_toasts := td_toasts s @ [js ''Span saved to dataset'']\<rparr>"

definition save_of :: "SpanInfo \<Rightarrow> save_span" where
  "save_of x = (x, (case si_input x of Some t \<Rightarrow> t | None \<Rightarrow> []), si_output x)"

fun detail_handle :: "detail_msg \<Rightarrow> trace_detail \<Rightarrow> trace_detail" where
  "detail_handle (SetMode m) s = s\<lparr>viewMode := m\<rparr>"
| "detail_handle (SelectSpan i) s = s\<lparr>td_selected := toggle_id (td_selected s) i\<rparr>"
| "detail_handle (ToggleDetails i) s = s\<lparr>expandedSpanId := toggle_id (expandedSpanId s) i\<rparr>"
| "detail_handle (ShowSave x) s = s\<lparr>saveSpan := Some (save_of x)\<rparr>"
| "detail_handle ClosePanel s = s\<lparr>td_selected := None\<rparr>"
| "detail_handle CloseSave s = s\<lparr>saveSpan := None\<rparr>"
| "detail_handle SaveDone s = handleSaveSuccess s"
| "detail_handle _ s = s"

section \<open>What the file does not import\<close>

text \<open>
  The file calls \<open>formatCost\<close> in three places. It neither declares it nor imports it, so each of them throws
  when it is reached.
\<close>

definition cost_text :: "jsnum option \<Rightarrow> (js_error, jsstring) result" where
  "cost_text cost = Inl (ReferenceError ''formatCost'')"

section \<open>Texts and messages\<close>

text \<open>A value as the child of an element: objects are refused, \<open>null\<close> and booleans leave nothing.\<close>

fun react_child :: "json \<Rightarrow> (js_error, jsstring list) result" where
  "react_child (JStr s) = Inr [s]"
| "react_child (JNum n) = Inr [num_to_string n]"
| "react_child (JBool b) = Inr []"
| "react_child JNull = Inr []"
| "react_child (JArr xs) = and_then (map_result react_child xs) (\<lambda>ts. Inr (concat ts))"
| "react_child (JObj m) = Inl (Thrown (js ''Objects are not valid as a React child''))"

definition react_child_opt :: "json option \<Rightarrow> (js_error, jsstring list) result" where
  "react_child_opt v = (case v of Some j \<Rightarrow> react_child j | None \<Rightarrow> Inr [])"

definition ChatTurnsView :: "jsstring \<Rightarrow> string \<Rightarrow> bool \<Rightarrow> 'm view" where
  "ChatTurnsView v label wordWrap =
     (case parseChatTurns v of
        None \<Rightarrow> JsonCodeBlock v (Some (js label))
      | Some turns \<Rightarrow>
          box [box [tx label],
               box (map (\<lambda>t. box [inline [Text (ct_role t)],
                 Elem ''span'' [(''wrap'', PBool wordWrap)] [] [Text (ct_content t)]]) turns)])"

definition chat_message_view :: "ChatMessage \<Rightarrow> (js_error, 'm view) result" where
  "chat_message_view m =
     and_then (react_child_opt (cm_role m)) (\<lambda>r.
     and_then (react_child_opt (cm_content m)) (\<lambda>c. Inr
       (box [inline (map Text r), inline (map Text c)])))"

definition tool_call_view :: "ToolCall \<Rightarrow> (js_error, 'm view) result" where
  "tool_call_view c =
     and_then (react_child_opt (tc_id c)) (\<lambda>i.
     and_then (react_child_opt (tc_function c)) (\<lambda>f.
     and_then (react_child_opt (tc_output c)) (\<lambda>out. Inr
       (box ([box ([inline [tx ''call''], tx '':''] @ map Text i @ [Text (js '' '' @ [0xB7] @ js '' '')] @ map Text f),
              box [inline [tx ''Input:''],
                   inline (case tc_input c of Some t \<Rightarrow> [Text t] | None \<Rightarrow> [])]] @
             (if truthy_opt (tc_output c) then [box [inline [tx ''Output:''], inline (map Text out)]]
              else map Text out))))))"

definition FormattedChatMessages :: "ChatMessage list \<Rightarrow> ToolCall list option \<Rightarrow> (js_error, 'm view) result" where
  "FormattedChatMessages messages toolCalls =
     (let calls = (case toolCalls of Some cs \<Rightarrow> cs | None \<Rightarrow> []) in
      and_then (map_result chat_message_view messages) (\<lambda>ms.
      and_then (map_result tool_call_view calls) (\<lambda>cs. Inr
        (box (shown (messages \<noteq> []) [box [tx ''Messages''], box ms] @
              shown (calls \<noteq> [])
                [box (box [Text (js ''Tool Calls ('' @ dec_nat (length calls) @ js '')'')] # cs)])))))"

definition score_badge :: "jsstring \<times> jsnum \<Rightarrow> 'm view" where
  "score_badge x = inline [Text (fst x @ js '': '' @ to_fixed 2 (snd x))]"

definition ScoreBadges :: "(jsstring \<times> jsnum) list \<Rightarrow> 'm view" where
  "ScoreBadges scores = box (map score_badge scores)"

text \<open>The badge of a kind, where there is one.\<close>

definition kind_badge :: "jsstring \<Rightarrow> (js_error, 'm view list) result" where
  "kind_badge kind =
     (if kind = [] then Inr []
      else and_then (getSpanKindColor kind) (\<lambda>c.
           and_then (SpanKindIcon kind) (\<lambda>icon. Inr
             [Elem ''span'' [(''color'', pstr c)] [] [inline [icon], Text kind]])))"

section \<open>The waterfall\<close>

definition wf_cell :: "jsstring option \<Rightarrow> WaterfallEntry \<Rightarrow> detail_msg view" where
  "wf_cell sel e =
     Elem ''Cell'' [(''fill'', pstr (wf_color e)), (''selected'', PBool (sel = Some (wf_spanId e)))]
       [OnClick (SelectSpan (wf_spanId e))] []"

definition gantt_chart :: "jsstring option \<Rightarrow> WaterfallEntry list \<Rightarrow> detail_msg view" where
  "gantt_chart sel data =
     (let d = computeWaterfallAxisDomain data in
      Elem ''BarChart'' [(''layout'', pstr ''vertical'')] []
        [Elem ''XAxis'' [(''dataKey'', pstr ''start''), (''min'', PNum (fst d)), (''max'', PNum (snd d))] [] [],
         Elem ''YAxis'' [(''dataKey'', pstr ''name'')] [] [],
         Elem ''Bar'' [(''dataKey'', pstr ''start'')] [] [],
         Elem ''Bar'' [(''dataKey'', pstr ''duration'')] [] (map (wf_cell sel) data)])"

definition wf_row :: "jsstring option \<Rightarrow> WaterfallEntry \<Rightarrow> detail_msg view" where
  "wf_row sel e =
     Elem ''div'' [(''role'', pstr ''button''), (''aria-label'', PStr (js ''Select span: '' @ wf_name e))]
       [OnClick (SelectSpan (wf_spanId e)),
        OnKeyDown (\<lambda>k. if k = js ''Enter'' then Some (SelectSpan (wf_spanId e)) else None)]
       [box ([box [Text (wf_name e)]] @
             (case wf_model e of Some m \<Rightarrow> shown (m \<noteq> []) [box [Text m]] | None \<Rightarrow> [])),
        inline [Text (formatMs (wf_duration e))]]"

definition GanttWaterfall :: "jsstring option \<Rightarrow> WaterfallEntry list \<Rightarrow> detail_msg view" where
  "GanttWaterfall sel data =
     (if data = [] then EmptyState Default (Some (js ''No spans'')) (Some (js ''This trace has no child spans'')) None None
      else box [box [box [inline [tx ''Waterfall Timeline'']], gantt_chart sel data],
                box (box [inline [Text (js ''Spans ('' @ dec_nat (length data) @ js '')'')]] # map (wf_row sel) data)])"

section \<open>The panel of a span\<close>

text \<open>Whether lines wrap, and the tab: the state of a mounted panel.\<close>

type_synonym panel_state = "bool \<times> panel_tab"

definition new_panel :: "jsstring option \<Rightarrow> panel_state" where
  "new_panel env = (DEFAULT_WORD_WRAP env, ChatTab)"

fun panel_handle :: "detail_msg \<Rightarrow> panel_state \<Rightarrow> panel_state" where
  "panel_handle ToggleWrap (w, t) = (\<not> w, t)"
| "panel_handle (SetTab t) (w, _) = (w, t)"
| "panel_handle _ p = p"

definition extracted :: "(nat \<Rightarrow> jsstring) \<Rightarrow> SpanInfo \<Rightarrow> (js_error, SpanMessages) result" where
  "extracted rnd x =
     (case si_attributes x of
        Some a \<Rightarrow> extractSpanMessages rnd a
      | None \<Rightarrow> Inr \<lparr>sm_messages = None, sm_toolCalls = None, sm_raw = []\<rparr>)"

definition hasChatContent :: "SpanMessages \<Rightarrow> bool" where
  "hasChatContent m \<longleftrightarrow>
     (case sm_messages m of Some ms \<Rightarrow> ms \<noteq> [] | None \<Rightarrow> False) \<or>
     (case sm_toolCalls m of Some cs \<Rightarrow> cs \<noteq> [] | None \<Rightarrow> False)"

definition meta :: "string \<Rightarrow> jsstring \<Rightarrow> 'm view" where
  "meta label v = box [inline [tx label], box [Text v]]"

definition panel_metadata :: "SpanInfo \<Rightarrow> 'm view" where
  "panel_metadata x =
     box ([meta ''Span ID'' (si_span_id x),
           meta ''Parent ID'' (if si_parent_id x \<noteq> [] then si_parent_id x else em_dash)] @
          (case si_model x of Some m \<Rightarrow> shown (m \<noteq> []) [meta ''Model'' m] | None \<Rightarrow> []) @
          (case si_status_code x of Some c \<Rightarrow> shown (c \<noteq> []) [meta ''Status'' (formatStatus (Some c))] | None \<Rightarrow> []))"

definition scores_part :: "SpanInfo \<Rightarrow> 'm view list" where
  "scores_part x =
     (case si_scores x of
        Some ss \<Rightarrow> shown (ss \<noteq> []) [box [box [tx ''Scores''], ScoreBadges ss]]
      | None \<Rightarrow> [])"

definition text_of_span :: "jsstring option \<Rightarrow> jsstring" where
  "text_of_span t = (case t of Some s \<Rightarrow> s | None \<Rightarrow> [])"

definition raw_part :: "bool \<Rightarrow> SpanInfo \<Rightarrow> 'm view list" where
  "raw_part wordWrap x =
     shown (hasRealContent (si_input x)) [ChatTurnsView (text_of_span (si_input x)) ''Input'' wordWrap] @
     shown (hasRealContent (si_output x)) [ChatTurnsView (text_of_span (si_output x)) ''Output'' wordWrap] @
     (case si_attributes x of
        Some a \<Rightarrow> shown (a \<noteq> []) [box [box [tx ''Attributes''], JsonCodeBlock (pretty_json 0 (JObj a)) (Some (js ''Attributes''))]]
      | None \<Rightarrow> [])"

definition panel_header :: "runtime \<Rightarrow> bool \<Rightarrow> SpanInfo \<Rightarrow> (js_error, detail_msg view) result" where
  "panel_header rt wordWrap x =
     and_then (kind_badge (si_kind x)) (\<lambda>badge.
     and_then (cost_text (Some (si_cost_usd x))) (\<lambda>cost. Inr
       (box [box [box (inline [Text (si_name x)] # badge),
                  box [inline [Text (formatDuration rt (si_start_time x) (si_end_time x))],
                       inline [Text (rt_locale_number rt (totalTokens (si_input_tokens x) (si_output_tokens x))), tx '' tokens''],
                       inline [Text cost]]],
             box [button_with
                    [(''aria-label'', pstr (if wordWrap then ''Disable word wrap'' else ''Enable word wrap'')),
                     (''title'', pstr (if wordWrap then ''Word wrap: on'' else ''Word wrap: off''))] ToggleWrap [],
                  button_with [(''aria-label'', pstr ''Close detail panel'')] ClosePanel []]])))"

definition SlideInDetailPanel ::
    "runtime \<Rightarrow> (nat \<Rightarrow> jsstring) \<Rightarrow> panel_state \<Rightarrow> SpanInfo \<Rightarrow> (js_error, detail_msg view) result" where
  "SlideInDetailPanel rt rnd p x =
     and_then (extracted rnd x) (\<lambda>m.
     and_then (panel_header rt (fst p) x) (\<lambda>header.
     and_then (if hasChatContent m \<and> snd p = ChatTab
               then and_then (FormattedChatMessages (case sm_messages m of Some ms \<Rightarrow> ms | None \<Rightarrow> []) (sm_toolCalls m))
                      (\<lambda>v. Inr [v])
               else Inr []) (\<lambda>chat. Inr
       (box [Elem ''div'' [] [OnClick ClosePanel] [],
             Elem ''aside'' [(''aria-label'', pstr ''Span detail panel'')] []
               ([header] @
                shown (hasChatContent m) [box [button (SetTab ChatTab) [tx ''Chat''], button (SetTab RawTab) [tx ''Raw'']]] @
                [box ([panel_metadata x] @ scores_part x @ chat @
                      shown (\<not> hasChatContent m \<or> snd p = RawTab) (raw_part (fst p) x) @
                      shown (hasRealContent (si_input x)) [button (ShowSave x) [tx ''Save to Dataset'']])])]))))"

section \<open>The tree of spans\<close>

definition isToolSpan :: "SpanInfo \<Rightarrow> bool" where
  "isToolSpan x \<longleftrightarrow> si_kind x = js ''tool'' \<or> ends_with (si_name x) (js ''Action'')"

definition toolSummary :: "SpanInfo \<Rightarrow> ToolSummary option" where
  "toolSummary x =
     (if isToolSpan x then getToolSummary (Some (si_name x)) (si_input x) (si_output x) else None)"

definition has_children :: "AnnotatedSpan \<Rightarrow> bool" where
  "has_children a \<longleftrightarrow> (case ann_children a of Some cs \<Rightarrow> cs \<noteq> [] | None \<Rightarrow> False)"

text \<open>The line of a row; a click on one of its buttons does not reach the row.\<close>

definition row_line ::
    "runtime \<Rightarrow> jsstring option \<Rightarrow> jsstring list \<Rightarrow> bool \<Rightarrow> AnnotatedSpan \<Rightarrow> (js_error, detail_msg view) result" where
  "row_line rt details path opened a =
     (let x = ann_info a; r = ann_rollup a; isExpanded = (details = Some (si_span_id x)) in
      and_then (getSpanKindColor (si_kind x)) (\<lambda>color.
      and_then (cost_text (Some (ru_cost_usd r))) (\<lambda>cost. Inr
        (Elem ''div'' [] [OnClick (SelectSpan (si_span_id x))]
           ([Elem ''div'' [(''background'', pstr color)] [] []] @
            [if has_children a
             then button_with [(''aria-label'', pstr (if opened then ''Collapse'' else ''Expand''))] (ToggleRow path) []
             else box []] @
            [button_with [(''aria-label'', pstr (if isExpanded then ''Hide details'' else ''Show details''))]
               (ToggleDetails (si_span_id x)) [],
             box ([box [Text (si_name x)],
                   box (Text (take 8 (si_span_id x)) #
                        (case si_model x of Some m \<Rightarrow> shown (m \<noteq> []) [inline [Text m]] | None \<Rightarrow> []))] @
                  (case toolSummary x of
                     Some t \<Rightarrow> [Elem ''div'' [(''title'', PStr (sum_title t))] [] [Text (sum_title t)]]
                   | None \<Rightarrow> [])),
             inline [Text (formatDuration rt (si_start_time x) (si_end_time x))],
             inline [Text (num_to_string (num_add (ru_input_tokens r) (ru_output_tokens r))), tx '' t''],
             inline [Text cost]] @
            shown (nonempty (si_input x))
              [button_with [(''title'', pstr ''Save to dataset''), (''aria-label'', pstr ''Save span to dataset'')]
                 (ShowSave x) [tx ''Save'']])))))"

definition row_details :: "SpanInfo \<Rightarrow> 'm view" where
  "row_details x =
     box ((case toolSummary x of
             Some t \<Rightarrow> [box [box [tx ''Tool Call''],
               box [box [Text (sum_title t)], Elem ''pre'' [] [] [Text (sum_detail t)]]]]
           | None \<Rightarrow> []) @
          [box (shown (nonempty (si_input x)) [JsonCodeBlock (text_of_span (si_input x)) (Some (js ''Input''))] @
                shown (nonempty (si_output x)) [JsonCodeBlock (text_of_span (si_output x)) (Some (js ''Output''))])] @
          scores_part x)"

text \<open>
  A row and, when it is open, those below it. \<open>toggled\<close> are the rows whose state has been changed, by their
  path; the others are open down to depth 1.
\<close>

fun SpanRow ::
    "runtime \<Rightarrow> jsstring option \<Rightarrow> (jsstring list \<Rightarrow> bool option) \<Rightarrow> jsstring list \<Rightarrow> nat \<Rightarrow> AnnotatedSpan \<Rightarrow>
     (js_error, detail_msg view) result" where
  "SpanRow rt details toggled path depth (Annotated x r cs) =
     (let p = path @ [si_span_id x];
          opened = (case toggled p of Some b \<Rightarrow> b | None \<Rightarrow> depth \<le> 1) in
      and_then (row_line rt details p opened (Annotated x r cs)) (\<lambda>line.
      and_then (if opened
                then map_result (SpanRow rt details toggled p (depth + 1)) (case cs of Some ys \<Rightarrow> ys | None \<Rightarrow> [])
                else Inr []) (\<lambda>below. Inr
        (box ([line] @ shown (details = Some (si_span_id x)) [row_details x] @ shown (below \<noteq> []) [box below])))))"

text \<open>No row is ever mounted (see below), so none has been toggled.\<close>

definition TraceTree :: "runtime \<Rightarrow> jsstring option \<Rightarrow> AnnotatedSpan \<Rightarrow> (js_error, detail_msg view) result" where
  "TraceTree rt details a = and_then (SpanRow rt details (\<lambda>_. None) [] 0 a) (\<lambda>v. Inr (box [v]))"

section \<open>The overlay\<close>

definition live_badge :: "live_status \<Rightarrow> 'm view" where
  "live_badge l = box [inline [], tx (case l of Live \<Rightarrow> ''Live'' | Stalled \<Rightarrow> ''Stalled'')]"

definition detail_header :: "trace_detail \<Rightarrow> detail_msg view" where
  "detail_header s =
     box ([button_with [(''aria-label'', pstr ''Close trace detail'')] CloseDetail [tx ''Back''],
           box [inline [Text (td_trace_id s)]]] @
          (case liveStatus s of Some l \<Rightarrow> [live_badge l] | None \<Rightarrow> []) @
          [button_with [(''aria-label'', pstr ''Close trace detail'')] CloseDetail []])"

definition mode_tabs :: "detail_msg view" where
  "mode_tabs =
     box [button_with [(''aria-label'', pstr ''Switch to waterfall view'')] (SetMode Waterfall) [tx ''Waterfall''],
          button_with [(''aria-label'', pstr ''Switch to tree view'')] (SetMode TreeMode) [tx ''Tree'']]"

definition rollup_of :: "trace_detail \<Rightarrow> rollup" where
  "rollup_of s = (case traceRollup s of Some r \<Rightarrow> r | None \<Rightarrow> zero_rollup)"

definition info_bar :: "runtime \<Rightarrow> int \<Rightarrow> trace_detail \<Rightarrow> SpanInfo \<Rightarrow> (js_error, 'm view) result" where
  "info_bar rt now s x =
     and_then (kind_badge (si_kind x)) (\<lambda>badge.
     and_then (if num_lt (Fin 0) (ru_cost_usd (rollup_of s))
               then and_then (cost_text (Some (ru_cost_usd (rollup_of s)))) (\<lambda>c. Inr [inline [Text c]]) else Inr [])
       (\<lambda>cost. Inr
       (box [box ([inline [Text (si_name x)]] @ badge @
                  (case si_model x of Some m \<Rightarrow> shown (m \<noteq> []) [inline [Text m]] | None \<Rightarrow> [])),
             box ([inline [Text (formatTime rt now (si_start_time x))],
                   inline [Text (formatDuration rt (si_start_time x) (si_end_time x))],
                   inline [Text (rt_locale_number rt (num_add (ru_input_tokens (rollup_of s)) (ru_output_tokens (rollup_of s)))),
                           tx '' tokens'']] @ cost)])))"

definition shows_trace :: "trace_detail \<Rightarrow> bool" where
  "shows_trace s \<longleftrightarrow> \<not> td_loading s \<and> (td_error s = None \<or> td_error s = Some []) \<and> td_trace s \<noteq> None"

definition detail_content ::
    "runtime \<Rightarrow> int \<Rightarrow> WaterfallEntry list \<Rightarrow> trace_detail \<Rightarrow> (js_error, detail_msg view) result" where
  "detail_content rt now data s =
     (if td_loading s then Inr (box [box [Skeleton], box [Skeleton, LoadingState 5 False]])
      else case (td_trace s, shows_trace s) of
             (Some t, True) \<Rightarrow>
               and_then (info_bar rt now s (span_info t)) (\<lambda>bar.
               and_then (if viewMode s = Waterfall then Inr (GanttWaterfall (td_selected s) data)
                         else TraceTree rt (expandedSpanId s) (annotateSpanTree t)) (\<lambda>v. Inr (box [bar, v])))
           | _ \<Rightarrow> Inr (box [EmptyState ErrorVariant
                 (Some (case td_error s of Some e \<Rightarrow> e | None \<Rightarrow> js ''Trace not found''))
                 (Some (js ''The requested trace could not be loaded'')) (Some (js ''Close'')) (Some CloseDetail)]))"

definition selected_span :: "trace_detail \<Rightarrow> SpanInfo option" where
  "selected_span s = find (\<lambda>x. td_selected s = Some (si_span_id x)) (map ann_info (all_spans (td_trace s)))"

text \<open>The dialog is a component of its own; here it is its two callbacks.\<close>

definition save_dialog :: "detail_msg view" where
  "save_dialog = Elem ''dialog'' [] [OnClick CloseSave, OnSubmit SaveDone] []"

definition SlideInTraceDetail ::
    "runtime \<Rightarrow> (nat \<Rightarrow> jsstring) \<Rightarrow> jsstring option \<Rightarrow> int \<Rightarrow> trace_detail \<Rightarrow> (js_error, detail_msg view) result" where
  "SlideInTraceDetail rt rnd env now s =
     and_then (waterfallData rt (td_trace s)) (\<lambda>data.
     and_then (detail_content rt now data s) (\<lambda>content.
     and_then (case selected_span s of
                 Some x \<Rightarrow> and_then (SlideInDetailPanel rt rnd (new_panel env) x) (\<lambda>v. Inr [v])
               | None \<Rightarrow> Inr []) (\<lambda>panel. Inr
       (box [Elem ''div'' [] [OnClick CloseDetail] [],
             Elem ''aside'' [(''aria-label'', pstr ''Trace detail'')] []
               ([detail_header s, mode_tabs, box ([box [content]] @ panel)] @
                shown (saveSpan s \<noteq> None) [save_dialog])]))))"

end
