(* ===== verification/TraceOverlay.thy ===== *)
theory TraceOverlay
  imports TraceView
begin

text \<open>
  \<open>ui/src/pages/TraceDetail.tsx\<close>, the overlay as a whole: its runs, what they show, and when it can be
  rendered at all.
\<close>

lemma to_double_not_negative: "0 \<le> x \<Longrightarrow> \<not> num_lt (to_double x) (Fin 0)"
  using round_mag_nonneg [of x] by (auto simp: to_double_def Let_def)

lemma LIVE_TIMEOUT_not_negative: "\<not> num_lt (LIVE_TIMEOUT_MS env) (Fin 0)"
proof -
  have "\<exists>x. (case p of Fin x \<Rightarrow> if 0 < x then p else Fin 20 | _ \<Rightarrow> Fin 20) = Fin x \<and> 0 \<le> x" for p
    by (cases p) auto
  then obtain x where x: "LIVE_TIMEOUT_MS env = num_mul (num_mul (Fin x) (Fin 60)) (Fin 1000)" "0 \<le> x"
    unfolding LIVE_TIMEOUT_MS_def Let_def by metis
  then have "\<not> num_lt (to_double (x * 60)) (Fin 0)" by (intro to_double_not_negative) simp
  then show ?thesis using x(1) to_double_not_negative by (cases "to_double (x * 60)") (auto simp: inf_of_sign_def Let_def)
qed

section \<open>Runs\<close>

text \<open>
  The overlay opens for a trace, is given another one, the user acts on what is shown, the timer fires while
  it is set, and requests in flight are answered in any order. No engine's error message is empty.
\<close>

inductive detail_run :: "jsstring option \<Rightarrow> trace_detail \<Rightarrow> bool" for env where
  detail_mount: "detail_run env (mount_detail i p)"
| detail_props: "detail_run env s \<Longrightarrow> detail_run env (change_props i p s)"
| detail_user: "detail_run env s \<Longrightarrow> SlideInTraceDetail rt rnd wrap now s = Inr v \<Longrightarrow> m \<in> emits v \<Longrightarrow>
    detail_run env (detail_handle m s)"
| detail_tick: "detail_run env s \<Longrightarrow> td_interval s \<Longrightarrow> detail_run env (poll_tick env now s)"
| detail_reply: "detail_run env s \<Longrightarrow> td_calls s = xs @ c # ys \<Longrightarrow> r \<noteq> Broken [] \<Longrightarrow>
    detail_run env (call_end now c r (s\<lparr>td_calls := xs @ ys\<rparr>))"

definition detail_inv :: "trace_detail \<Rightarrow> bool" where
  "detail_inv s \<longleftrightarrow>
     (\<forall>c\<in>set (td_calls s). dc_trace c = td_trace_id s \<and> dc_project c = td_project s \<and> dc_poll c = (\<not> td_loading s)) \<and>
     (td_loading s \<longrightarrow> length (td_calls s) = 1) \<and>
     (td_interval s \<longleftrightarrow> liveStatus s = Some Live) \<and> (td_interval s \<longrightarrow> liveStart s \<noteq> None \<and> \<not> td_loading s) \<and>
     (\<not> td_loading s \<and> td_error s = None \<longrightarrow> td_source s = Some (td_trace_id s, td_project s)) \<and>
     (td_error s \<noteq> None \<longrightarrow> td_calls s = [] \<and> td_error s \<noteq> Some [] \<and> \<not> td_interval s)"

lemma load_effect_inv: "detail_inv (load_effect s)"
  by (simp add: detail_inv_def load_effect_def)

lemma detail_handle_frame [simp]:
  "td_trace_id (detail_handle m s) = td_trace_id s" "td_project (detail_handle m s) = td_project s"
  "td_calls (detail_handle m s) = td_calls s" "td_loading (detail_handle m s) = td_loading s"
  "td_interval (detail_handle m s) = td_interval s" "liveStatus (detail_handle m s) = liveStatus s"
  "liveStart (detail_handle m s) = liveStart s" "td_error (detail_handle m s) = td_error s"
  "td_source (detail_handle m s) = td_source s"
  by (cases m; simp add: handleSaveSuccess_def)+

lemma status_message_nonempty: "status_message n \<noteq> []"
  by (simp add: status_message_def js_def)

lemma detail_invariant: "detail_run env s \<Longrightarrow> detail_inv s"
proof (induction rule: detail_run.induct)
  case (detail_mount i p)
  show ?case by (simp add: mount_detail_def load_effect_inv)
next
  case (detail_props s i p)
  then show ?case by (simp add: change_props_def load_effect_inv)
next
  case (detail_user s rt rnd wrap now v m)
  show ?case using detail_user.IH unfolding detail_inv_def detail_handle_frame .
next
  case (detail_tick s now)
  then show ?case by (auto simp: detail_inv_def poll_tick_def split: option.splits)
next
  case (detail_reply s xs c ys r now)
  note inv = detail_reply.IH and calls = detail_reply.hyps(2)
  have c: "dc_trace c = td_trace_id s" "dc_project c = td_project s" "dc_poll c = (\<not> td_loading s)"
    and noerr: "td_error s = None"
    and rest: "\<forall>d\<in>set (xs @ ys). dc_trace d = td_trace_id s \<and> dc_project d = td_project s \<and> dc_poll d = (\<not> td_loading s)"
    using inv by (auto simp: detail_inv_def calls)
  show ?case
  proof (cases "td_loading s")
    case True
    then have only: "xs = []" "ys = []" using inv calls by (auto simp: detail_inv_def)
    with True c inv noerr detail_reply.hyps(3) show ?thesis
      by (cases r) (auto simp: detail_inv_def call_end_def load_end_def applyData_def Let_def status_message_nonempty)
  next
    case False
    with c inv noerr rest show ?thesis
      by (cases r) (auto simp: detail_inv_def call_end_def poll_end_def applyData_def)
  qed
qed

text \<open>
  C20: the overlay shows what it was opened for. In every run the requests in flight are for its trace and project,
  it is loading exactly while its first request is in flight, and then nothing else is; the timer that polls
  runs exactly while the overlay says so; and what it shows is the answer to a request for this trace.
\<close>

theorem overlay_shows_its_trace:
  assumes "detail_run env s"
  shows "(td_loading s \<longleftrightarrow> (\<exists>c\<in>set (td_calls s). \<not> dc_poll c)) \<and> (td_loading s \<longrightarrow> length (td_calls s) = 1) \<and>
    (\<forall>c\<in>set (td_calls s). dc_trace c = td_trace_id s \<and> dc_project c = td_project s) \<and>
    (td_interval s \<longleftrightarrow> liveStatus s = Some Live) \<and>
    (shows_trace s \<longrightarrow> td_source s = Some (td_trace_id s, td_project s))"
proof -
  have inv: "detail_inv s" by (rule detail_invariant [OF assms])
  then have calls: "\<forall>c\<in>set (td_calls s). dc_trace c = td_trace_id s \<and> dc_project c = td_project s \<and> dc_poll c = (\<not> td_loading s)"
    and one: "td_loading s \<longrightarrow> length (td_calls s) = 1" and timer: "td_interval s \<longleftrightarrow> liveStatus s = Some Live"
    and source: "td_error s = None \<Longrightarrow> \<not> td_loading s \<Longrightarrow> td_source s = Some (td_trace_id s, td_project s)"
    and error: "td_error s \<noteq> Some []"
    unfolding detail_inv_def by blast+
  have "td_calls s \<noteq> []" if "td_loading s" using one that by auto
  then have "td_loading s \<longleftrightarrow> (\<exists>c\<in>set (td_calls s). \<not> dc_poll c)" using calls by (meson list.set_sel(1))
  moreover have "shows_trace s \<longrightarrow> td_source s = Some (td_trace_id s, td_project s)"
    using source error by (auto simp: shows_trace_def)
  ultimately show ?thesis using calls one timer by blast
qed

section \<open>A late poll\<close>

definition demo_info :: "string \<Rightarrow> string \<Rightarrow> SpanInfo" where
  "demo_info i parent =
     \<lparr>si_span_id = js i, si_trace_id = js ''t'', si_parent_id = js parent, si_project_id = js ''p'', si_name = js i,
      si_kind = js ''llm'', si_model = None, si_start_time = [], si_end_time = [], si_cost_usd = Fin 0,
      si_input_tokens = Fin 0, si_output_tokens = Fin 0, si_input = None, si_output = None,
      si_status_code = None, si_scores = None, si_attributes = None\<rparr>"

definition answer :: "Span \<Rightarrow> jsnum \<Rightarrow> trace_reply" where
  "answer t cost = Answer \<lparr>root_span = Some t, total_input_tokens = None, total_output_tokens = None,
     total_cost_usd = Some cost\<rparr>"

definition opened_with :: "Span \<Rightarrow> jsnum \<Rightarrow> trace_detail" where
  "opened_with t cost =
     load_end 0 \<lparr>dc_poll = False, dc_trace = js ''t'', dc_project = js ''p''\<rparr> (answer t cost)
       ((mount_detail (js ''t'') (js ''p''))\<lparr>td_calls := []\<rparr>)"

lemma run_opened: "detail_run env (opened_with t cost)"
proof -
  have calls: "td_calls (mount_detail (js ''t'') (js ''p'')) =
      [] @ \<lparr>dc_poll = False, dc_trace = js ''t'', dc_project = js ''p''\<rparr> # []"
    by (simp add: mount_detail_def load_effect_def new_detail_def)
  have "detail_run env (call_end 0 \<lparr>dc_poll = False, dc_trace = js ''t'', dc_project = js ''p''\<rparr> (answer t cost)
      ((mount_detail (js ''t'') (js ''p''))\<lparr>td_calls := [] @ []\<rparr>))"
    by (rule detail_reply [OF detail_mount calls]) (simp add: answer_def)
  then show ?thesis by (simp add: opened_with_def call_end_def)
qed

lemma opened_simps [simp]:
  "td_trace (opened_with t cost) = Some t" "td_loading (opened_with t cost) = False"
  "td_error (opened_with t cost) = None" "td_calls (opened_with t cost) = []"
  "ru_cost_usd (rollup_of (opened_with t cost)) = cost" "viewMode (opened_with t cost) = Waterfall"
  "td_selected (opened_with t cost) = None"
  by (simp_all add: opened_with_def load_end_def answer_def applyData_def rollup_of_def or_zero_def mount_detail_def
      load_effect_def new_detail_def Let_def)

lemma overlay_shows_its_trace_witness:
  "shows_trace (opened_with (Span (demo_info ''a'' '''') None) (Fin 0)) \<and>
   td_source (opened_with (Span (demo_info ''a'' '''') None) (Fin 0)) =
     Some (td_trace_id (opened_with (Span (demo_info ''a'' '''') None) (Fin 0)),
       td_project (opened_with (Span (demo_info ''a'' '''') None) (Fin 0)))"
proof -
  let ?s = "opened_with (Span (demo_info ''a'' '''') None) (Fin 0)"
  have "shows_trace ?s" by (simp add: shows_trace_def)
  with overlay_shows_its_trace [OF run_opened] show ?thesis by blast
qed

text \<open>
  A poll that comes late puts the provisional trace back. Two polls can be in flight; once one has brought
  the root span polling stops, and if the answer to the other, sent earlier, comes after it, the overlay ends
  idle, without its badge, with a root span that is not the trace's.
\<close>

theorem late_poll_brings_back_provisional:
  "\<exists>s. detail_run env s \<and> shows_trace s \<and> liveStatus s = None \<and> \<not> td_interval s \<and> td_calls s = [] \<and>
     td_trace s = Some (Span (demo_info ''b'' ''a'') None)"
proof -
  let ?part = "Span (demo_info ''b'' ''a'') None" and ?full = "Span (demo_info ''a'' '''') (Some [Span (demo_info ''b'' ''a'') None])"
  let ?s = "opened_with ?part (Fin 0)"
  let ?c = "\<lparr>dc_poll = True, dc_trace = td_trace_id ?s, dc_project = td_project ?s\<rparr>"
  have prov: "provisional (Some ?part)" "\<not> provisional (Some ?full)"
    by (simp_all add: provisional_def demo_info_def js_def)
  have live: "td_interval ?s" "liveStart ?s = Some 0"
    using prov(1) by (simp_all add: opened_with_def load_end_def answer_def Let_def)
  have fresh: "\<not> num_lt (LIVE_TIMEOUT_MS env) (num_of_int (0 - 0))"
    using LIVE_TIMEOUT_not_negative [of env] by simp
  have tick: "poll_tick env 0 u = u\<lparr>td_calls := td_calls u @ [\<lparr>dc_poll = True, dc_trace = td_trace_id u, dc_project = td_project u\<rparr>]\<rparr>"
    if "liveStart u = Some 0" for u
    using fresh that by (simp add: poll_tick_def)
  define u where "u = poll_tick env 0 (poll_tick env 0 ?s)"
  have "detail_run env (poll_tick env 0 ?s)" by (rule detail_tick [OF run_opened live(1)])
  then have run_u: "detail_run env u" unfolding u_def
    by (rule detail_tick) (simp add: tick live)
  have u: "td_calls u = [?c] @ ?c # []" "liveStart u = Some 0" "td_loading u = False" "td_error u = None"
    by (simp_all add: u_def tick live)
  define v where "v = call_end 0 ?c (answer ?full (Fin 0)) (u\<lparr>td_calls := [?c] @ []\<rparr>)"
  have run_v: "detail_run env v" unfolding v_def
    by (rule detail_reply [OF run_u u(1)]) (simp add: answer_def)
  have v: "td_calls v = [] @ ?c # []" "td_loading v = False" "td_error v = None" "liveStatus v = None" "\<not> td_interval v"
    using prov u by (simp_all add: v_def call_end_def poll_end_def answer_def applyData_def)
  define w where "w = call_end 0 ?c (answer ?part (Fin 0)) (v\<lparr>td_calls := [] @ []\<rparr>)"
  have "detail_run env w" unfolding w_def
    by (rule detail_reply [OF run_v v(1)]) (simp add: answer_def)
  moreover have "shows_trace w" "liveStatus w = None" "\<not> td_interval w" "td_calls w = []" "td_trace w = Some ?part"
    using prov v by (simp_all add: w_def call_end_def poll_end_def answer_def applyData_def shows_trace_def)
  ultimately show ?thesis by blast
qed

section \<open>What can be shown at all\<close>

lemma collect_infos: "map ann_info (collect_spans xs) = concat (map (\<lambda>a. map fst (ann_subtree a)) xs)"
  by (induction xs rule: collect_spans.induct) (auto simp: map_concat o_def split: option.splits)

lemma all_spans_infos: "map ann_info (all_spans (Some t)) = subtree t"
  using rollup_keeps_tree [of t] by (simp add: all_spans_def collect_infos)

lemma waterfall_entry_exists: "(\<exists>e. waterfall_entry rt base x = Inr e) \<longleftrightarrow> known_kind (si_kind x)"
  using kind_tables(1) [of "si_kind x"] by (auto simp: waterfall_entry_def Let_def and_then_Inr_iff)

lemma map_result_all: "(\<exists>ys. map_result f xs = Inr ys) \<longleftrightarrow> (\<forall>x\<in>set xs. \<exists>y. f x = Inr y)"
  by (induction xs) (auto simp: and_then_Inr_iff)

lemma waterfall_exists:
  "(\<exists>d. waterfallData rt tr = Inr d) \<longleftrightarrow> (\<forall>t. tr = Some t \<longrightarrow> (\<forall>x\<in>set (subtree t). known_kind (si_kind x)))"
proof (cases tr)
  case (Some t)
  have "set (map ann_info (all_spans tr)) = set (subtree t)" using all_spans_infos [of t] Some by simp
  then show ?thesis
    unfolding waterfallData_def Some option.case map_result_all waterfall_entry_exists by (simp add: Some)
qed (simp add: waterfallData_def)

lemma kind_badge_exists: "known_kind k \<Longrightarrow> \<exists>v. kind_badge k = Inr v"
  using kind_tables(1,3) [of k] by (auto simp: kind_badge_def SpanKindIcon_def)

lemma tree_throws: "TraceTree rt d (annotateSpanTree t) \<noteq> Inr v"
  by (cases t) (auto simp: TraceTree_def row_line_def cost_text_def Let_def and_then_Inr_iff)

lemma panel_throws: "SlideInDetailPanel rt rnd p x \<noteq> Inr v"
  by (auto simp: SlideInDetailPanel_def panel_header_def cost_text_def and_then_Inr_iff)

lemma info_bar_exists:
  assumes "known_kind (si_kind x)"
  shows "(\<exists>v. info_bar rt now s x = Inr v) \<longleftrightarrow> \<not> num_lt (Fin 0) (ru_cost_usd (rollup_of s))"
  using kind_badge_exists [OF assms] by (auto simp: info_bar_def cost_text_def and_then_Inr_iff)

lemma root_in_subtree: "span_info t \<in> set (subtree t)"
  by (cases t) simp

text \<open>
  C21: \<open>formatCost\<close> is not in scope, and this is all that can be shown: the overlay can be rendered exactly when every
  span of the trace has a known kind, no span is selected, and the trace, if it is shown, is shown as a
  waterfall and has no cost above zero. A selected span, the tree, and any trace that cost something throw.
\<close>

theorem overlay_renders_iff:
  "(\<exists>v. SlideInTraceDetail rt rnd env now s = Inr v) \<longleftrightarrow>
     (\<forall>t. td_trace s = Some t \<longrightarrow> (\<forall>x\<in>set (subtree t). known_kind (si_kind x))) \<and> selected_span s = None \<and>
     (shows_trace s \<longrightarrow> viewMode s = Waterfall \<and> \<not> num_lt (Fin 0) (ru_cost_usd (rollup_of s)))"
proof -
  have content: "(\<exists>v. detail_content rt now data s = Inr v) \<longleftrightarrow>
      (shows_trace s \<longrightarrow> viewMode s = Waterfall \<and> \<not> num_lt (Fin 0) (ru_cost_usd (rollup_of s)))"
    if known: "\<forall>t. td_trace s = Some t \<longrightarrow> (\<forall>x\<in>set (subtree t). known_kind (si_kind x))" for data
  proof (cases "shows_trace s")
    case True
    then obtain t where t: "td_trace s = Some t" "\<not> td_loading s" by (auto simp: shows_trace_def)
    then have k: "known_kind (si_kind (span_info t))" using known root_in_subtree by blast
    show ?thesis
      using True t tree_throws [of rt "expandedSpanId s" t] info_bar_exists [OF k, of rt now s]
      by (auto simp: detail_content_def and_then_Inr_iff)
  next
    case False
    then show ?thesis by (cases "td_trace s") (simp_all add: detail_content_def)
  qed
  have "(\<exists>v. SlideInTraceDetail rt rnd env now s = Inr v) \<longleftrightarrow>
      (\<exists>data. waterfallData rt (td_trace s) = Inr data \<and> (\<exists>v. detail_content rt now data s = Inr v)) \<and>
      selected_span s = None"
    using panel_throws [of rt rnd "new_panel env"]
    by (cases "selected_span s") (auto simp: SlideInTraceDetail_def and_then_Inr_iff)
  then show ?thesis using content waterfall_exists [of rt "td_trace s"] by meson
qed

lemma overlay_renders_iff_witness:
  "\<exists>s. detail_run None s \<and> shows_trace s \<and> \<not> (\<exists>rt rnd env now v. SlideInTraceDetail rt rnd env now s = Inr v)"
proof -
  let ?s = "opened_with (Span (demo_info ''a'' '''') None) (Fin 1)"
  have "shows_trace ?s" by (simp add: shows_trace_def)
  then have "\<not> (\<exists>v. SlideInTraceDetail rt rnd env now ?s = Inr v)" for rt rnd env now
    using overlay_renders_iff [of rt rnd env now ?s] by simp
  with \<open>shows_trace ?s\<close> run_opened show ?thesis by blast
qed

section \<open>The rows of the waterfall\<close>

definition start_ms :: "runtime \<Rightarrow> SpanInfo \<Rightarrow> int" where
  "start_ms rt x = (case date_parse rt (si_start_time x) of Some t \<Rightarrow> t | None \<Rightarrow> 0)"

definition end_ms :: "runtime \<Rightarrow> SpanInfo \<Rightarrow> int" where
  "end_ms rt x = (case date_parse rt (si_end_time x) of Some t \<Rightarrow> t | None \<Rightarrow> 0)"

text \<open>Times that can be read, within a span a double holds exactly.\<close>

definition times_ok :: "runtime \<Rightarrow> SpanInfo \<Rightarrow> bool" where
  "times_ok rt x \<longleftrightarrow>
     date_parse rt (si_start_time x) = Some (start_ms rt x) \<and> \<bar>start_ms rt x\<bar> \<le> 2 ^ 50 \<and>
     date_parse rt (si_end_time x) = Some (end_ms rt x) \<and> \<bar>end_ms rt x\<bar> \<le> 2 ^ 50"

lemma num_sub_int: "\<bar>a - b\<bar> \<le> 2 ^ 53 \<Longrightarrow> num_sub (num_of_int a) (num_of_int b) = num_of_int (a - b)"
  using num_add_int [of a "- b"] by (simp add: num_sub_def)

lemma waterfall_entry_exact:
  assumes "times_ok rt x" and "\<bar>base\<bar> \<le> 2 ^ 50" and "waterfall_entry rt (num_of_int base) x = Inr e"
  shows "wf_spanId e = si_span_id x \<and> wf_start e = num_of_int (start_ms rt x - base) \<and>
    wf_duration e = num_of_int (end_ms rt x - start_ms rt x) \<and> entry_end e = num_of_int (end_ms rt x - base)"
proof -
  have t: "getTime (date_parse rt (si_start_time x)) = num_of_int (start_ms rt x)"
    "getTime (date_parse rt (si_end_time x)) = num_of_int (end_ms rt x)"
    using assms(1) by (simp_all add: times_ok_def getTime_def)
  have b: "\<bar>start_ms rt x\<bar> \<le> 2 ^ 50" "\<bar>end_ms rt x\<bar> \<le> 2 ^ 50" using assms(1) by (simp_all add: times_ok_def)
  have s: "num_sub (num_of_int (start_ms rt x)) (num_of_int base) = num_of_int (start_ms rt x - base)"
    using b assms(2) by (intro num_sub_int) (simp add: abs_le_iff)
  have f: "num_sub (num_of_int (end_ms rt x)) (num_of_int base) = num_of_int (end_ms rt x - base)"
    using b assms(2) by (intro num_sub_int) (simp add: abs_le_iff)
  have g: "num_sub (num_of_int (end_ms rt x - base)) (num_of_int (start_ms rt x - base)) =
      num_of_int ((end_ms rt x - base) - (start_ms rt x - base))"
    using b assms(2) by (intro num_sub_int) (simp add: abs_le_iff)
  have e: "num_add (num_of_int (start_ms rt x - base)) (num_of_int (end_ms rt x - start_ms rt x)) =
      num_of_int ((start_ms rt x - base) + (end_ms rt x - start_ms rt x))"
    using b assms(2) by (intro num_add_int) (simp add: abs_le_iff)
  have d: "(end_ms rt x - base) - (start_ms rt x - base) = end_ms rt x - start_ms rt x" by simp
  have d': "(start_ms rt x - base) + (end_ms rt x - start_ms rt x) = end_ms rt x - base" by simp
  obtain c where "getSpanKindColor (si_kind x) = Inr c"
    using assms(3) by (auto simp: waterfall_entry_def Let_def and_then_Inr_iff)
  then have ent: "wf_spanId e = si_span_id x" "wf_start e = num_of_int (start_ms rt x - base)"
    "wf_duration e = num_of_int (end_ms rt x - start_ms rt x)"
    using assms(3) unfolding waterfall_entry_def Let_def t s f g [unfolded d] by auto
  then show ?thesis using e [unfolded d'] by (simp only: entry_end_def)
qed

lemma foldl_num_max:
  "foldl num_max (num_of_int a) (map (\<lambda>x. num_of_int (f x)) xs) = num_of_int (Max (set (a # map f xs)))"
proof (induction xs arbitrary: a)
  case (Cons x xs)
  have "num_max (num_of_int a) (num_of_int (f x)) = num_of_int (max a (f x))" by (simp add: num_max_def max_def)
  moreover have "Max (set (max a (f x) # map f xs)) = Max (set (a # map f (x # xs)))"
    by (cases "xs = []") (simp_all add: max.assoc)
  ultimately show ?case using Cons.IH [of "max a (f x)"] by simp
qed simp

lemma map_result_list_all2: "map_result f xs = Inr ys \<Longrightarrow> list_all2 (\<lambda>x y. f x = Inr y) xs ys"
  by (induction xs arbitrary: ys) (auto simp: and_then_Inr_iff)

text \<open>
  C22: the waterfall has one row for each span, parents before children, at its exact offset from the root's start
  and of its exact length, and its axis ends where the last span ends, however late that is.
\<close>

theorem waterfall_rows_exact:
  assumes "\<forall>x\<in>set (subtree t). times_ok rt x" and "waterfallData rt (Some t) = Inr data"
  shows "map wf_spanId data = map si_span_id (subtree t) \<and>
    map wf_start data = map (\<lambda>x. num_of_int (start_ms rt x - start_ms rt (span_info t))) (subtree t) \<and>
    map wf_duration data = map (\<lambda>x. num_of_int (end_ms rt x - start_ms rt x)) (subtree t) \<and>
    computeWaterfallAxisDomain data =
      (Fin 0, num_of_int (Max (set (map (\<lambda>x. end_ms rt x - start_ms rt (span_info t)) (subtree t)))))"
proof -
  let ?b = "start_ms rt (span_info t)"
  have root: "times_ok rt (span_info t)" using assms(1) root_in_subtree by blast
  then have base: "getTime (date_parse rt (si_start_time (span_info t))) = num_of_int ?b" "\<bar>?b\<bar> \<le> 2 ^ 50"
    by (simp_all add: times_ok_def getTime_def)
  have "list_all2 (\<lambda>x e. waterfall_entry rt (num_of_int ?b) x = Inr e) (subtree t) data"
    using assms(2) base(1) map_result_list_all2 by (simp add: waterfallData_def all_spans_infos)
  moreover have "wf_spanId e = si_span_id x \<and> wf_start e = num_of_int (start_ms rt x - ?b) \<and>
      wf_duration e = num_of_int (end_ms rt x - start_ms rt x) \<and> entry_end e = num_of_int (end_ms rt x - ?b)"
    if "x \<in> set (subtree t)" "waterfall_entry rt (num_of_int ?b) x = Inr e" for x e
    using waterfall_entry_exact [OF _ base(2) that(2)] assms(1) that(1) by blast
  ultimately have rows: "list_all2 (\<lambda>x e. wf_spanId e = si_span_id x \<and> wf_start e = num_of_int (start_ms rt x - ?b) \<and>
      wf_duration e = num_of_int (end_ms rt x - start_ms rt x) \<and> entry_end e = num_of_int (end_ms rt x - ?b))
      (subtree t) data"
    by (auto intro: list.rel_mono_strong)
  have maps: "map wf_spanId data = map si_span_id (subtree t)"
    "map wf_start data = map (\<lambda>x. num_of_int (start_ms rt x - ?b)) (subtree t)"
    "map wf_duration data = map (\<lambda>x. num_of_int (end_ms rt x - start_ms rt x)) (subtree t)"
    "map entry_end data = map (\<lambda>x. num_of_int (end_ms rt x - ?b)) (subtree t)"
    using rows by (induction rule: list_all2_induct) auto
  obtain x xs where xs: "subtree t = x # xs" by (cases t) simp
  have "data \<noteq> []" using maps(1) xs by auto
  moreover have "foldl num_max NegInf (map entry_end data) = num_of_int (Max (set (map (\<lambda>x. end_ms rt x - ?b) (subtree t))))"
    unfolding maps(4) xs using foldl_num_max [of "end_ms rt x - ?b" "\<lambda>x. end_ms rt x - ?b" xs]
    by (simp add: num_max_def)
  ultimately show ?thesis using maps(1-3) by (simp add: computeWaterfallAxisDomain_def)
qed

definition timed_info :: "string \<Rightarrow> int \<Rightarrow> int \<Rightarrow> SpanInfo" where
  "timed_info i a b = (demo_info i '''')\<lparr>si_start_time := iso_text a, si_end_time := iso_text b\<rparr>"

lemma waterfall_rows_exact_witness:
  "\<forall>rt. \<exists>data. waterfallData rt (Some (Span (timed_info ''a'' 1000 2000) (Some [Span (timed_info ''b'' 1500 26300) None]))) = Inr data \<and>
     map wf_start data = [Fin 0, Fin 500] \<and> map wf_duration data = [Fin 1000, Fin 24800] \<and>
     computeWaterfallAxisDomain data = (Fin 0, Fin 25300)"
proof
  fix rt :: runtime
  let ?a = "timed_info ''a'' 1000 2000" and ?b = "timed_info ''b'' 1500 26300"
  let ?t = "Span ?a (Some [Span ?b None])"
  have year: "cd_year (civil_from_day 0) = 1970" by code_simp
  have parse: "date_parse rt (iso_text m) = Some m" if "0 \<le> m" "m \<le> 10 ^ 6" for m
  proof -
    have "m div ms_per_day = 0" using that by (simp add: ms_per_day_def)
    then show ?thesis using iso_roundtrip [of m] year by (simp add: date_parse_def)
  qed
  have ms: "start_ms rt ?a = 1000" "end_ms rt ?a = 2000" "start_ms rt ?b = 1500" "end_ms rt ?b = 26300"
    by (simp_all add: start_ms_def end_ms_def timed_info_def parse)
  have ok: "\<forall>x\<in>set (subtree ?t). times_ok rt x"
    using ms by (simp add: times_ok_def timed_info_def parse)
  have "\<exists>data. waterfallData rt (Some ?t) = Inr data"
    unfolding waterfall_exists by (simp add: timed_info_def demo_info_def known_kind_def)
  then obtain data where "waterfallData rt (Some ?t) = Inr data" by blast
  with waterfall_rows_exact [OF ok this] ms
  show "\<exists>data. waterfallData rt (Some ?t) = Inr data \<and>
     map wf_start data = [Fin 0, Fin 500] \<and> map wf_duration data = [Fin 1000, Fin 24800] \<and>
     computeWaterfallAxisDomain data = (Fin 0, Fin 25300)"
    by (intro exI [of _ data]) simp
qed

end
