(* ===== verification/Prompts.thy ===== *)
theory Prompts
  imports EvalRules Diff Toasts
begin

text \<open>
  \<open>ui/src/pages/Prompts.tsx\<close>, the registry of prompts: the form with its validation, the comparison of two
  versions, the page's state with its requests in flight, and the handlers, cut at their \<open>await\<close>.
\<close>

section \<open>Data\<close>

record PromptMessage =
  msg_role :: jsstring
  msg_content :: jsstring

record PromptVersion =
  version_id :: jsstring
  version_project :: jsstring
  version_name :: jsstring
  version_number :: int
  is_chat :: bool
  version_template :: jsstring
  version_messages :: "PromptMessage list option"
  version_model :: jsstring
  version_temperature :: jsnum
  version_max_tokens :: jsnum
  version_created_at :: jsstring

definition MESSAGE_ROLES :: "string list" where "MESSAGE_ROLES = [''system'', ''user'', ''assistant'']"

definition VERSION_OPTIONS :: "int list" where "VERSION_OPTIONS = map (\<lambda>i. int i + 1) [0..<50]"

section \<open>Comparing versions\<close>

definition message_line :: "PromptMessage \<Rightarrow> jsstring" where
  "message_line m = msg_role m @ js '': '' @ msg_content m"

definition versionDiffText :: "PromptVersion option \<Rightarrow> jsstring" where
  "versionDiffText v =
     (case v of
        None \<Rightarrow> []
      | Some p \<Rightarrow>
          if is_chat p
          then join [0x0A] (map message_line (case version_messages p of Some ms \<Rightarrow> ms | None \<Rightarrow> []))
          else version_template p)"

definition config_of :: "PromptVersion \<Rightarrow> PromptConfig" where
  "config_of p =
     \<lparr>pc_model = Some (version_model p), pc_temperature = Some (version_temperature p),
      pc_max_tokens = Some (version_max_tokens p)\<rparr>"

definition find_version :: "PromptVersion list \<Rightarrow> int \<Rightarrow> PromptVersion option" where
  "find_version vs n = List.find (\<lambda>v. version_number v = n) vs"

definition version_diff :: "PromptVersion list \<Rightarrow> int \<Rightarrow> int \<Rightarrow> DiffLine list \<times> ModelConfigDiff list" where
  "version_diff vs old new =
     (diffText (versionDiffText (find_version vs old)) (versionDiffText (find_version vs new)),
      diffModelConfig (map_option config_of (find_version vs old)) (map_option config_of (find_version vs new)))"

section \<open>The form\<close>

record prompt_form =
  newName :: jsstring
  newChat :: bool
  newTemplate :: jsstring
  newMessages :: "PromptMessage list"
  newModel :: jsstring
  newTemperature :: jsnum
  newMaxTokens :: jsnum
  customSource :: bool
  customModel :: jsstring

definition one_message :: "string \<Rightarrow> PromptMessage" where
  "one_message role = \<lparr>msg_role = js role, msg_content = []\<rparr>"

text \<open>The literal \<open>0.7\<close> is the double next to it.\<close>

definition new_form :: prompt_form where
  "new_form =
     \<lparr>newName = [], newChat = False, newTemplate = [], newMessages = [one_message ''system''],
      newModel = js ''gpt-4'', newTemperature = to_double (7 / 10), newMaxTokens = Fin 256,
      customSource = False, customModel = []\<rparr>"

definition effectiveModel :: "prompt_form \<Rightarrow> jsstring" where
  "effectiveModel f = (if customSource f then customModel f else newModel f)"

text \<open>\<open>/^[a-zA-Z0-9_\-]+$/\<close>, and the same with dots and slashes.\<close>

definition name_ok :: "jsstring \<Rightarrow> bool" where
  "name_ok s \<longleftrightarrow> s \<noteq> [] \<and> list_all (\<lambda>u. is_word_unit u \<or> u = 0x2D) s"

definition model_ok :: "jsstring \<Rightarrow> bool" where
  "model_ok s \<longleftrightarrow> s \<noteq> [] \<and> list_all (\<lambda>u. is_word_unit u \<or> u = 0x2D \<or> u = 0x2E \<or> u = 0x2F) s"

definition prompt_name_errors :: "prompt_form \<Rightarrow> (string \<times> jsstring) list" where
  "prompt_name_errors f =
     (if trim (newName f) = [] then [(''name'', js ''Prompt name is required'')]
      else if 128 < length (newName f) then [(''name'', js ''Name must be 128 characters or fewer'')]
      else if \<not> name_ok (newName f)
      then [(''name'', js ''Name can only contain letters, numbers, underscores, and hyphens'')]
      else [])"

definition template_errors :: "prompt_form \<Rightarrow> (string \<times> jsstring) list" where
  "template_errors f =
     (if newChat f
      then (if list_all (\<lambda>m. trim (msg_content m) = []) (newMessages f)
            then [(''template'', js ''At least one message with content is required'')] else [])
      else if trim (newTemplate f) = [] then [(''template'', js ''Template is required'')]
      else if 32000 < length (newTemplate f)
      then [(''template'', js ''Template must be 32000 characters or fewer'')]
      else [])"

definition model_errors :: "prompt_form \<Rightarrow> (string \<times> jsstring) list" where
  "model_errors f =
     (if trim (effectiveModel f) = [] then []
      else if 64 < length (effectiveModel f)
      then [(''model'', js ''Model name must be 64 characters or fewer'')]
      else if \<not> model_ok (effectiveModel f)
      then [(''model'', js ''Model name can only contain letters, numbers, underscores, hyphens, dots, and slashes'')]
      else [])"

definition prompt_form_errors :: "prompt_form \<Rightarrow> (string \<times> jsstring) list" where
  "prompt_form_errors f =
     prompt_name_errors f @ template_errors f @ model_errors f @
     (if num_lt (newTemperature f) (Fin 0) \<or> num_lt (Fin 2) (newTemperature f)
      then [(''temperature'', js ''Temperature must be between 0 and 2'')] else []) @
     (if num_lt (newMaxTokens f) (Fin 1)
      then [(''maxTokens'', js ''Max tokens must be at least 1'')] else [])"

text \<open>\<open>parseFloat(v) || 0\<close> and \<open>parseInt(v) || 0\<close>\<close>

definition or_0 :: "jsnum \<Rightarrow> jsnum" where
  "or_0 n = (if num_truthy n then n else Fin 0)"

datatype prompt_text = TemplateText jsstring | ChatMessages "PromptMessage list"

record prompt_payload =
  py_name :: jsstring
  py_version :: int
  py_text :: prompt_text
  py_model :: jsstring
  py_temperature :: jsnum
  py_max_tokens :: jsnum

definition payload_of :: "prompt_form \<Rightarrow> prompt_payload" where
  "payload_of f =
     \<lparr>py_name = trim (newName f), py_version = 1,
      py_text = (if newChat f then ChatMessages (filter (\<lambda>m. trim (msg_content m) \<noteq> []) (newMessages f))
                 else TemplateText (newTemplate f)),
      py_model = effectiveModel f, py_temperature = newTemperature f, py_max_tokens = newMaxTokens f\<rparr>"

section \<open>State\<close>

datatype prompts_call =
    ListCall jsstring
  | ModelsCall
  | VersionsCall jsstring jsstring
  | LabelCall jsstring jsstring string int
  | CreateCall jsstring prompt_payload

fun prompts_url :: "prompts_call \<Rightarrow> jsstring" where
  "prompts_url (ListCall p) = js ''/api/v1/prompts?project_id='' @ p"
| "prompts_url ModelsCall = js ''/api/v1/models''"
| "prompts_url (VersionsCall p n) = js ''/api/v1/prompts/'' @ n @ js ''/versions?project_id='' @ p"
| "prompts_url (LabelCall p n l v) = js ''/api/v1/prompts/'' @ n @ js ''/labels/'' @ js l @ js ''?project_id='' @ p"
| "prompts_url (CreateCall p b) = js ''/api/v1/prompts?project_id='' @ p"

text \<open>
  The two \<open>_effect\<close> fields hold the dependencies an effect last ran with. The last two are ghosts: the project
  whose answer filled the list, and those the versions of a name and the assignments came from.
\<close>

record prompts_page =
  pp_project :: jsstring
  pp_prompts :: "PromptListItem list"
  pp_loading :: bool
  pp_error :: "jsstring option"
  expandedNames :: "jsstring list"
  versionData :: "(jsstring \<times> PromptVersion list) list"
  showNewPromptForm :: bool
  pp_form :: prompt_form
  createError :: "jsstring option"
  createSuccess :: "jsstring option"
  formErrors :: "(string \<times> jsstring) list"
  knownModels :: "jsstring list"
  modelsLoading :: bool
  modelsError :: "jsstring option"
  labelAssignments :: "((jsstring \<times> string) \<times> int) list"
  showDiffPanel :: bool
  diffPromptName :: jsstring
  diffOldVersion :: int
  diffNewVersion :: int
  diffData :: "(DiffLine list \<times> ModelConfigDiff list) option"
  list_effect :: "jsstring option"
  models_effect :: "bool option"
  pp_calls :: "prompts_call list"
  pp_toasts :: "(ToastType \<times> jsstring) list"
  list_source :: "jsstring option"
  version_source :: "(jsstring \<times> jsstring) list"

definition send :: "prompts_call \<Rightarrow> prompts_page \<Rightarrow> prompts_page" where
  "send c s = s\<lparr>pp_calls := pp_calls s @ [c]\<rparr>"

definition post_toast :: "ToastType \<Rightarrow> jsstring \<Rightarrow> prompts_page \<Rightarrow> prompts_page" where
  "post_toast ty m s = s\<lparr>pp_toasts := pp_toasts s @ [(ty, m)]\<rparr>"

section \<open>Loading\<close>

text \<open>\<open>fetchPrompts\<close> reads the project of the closure it belongs to.\<close>

definition fetchPrompts :: "jsstring \<Rightarrow> prompts_page \<Rightarrow> prompts_page" where
  "fetchPrompts project s = send (ListCall project) (s\<lparr>pp_loading := True, pp_error := None\<rparr>)"

text \<open>The body is used when it is an array.\<close>

definition list_end :: "jsstring \<Rightarrow> PromptListItem list option reply \<Rightarrow> prompts_page \<Rightarrow> prompts_page" where
  "list_end project r s =
     (case r of
        Threw m \<Rightarrow> s\<lparr>pp_error := Some (thrown_text m), pp_loading := False\<rparr>
      | NotOk _ \<Rightarrow> s\<lparr>pp_error := Some (js ''Failed to fetch prompts''), pp_loading := False\<rparr>
      | Ok ps \<Rightarrow> s\<lparr>pp_prompts := (case ps of Some xs \<Rightarrow> xs | None \<Rightarrow> []), pp_loading := False,
                  list_source := Some project\<rparr>)"

definition list_effect_run :: "prompts_page \<Rightarrow> prompts_page" where
  "list_effect_run s =
     (if list_effect s = Some (pp_project s) then s
      else fetchPrompts (pp_project s) (s\<lparr>list_effect := Some (pp_project s)\<rparr>))"

definition models_effect_run :: "prompts_page \<Rightarrow> prompts_page" where
  "models_effect_run s =
     (if models_effect s = Some (showNewPromptForm s) then s
      else let s' = s\<lparr>models_effect := Some (showNewPromptForm s)\<rparr>
           in if showNewPromptForm s then send ModelsCall (s'\<lparr>modelsLoading := True, modelsError := None\<rparr>) else s')"

definition prompts_render :: "prompts_page \<Rightarrow> prompts_page" where
  "prompts_render s = models_effect_run (list_effect_run s)"

definition models_end :: "jsstring list option reply \<Rightarrow> prompts_page \<Rightarrow> prompts_page" where
  "models_end r s =
     (case r of
        Threw m \<Rightarrow> s\<lparr>modelsError := Some (thrown_text m), modelsLoading := False\<rparr>
      | NotOk _ \<Rightarrow> s\<lparr>modelsError := Some (js ''Failed to fetch models''), modelsLoading := False\<rparr>
      | Ok ms \<Rightarrow> s\<lparr>knownModels := (case ms of Some xs \<Rightarrow> xs | None \<Rightarrow> []), modelsLoading := False\<rparr>)"

definition versions_of :: "jsstring \<Rightarrow> prompts_page \<Rightarrow> PromptVersion list" where
  "versions_of name s = (case map_of (versionData s) name of Some vs \<Rightarrow> vs | None \<Rightarrow> [])"

definition fetchVersions :: "jsstring \<Rightarrow> prompts_page \<Rightarrow> prompts_page" where
  "fetchVersions name s =
     (if name \<in> fst ` set (versionData s) then s else send (VersionsCall (pp_project s) name) s)"

text \<open>The body is an array or has one in \<open>versions\<close>; a failure is silent.\<close>

definition versions_end ::
    "jsstring \<Rightarrow> jsstring \<Rightarrow> PromptVersion list option reply \<Rightarrow> prompts_page \<Rightarrow> prompts_page" where
  "versions_end project name r s =
     (case r of
        Ok vs \<Rightarrow> s\<lparr>versionData := assoc_set name (case vs of Some xs \<Rightarrow> xs | None \<Rightarrow> []) (versionData s),
                  version_source := assoc_set name project (version_source s)\<rparr>
      | _ \<Rightarrow> s)"

section \<open>Labels and new prompts\<close>

definition handleLabelChange :: "jsstring \<Rightarrow> string \<Rightarrow> int \<Rightarrow> prompts_page \<Rightarrow> prompts_page" where
  "handleLabelChange name label version s = send (LabelCall (pp_project s) name label version) s"

definition label_end :: "jsstring \<Rightarrow> jsstring \<Rightarrow> string \<Rightarrow> int \<Rightarrow> unit reply \<Rightarrow> prompts_page \<Rightarrow> prompts_page" where
  "label_end project name label version r s =
     (case r of
        Ok _ \<Rightarrow> fetchPrompts project (post_toast Success
                 (js ''Label '' @ [0x22] @ js label @ [0x22] @ js '' assigned to v'' @ dec_int version)
                 (s\<lparr>labelAssignments := assoc_set (name, label) version (labelAssignments s)\<rparr>))
      | _ \<Rightarrow> post_toast Failure (js ''Label reassignment failed'') s)"

definition handleCreate :: "prompts_page \<Rightarrow> prompts_page" where
  "handleCreate s =
     (let errors = prompt_form_errors (pp_form s);
          s' = s\<lparr>createError := None, createSuccess := None, formErrors := errors\<rparr>
      in if errors = [] then send (CreateCall (pp_project s) (payload_of (pp_form s))) s' else s')"

text \<open>What creating comes to: an exception, a status outside 2xx with its text, or success.\<close>

datatype create_reply = CreateThrew "jsstring option" | CreateStatus nat jsstring | Created

definition created_text :: "prompt_payload \<Rightarrow> jsstring" where
  "created_text b = js ''Created prompt '' @ [0x22] @ py_name b @ [0x22] @ js '' version 1''"

definition create_end :: "jsstring \<Rightarrow> prompt_payload \<Rightarrow> create_reply \<Rightarrow> prompts_page \<Rightarrow> prompts_page" where
  "create_end project b r s =
     (case r of
        CreateThrew m \<Rightarrow> s\<lparr>createError := Some (thrown_text m)\<rparr>
      | CreateStatus n t \<Rightarrow>
          s\<lparr>createError := Some (if n = 409 then js ''A prompt with this name already exists''
                                else text_or ''Failed to create prompt'' t)\<rparr>
      | Created \<Rightarrow> fetchPrompts project (post_toast Success (created_text b)
          (s\<lparr>createSuccess := Some (created_text b), showNewPromptForm := False,
             pp_form := (pp_form s)\<lparr>newName := [], newTemplate := [], newChat := False,
               newMessages := [one_message ''system'']\<rparr>\<rparr>)))"

section \<open>The comparison panel\<close>

definition computeDiff :: "PromptVersion list \<Rightarrow> int \<Rightarrow> int \<Rightarrow> prompts_page \<Rightarrow> prompts_page" where
  "computeDiff vs old new s =
     s\<lparr>diffOldVersion := old, diffNewVersion := new, diffData := Some (version_diff vs old new)\<rparr>"

definition openDiffPanel :: "jsstring \<Rightarrow> prompts_page \<Rightarrow> prompts_page" where
  "openDiffPanel name s =
     (let vs = versions_of name s in
      if vs = [] then s
      else let maxVer = Max (set (map version_number vs))
           in computeDiff vs 1 (if 1 < maxVer then maxVer else 2)
                (s\<lparr>diffPromptName := name, showDiffPanel := True\<rparr>))"

definition closeDiffPanel :: "prompts_page \<Rightarrow> prompts_page" where
  "closeDiffPanel s = s\<lparr>showDiffPanel := False, diffData := None\<rparr>"

section \<open>Messages\<close>

datatype prompts_msg =
    ToggleForm | ShowForm | SetKind bool | SetName jsstring | SelectModel jsstring | SetCustomModel jsstring
  | SetTemperature jsstring | SetMaxTokens jsstring | SetTemplate jsstring | SetRole nat jsstring
  | SetContent nat jsstring | RemoveMessage nat | AddMessage | CreatePrompt | CancelForm | ToggleName jsstring
  | AssignLabel jsstring string jsstring | CompareVersions jsstring | CloseDiff | SetDiffOld jsstring
  | SetDiffNew jsstring

definition toggleExpand :: "jsstring \<Rightarrow> prompts_page \<Rightarrow> prompts_page" where
  "toggleExpand name s =
     s\<lparr>expandedNames := (if name \<in> set (expandedNames s) then filter (\<lambda>n. n \<noteq> name) (expandedNames s)
                         else expandedNames s @ [name])\<rparr>"

text \<open>A change of one input, and of the error beside it.\<close>

definition edit_form :: "string \<Rightarrow> (prompt_form \<Rightarrow> prompt_form) \<Rightarrow> prompts_page \<Rightarrow> prompts_page" where
  "edit_form k f s = s\<lparr>pp_form := f (pp_form s), formErrors := assoc_set k [] (formErrors s)\<rparr>"

definition change_message :: "nat \<Rightarrow> (PromptMessage \<Rightarrow> PromptMessage) \<Rightarrow> prompt_form \<Rightarrow> prompt_form" where
  "change_message i g f = f\<lparr>newMessages := (newMessages f)[i := g (newMessages f ! i)]\<rparr>"

definition option_version :: "jsstring \<Rightarrow> int" where
  "option_version v = (case parse_int v of Fin x \<Rightarrow> rat_trunc x | _ \<Rightarrow> 0)"

fun prompts_handle :: "prompts_msg \<Rightarrow> prompts_page \<Rightarrow> prompts_page" where
  "prompts_handle ToggleForm s = s\<lparr>showNewPromptForm := \<not> showNewPromptForm s\<rparr>"
| "prompts_handle ShowForm s = s\<lparr>showNewPromptForm := True\<rparr>"
| "prompts_handle (SetKind chat) s = edit_form ''template'' (\<lambda>f. f\<lparr>newChat := chat\<rparr>) s"
| "prompts_handle (SetName v) s = edit_form ''name'' (\<lambda>f. f\<lparr>newName := v\<rparr>) s"
| "prompts_handle (SelectModel v) s = edit_form ''model''
     (\<lambda>f. if v = js ''__other__'' then f\<lparr>customSource := True, customModel := []\<rparr>
          else f\<lparr>customSource := False, newModel := v\<rparr>) s"
| "prompts_handle (SetCustomModel v) s = edit_form ''model'' (\<lambda>f. f\<lparr>customModel := v\<rparr>) s"
| "prompts_handle (SetTemperature v) s = edit_form ''temperature'' (\<lambda>f. f\<lparr>newTemperature := or_0 (parse_float v)\<rparr>) s"
| "prompts_handle (SetMaxTokens v) s = edit_form ''maxTokens'' (\<lambda>f. f\<lparr>newMaxTokens := or_0 (parse_int v)\<rparr>) s"
| "prompts_handle (SetTemplate v) s = edit_form ''template'' (\<lambda>f. f\<lparr>newTemplate := v\<rparr>) s"
| "prompts_handle (SetRole i v) s = edit_form ''template'' (change_message i (\<lambda>m. m\<lparr>msg_role := v\<rparr>)) s"
| "prompts_handle (SetContent i v) s = edit_form ''template'' (change_message i (\<lambda>m. m\<lparr>msg_content := v\<rparr>)) s"
| "prompts_handle (RemoveMessage i) s =
     s\<lparr>pp_form := (pp_form s)\<lparr>newMessages := take i (newMessages (pp_form s)) @ drop (Suc i) (newMessages (pp_form s))\<rparr>\<rparr>"
| "prompts_handle AddMessage s =
     s\<lparr>pp_form := (pp_form s)\<lparr>newMessages := newMessages (pp_form s) @ [one_message ''user'']\<rparr>\<rparr>"
| "prompts_handle CreatePrompt s = handleCreate s"
| "prompts_handle CancelForm s = s\<lparr>showNewPromptForm := False, createError := None\<rparr>"
| "prompts_handle (ToggleName n) s =
     (if n \<in> set (expandedNames s) then toggleExpand n s else fetchVersions n (toggleExpand n s))"
| "prompts_handle (AssignLabel n l v) s =
     (if 0 < option_version v then handleLabelChange n l (option_version v) s else s)"
| "prompts_handle (CompareVersions n) s = openDiffPanel n s"
| "prompts_handle CloseDiff s = closeDiffPanel s"
| "prompts_handle (SetDiffOld v) s =
     computeDiff (versions_of (diffPromptName s) s) (option_version v) (diffNewVersion s) s"
| "prompts_handle (SetDiffNew v) s =
     computeDiff (versions_of (diffPromptName s) s) (diffOldVersion s) (option_version v) s"

definition new_prompts_page :: "jsstring \<Rightarrow> prompts_page" where
  "new_prompts_page project =
     \<lparr>pp_project = project, pp_prompts = [], pp_loading = True, pp_error = None, expandedNames = [],
      versionData = [], showNewPromptForm = False, pp_form = new_form, createError = None, createSuccess = None,
      formErrors = [], knownModels = [], modelsLoading = False, modelsError = None, labelAssignments = [],
      showDiffPanel = False, diffPromptName = [], diffOldVersion = 1, diffNewVersion = 2, diffData = None,
      list_effect = None, models_effect = None, pp_calls = [], pp_toasts = [], list_source = None,
      version_source = []\<rparr>"

definition mount_prompts :: "jsstring \<Rightarrow> prompts_page" where
  "mount_prompts project = prompts_render (new_prompts_page project)"

end
