(* ===== verification/PromptsPage.thy ===== *)
theory PromptsPage
  imports Prompts Ui
begin

text \<open>
  \<open>ui/src/pages/Prompts.tsx\<close>, what the registry shows, its runs, and what they keep. Styles, drawings and
  placeholders are left out.
\<close>

section \<open>The form\<close>

definition prompt_error :: "string \<Rightarrow> prompts_page \<Rightarrow> 'm view list" where
  "prompt_error k s = (case map_of (formErrors s) k of Some t \<Rightarrow> shown (t \<noteq> []) [para [Text t]] | None \<Rightarrow> [])"

definition message_of :: "jsstring option \<Rightarrow> 'm view list" where
  "message_of m = (case truthy_text m of Some t \<Rightarrow> [box [Text t]] | None \<Rightarrow> [])"

definition kind_choice :: "prompt_form \<Rightarrow> prompts_msg view" where
  "kind_choice f =
     box [Elem ''label'' [] [] [tx ''Type''],
          Elem ''input'' [(''type'', pstr ''radio''), (''checked'', PBool (\<not> newChat f))] [OnToggle (SetKind False)] [],
          tx ''Text'',
          Elem ''input'' [(''type'', pstr ''radio''), (''checked'', PBool (newChat f))] [OnToggle (SetKind True)] [],
          tx ''Chat'']"

definition text_field :: "string \<Rightarrow> jsstring \<Rightarrow> (jsstring \<Rightarrow> 'm) \<Rightarrow> 'm view" where
  "text_field i v f = Elem ''input'' [(''id'', pstr i), (''type'', pstr ''text''), (''value'', PStr v)] [OnChange (\<lambda>x. Some (f x))] []"

definition number_field :: "jsnum \<Rightarrow> (string \<times> prop_value) list \<Rightarrow> (jsstring \<Rightarrow> 'm) \<Rightarrow> 'm view" where
  "number_field n limits f =
     Elem ''input'' ([(''type'', pstr ''number''), (''value'', PNum n)] @ limits) [OnChange (\<lambda>x. Some (f x))] []"

definition model_select :: "prompts_page \<Rightarrow> prompts_msg view" where
  "model_select s =
     Elem ''select'' [(''id'', pstr ''new-prompt-model''), (''value'', PStr (effectiveModel (pp_form s)))]
       [OnChange (\<lambda>v. Some (SelectModel v))]
       (map (\<lambda>m. option_tag m m) (knownModels s) @ [option_tag (js ''__other__'') (js ''Other...'')])"

definition model_part :: "prompts_page \<Rightarrow> prompts_msg view" where
  "model_part s =
     box ([Elem ''label'' [] [] [tx ''Model'']] @
          (case truthy_text (modelsError s) of Some t \<Rightarrow> [para [Text t]] | None \<Rightarrow> []) @
          [if modelsLoading s then box [tx ''Loading models...''] else model_select s] @
          shown (customSource (pp_form s))
            [text_field ''new-prompt-model-custom'' (customModel (pp_form s)) SetCustomModel] @
          prompt_error ''model'' s)"

definition message_row :: "nat \<Rightarrow> nat \<times> PromptMessage \<Rightarrow> prompts_msg view" where
  "message_row n x =
     (let i = fst x; m = snd x in
      box ([Elem ''select'' [(''aria-label'', PStr (js ''Message '' @ dec_nat (i + 1) @ js '' role'')), (''value'', PStr (msg_role m))]
              [OnChange (\<lambda>v. Some (SetRole i v))] (map (\<lambda>r. option_tag (js r) (js r)) MESSAGE_ROLES),
            Elem ''textarea'' [(''value'', PStr (msg_content m))] [OnChange (\<lambda>v. Some (SetContent i v))] []] @
           shown (1 < n)
             [button_with [(''aria-label'', PStr (js ''Remove message '' @ dec_nat (i + 1)))] (RemoveMessage i) []]))"

text \<open>The count of a template is shown in the locale's format.\<close>

definition text_part :: "runtime \<Rightarrow> prompts_page \<Rightarrow> prompts_msg view" where
  "text_part rt s =
     (let f = pp_form s in
      if \<not> newChat f
      then box ([Elem ''label'' [] [] [tx ''Template'', inline [tx ''(use '', tx ''{{variable}}'', tx '' syntax)'']],
                 Elem ''textarea'' [(''value'', PStr (newTemplate f))] [OnChange (\<lambda>v. Some (SetTemplate v))] []] @
                prompt_error ''template'' s @
                [para [Text (rt_locale_number rt (num_of_int (int (length (newTemplate f)))) @ js '' / 32,000 chars'')]])
      else box ([Elem ''label'' [] [] [tx ''Messages'', inline [tx ''(use '', tx ''{{variable}}'', tx '' syntax)'']],
                 box (map (message_row (length (newMessages f))) (enumerate 0 (newMessages f)))] @
                prompt_error ''template'' s @ [button AddMessage [tx ''+ Add message'']]))"

definition prompt_form_view :: "runtime \<Rightarrow> prompts_page \<Rightarrow> prompts_msg view" where
  "prompt_form_view rt s =
     (let f = pp_form s in
      box ([Elem ''h3'' [] [] [tx ''New Prompt'']] @ message_of (createError s) @ message_of (createSuccess s) @
        [kind_choice f,
         box ([Elem ''label'' [] [] [tx ''Prompt Name''], text_field ''new-prompt-name'' (newName f) SetName] @ prompt_error ''name'' s),
         model_part s,
         box ([Elem ''label'' [] [] [Text (js ''Temperature (0'' @ [0x2013] @ js ''2)'')],
               number_field (newTemperature f)
                 [(''min'', PNum (Fin 0)), (''max'', PNum (Fin 2)), (''step'', PNum (to_double (1 / 10)))] SetTemperature] @ prompt_error ''temperature'' s),
         box ([Elem ''label'' [] [] [tx ''Max Tokens''],
               number_field (newMaxTokens f) [(''min'', PNum (Fin 1))] SetMaxTokens] @ prompt_error ''maxTokens'' s),
         text_part rt s,
         box [button CreatePrompt [tx ''Create''], button CancelForm [tx ''Cancel'']]]))"

section \<open>The list\<close>

definition label_badge :: "PromptListItem \<Rightarrow> string \<Rightarrow> 'm view" where
  "label_badge p label =
     inline (tx label #
       (case map_of (pi_labels p) (js label) of
          Some v \<Rightarrow> shown (0 < v) [inline [Text (js ''v'' @ dec_int v)]]
        | None \<Rightarrow> []))"

definition current_version :: "prompts_page \<Rightarrow> PromptListItem \<Rightarrow> string \<Rightarrow> int option" where
  "current_version s p label =
     (case map_of (labelAssignments s) (pi_name p, label) of
        Some v \<Rightarrow> Some v
      | None \<Rightarrow> map_of (pi_labels p) (js label))"

definition version_choice :: "int \<Rightarrow> 'm view" where
  "version_choice n = Elem ''option'' [(''value'', PNum (num_of_int n))] [] [Text (js ''v'' @ dec_int n)]"

definition label_select :: "prompts_page \<Rightarrow> PromptListItem \<Rightarrow> string \<Rightarrow> prompts_msg view" where
  "label_select s p label =
     box [inline [Text (js label @ js '':'')],
          Elem ''select''
            [(''value'', case current_version s p label of
                Some v \<Rightarrow> if v \<noteq> 0 then PNum (num_of_int v) else PStr [] | None \<Rightarrow> PStr [])]
            [OnChange (\<lambda>v. Some (AssignLabel (pi_name p) label v))]
            (option_tag [] em_dash # map (\<lambda>v. version_choice (version_number v)) (versions_of (pi_name p) s))]"

definition version_text :: "PromptVersion \<Rightarrow> 'm view" where
  "version_text v =
     (if is_chat v
      then box [box [tx ''Messages''],
                box (map (\<lambda>m. box [inline [Text (msg_role m)], inline [Text (msg_content m)]])
                  (case version_messages v of Some ms \<Rightarrow> ms | None \<Rightarrow> []))]
      else box [box [tx ''Template''], Elem ''pre'' [] [] [Text (version_template v)]])"

definition version_view :: "runtime \<Rightarrow> int \<Rightarrow> prompts_page \<Rightarrow> PromptListItem \<Rightarrow> PromptVersion \<Rightarrow> prompts_msg view" where
  "version_view rt now s p v =
     box [box [inline [Text (js ''Version '' @ dec_int (version_number v))], inline [Text (formatTime rt now (version_created_at v))]],
          version_text v,
          box [inline [tx ''Model: '', inline [Text (version_model v)]],
               inline [tx ''Temp: '', inline [Text (num_to_string (version_temperature v))]],
               inline [tx ''Max: '', inline [Text (num_to_string (version_max_tokens v))]]],
          box (map (label_select s p) LABELS)]"

definition prompt_row :: "runtime \<Rightarrow> int \<Rightarrow> prompts_page \<Rightarrow> PromptListItem \<Rightarrow> prompts_msg view" where
  "prompt_row rt now s p =
     (let vs = versions_of (pi_name p) s in
      box ([button (ToggleName (pi_name p))
              [inline [Text (pi_name p)], inline [Text (js ''v'' @ dec_int (pi_latest_version p))],
               box (map (label_badge p) LABELS)]] @
           shown (pi_name p \<in> set (expandedNames s))
             [box (if vs = [] then [para [tx ''No version history'']]
                   else [box (map (version_view rt now s p) vs @
                          shown (2 \<le> length vs) [button (CompareVersions (pi_name p)) [tx ''Compare versions'']])])]))"

section \<open>The comparison panel\<close>

fun line_view :: "nat \<times> DiffLine \<Rightarrow> 'm view" where
  "line_view (i, Header t) = box [Text t]"
| "line_view (i, Added t) = box [inline [Text (dec_nat i)], inline [tx ''+''], Text t]"
| "line_view (i, Removed t) = box [inline [Text (dec_nat i)], inline [tx ''-''], Text t]"
| "line_view (i, Unchanged t) = box [inline [Text (dec_nat i)], inline [tx '' ''], Text t]"

fun cfg_text :: "cfg_value \<Rightarrow> jsstring" where
  "cfg_text (CText t) = t"
| "cfg_text (CNum n) = num_to_string n"

definition config_row :: "ModelConfigDiff \<Rightarrow> 'm view" where
  "config_row d =
     Elem ''tr'' [] [] [Elem ''td'' [] [] [tx (mcd_field d)], Elem ''td'' [] [] [Text (cfg_text (mcd_old d))],
                      Elem ''td'' [] [] [Text (cfg_text (mcd_new d))]]"

definition number_option :: "int \<Rightarrow> 'm view" where
  "number_option n = Elem ''option'' [(''value'', PNum (num_of_int n))] [] [Text (dec_int n)]"

definition diff_selects :: "prompts_page \<Rightarrow> prompts_msg view" where
  "diff_selects s =
     box [inline [tx ''From:''],
          Elem ''select'' [(''value'', PNum (num_of_int (diffOldVersion s)))] [OnChange (\<lambda>v. Some (SetDiffOld v))]
            (Elem ''option'' [(''value'', PNum (Fin 0))] [] [tx ''(empty baseline)''] # map number_option VERSION_OPTIONS),
          inline [tx ''To:''],
          Elem ''select'' [(''value'', PNum (num_of_int (diffNewVersion s)))] [OnChange (\<lambda>v. Some (SetDiffNew v))]
            (map number_option VERSION_OPTIONS)]"

text \<open>A click beside the panel closes it; clicks inside do not reach that far.\<close>

definition diff_panel :: "prompts_page \<Rightarrow> prompts_msg view list" where
  "diff_panel s =
     (case diffData s of
        Some (lines, cfg) \<Rightarrow> shown (showDiffPanel s)
          [Elem ''div'' [] [OnClick CloseDiff] [],
           box ([box [Elem ''h2'' [] [] [Text (js ''Compare: '' @ diffPromptName s)],
                      para [Text (js ''Version '' @ dec_int (diffOldVersion s) @ js '' vs '' @ dec_int (diffNewVersion s))],
                      button CloseDiff []],
                 diff_selects s,
                 box [Elem ''h3'' [] [] [tx ''Template Diff''], box (map line_view (enumerate 0 lines))]] @
                shown (cfg \<noteq> [])
                  [Elem ''h3'' [] [] [tx ''Model Config Changes''],
                   Elem ''table'' [] []
                    (Elem ''tr'' [] [] [tx ''Field'', Text (js ''v'' @ dec_int (diffOldVersion s)),
                       Text (js ''v'' @ dec_int (diffNewVersion s))] # map config_row cfg)] @
                [box [inline [tx ''Added''], inline [tx ''Removed'']]])]
      | None \<Rightarrow> [])"

section \<open>The page\<close>

definition prompts_header :: "prompts_page \<Rightarrow> prompts_msg view" where
  "prompts_header s =
     box [Elem ''h1'' [] [] [tx ''Prompt Registry''],
          para [Text (dec_nat (length (pp_prompts s)) @ js '' prompt'' @ (if length (pp_prompts s) \<noteq> 1 then js ''s'' else []) @
            js '' '' @ [0xB7] @ js '' '' @ pp_project s)],
          button ToggleForm [tx ''+ New Prompt'']]"

definition PromptsPage :: "runtime \<Rightarrow> int \<Rightarrow> prompts_page \<Rightarrow> prompts_msg view" where
  "PromptsPage rt now s =
     (if pp_loading s then box [box [], para [tx ''Loading prompts...'']]
      else case truthy_text (pp_error s) of
             Some e \<Rightarrow> box [box [Text [0x26A0]], para [Text e]]
           | None \<Rightarrow>
               box ([prompts_header s] @ shown (showNewPromptForm s) [prompt_form_view rt s] @
                 [if pp_prompts s = []
                  then EmptyState Default (Some (js ''No prompts yet'')) (Some (js ''Create your first prompt to get started''))
                         (Some (js ''+ New Prompt'')) (Some ShowForm)
                  else box (map (prompt_row rt now s) (pp_prompts s))] @
                 diff_panel s))"

section \<open>Runs\<close>

text \<open>The user acts on what is shown, the project changes, and requests are answered in any order.\<close>

inductive prompts_run :: "prompts_page \<Rightarrow> bool" where
  prompts_mount: "prompts_run (mount_prompts project)"
| prompts_user: "prompts_run s \<Longrightarrow> m \<in> emits (PromptsPage rt now s) \<Longrightarrow> prompts_run (prompts_render (prompts_handle m s))"
| prompts_project: "prompts_run s \<Longrightarrow> prompts_run (prompts_render (s\<lparr>pp_project := project\<rparr>))"
| prompts_list: "prompts_run s \<Longrightarrow> pp_calls s = xs @ ListCall p # ys \<Longrightarrow>
    prompts_run (prompts_render (list_end p ps (s\<lparr>pp_calls := xs @ ys\<rparr>)))"
| prompts_models: "prompts_run s \<Longrightarrow> pp_calls s = xs @ ModelsCall # ys \<Longrightarrow>
    prompts_run (prompts_render (models_end ms (s\<lparr>pp_calls := xs @ ys\<rparr>)))"
| prompts_versions: "prompts_run s \<Longrightarrow> pp_calls s = xs @ VersionsCall p n # ys \<Longrightarrow>
    prompts_run (prompts_render (versions_end p n vs (s\<lparr>pp_calls := xs @ ys\<rparr>)))"
| prompts_label: "prompts_run s \<Longrightarrow> pp_calls s = xs @ LabelCall p n l v # ys \<Longrightarrow>
    prompts_run (prompts_render (label_end p n l v r (s\<lparr>pp_calls := xs @ ys\<rparr>)))"
| prompts_create: "prompts_run s \<Longrightarrow> pp_calls s = xs @ CreateCall p b # ys \<Longrightarrow>
    prompts_run (prompts_render (create_end p b cr (s\<lparr>pp_calls := xs @ ys\<rparr>)))"

section \<open>What is posted\<close>

definition text_valid :: "prompt_text \<Rightarrow> bool" where
  "text_valid t \<longleftrightarrow>
     (case t of
        TemplateText v \<Rightarrow> trim v \<noteq> [] \<and> length v \<le> 32000
      | ChatMessages ms \<Rightarrow> ms \<noteq> [] \<and> list_all (\<lambda>m. trim (msg_content m) \<noteq> []) ms)"

definition payload_valid :: "prompt_payload \<Rightarrow> bool" where
  "payload_valid b \<longleftrightarrow>
     name_ok (py_name b) \<and> length (py_name b) \<le> 128 \<and> py_version b = 1 \<and> text_valid (py_text b) \<and>
     (trim (py_model b) = [] \<or> model_ok (py_model b) \<and> length (py_model b) \<le> 64) \<and>
     num_le (Fin 0) (py_temperature b) \<and> num_le (py_temperature b) (Fin 2) \<and> num_le (Fin 1) (py_max_tokens b)"

lemma not_space: "is_word_unit u \<or> u = 0x2D \<Longrightarrow> \<not> is_space_unit u"
  by (auto simp: is_word_unit_def is_digit_unit_def is_space_unit_def word_le_nat_alt)

lemma trim_prompt_name: "name_ok s \<Longrightarrow> trim s = s"
proof -
  assume "name_ok s"
  then have "\<forall>u\<in>set s. \<not> is_space_unit u" using not_space by (auto simp: name_ok_def list_all_iff)
  then have "dropWhile is_space_unit s = s" "dropWhile is_space_unit (rev s) = rev s"
    by (metis dropWhile_eq_self_iff hd_in_set set_rev)+
  then show "trim s = s" by (simp add: trim_def trim_start_def)
qed

lemma num_le_total: "a \<noteq> NaN \<Longrightarrow> b \<noteq> NaN \<Longrightarrow> \<not> num_lt a b \<Longrightarrow> num_le b a"
  by (cases a; cases b) (auto simp: num_le_def)

lemma payload_of_valid:
  assumes "prompt_form_errors f = []" and "newTemperature f \<noteq> NaN" and "newMaxTokens f \<noteq> NaN"
  shows "payload_valid (payload_of f)"
proof -
  have n: "name_ok (newName f)" "length (newName f) \<le> 128"
    using assms(1) by (auto simp: prompt_form_errors_def prompt_name_errors_def split: if_splits)
  have t: "text_valid (py_text (payload_of f))"
    using assms(1) by (auto simp: prompt_form_errors_def template_errors_def payload_of_def text_valid_def
        list_all_iff filter_empty_conv split: if_splits)
  have m: "trim (effectiveModel f) = [] \<or> model_ok (effectiveModel f) \<and> length (effectiveModel f) \<le> 64"
    using assms(1) by (auto simp: prompt_form_errors_def model_errors_def split: if_splits)
  have "\<not> num_lt (newTemperature f) (Fin 0)" "\<not> num_lt (Fin 2) (newTemperature f)" "\<not> num_lt (newMaxTokens f) (Fin 1)"
    using assms(1) by (auto simp: prompt_form_errors_def split: if_splits)
  then have "num_le (Fin 0) (newTemperature f)" "num_le (newTemperature f) (Fin 2)" "num_le (Fin 1) (newMaxTokens f)"
    using assms(2,3) by (simp_all add: num_le_total)
  with n t m show ?thesis by (simp add: payload_valid_def payload_of_def trim_prompt_name)
qed

definition prompts_inv :: "prompts_page \<Rightarrow> bool" where
  "prompts_inv s \<longleftrightarrow>
     newTemperature (pp_form s) \<noteq> NaN \<and> newMaxTokens (pp_form s) \<noteq> NaN \<and>
     (\<forall>p b. CreateCall p b \<in> set (pp_calls s) \<longrightarrow> payload_valid b) \<and>
     (pp_loading s \<longrightarrow> (\<exists>p. ListCall p \<in> set (pp_calls s)) \<or> list_effect s = None) \<and>
     (modelsLoading s \<longrightarrow> ModelsCall \<in> set (pp_calls s))"


lemma prompts_render_frame [simp]:
  "pp_form (prompts_render s) = pp_form s" "versionData (prompts_render s) = versionData s"
  "labelAssignments (prompts_render s) = labelAssignments s" "expandedNames (prompts_render s) = expandedNames s"
  "pp_prompts (prompts_render s) = pp_prompts s" "pp_project (prompts_render s) = pp_project s"
  "version_source (prompts_render s) = version_source s" "list_source (prompts_render s) = list_source s"
  by (simp_all add: prompts_render_def models_effect_run_def list_effect_run_def fetchPrompts_def send_def Let_def)

lemma prompts_render_inv:
  assumes "prompts_inv s"
  shows "prompts_inv (prompts_render s) \<and> list_effect (prompts_render s) = Some (pp_project s)"
  using assms by (auto simp: prompts_inv_def prompts_render_def models_effect_run_def list_effect_run_def
      fetchPrompts_def send_def Let_def)

text \<open>A handler changes neither the spinners nor, but for a new prompt, what is in flight in a way that matters.\<close>

lemma or_0_number: "or_0 n \<noteq> NaN"
  by (auto simp: or_0_def num_truthy_def)

lemma handle_keeps_numbers:
  "newTemperature (pp_form s) \<noteq> NaN \<Longrightarrow> newMaxTokens (pp_form s) \<noteq> NaN \<Longrightarrow>
   newTemperature (pp_form (prompts_handle m s)) \<noteq> NaN \<and> newMaxTokens (pp_form (prompts_handle m s)) \<noteq> NaN"
  by (cases m) (auto simp: edit_form_def or_0_number change_message_def handleCreate_def toggleExpand_def
      fetchVersions_def send_def handleLabelChange_def openDiffPanel_def computeDiff_def closeDiffPanel_def Let_def)

lemma prompts_handle_calls:
  "\<exists>cs. pp_calls (prompts_handle m s) = pp_calls s @ cs \<and>
     (\<forall>p b. CreateCall p b \<in> set cs \<longrightarrow> b = payload_of (pp_form s) \<and> prompt_form_errors (pp_form s) = [])"
  by (cases m) (auto simp: edit_form_def change_message_def handleCreate_def toggleExpand_def
      fetchVersions_def send_def handleLabelChange_def openDiffPanel_def computeDiff_def closeDiffPanel_def Let_def)

lemma prompts_handle_spinners [simp]:
  "pp_loading (prompts_handle m s) = pp_loading s" "modelsLoading (prompts_handle m s) = modelsLoading s"
  "list_effect (prompts_handle m s) = list_effect s"
  by (cases m; simp add: edit_form_def change_message_def handleCreate_def toggleExpand_def
      fetchVersions_def send_def handleLabelChange_def openDiffPanel_def computeDiff_def closeDiffPanel_def Let_def)+

lemma prompts_handle_inv: "prompts_inv s \<Longrightarrow> prompts_inv (prompts_handle m s)"
proof -
  assume inv: "prompts_inv s"
  obtain cs where cs: "pp_calls (prompts_handle m s) = pp_calls s @ cs"
    "\<forall>p b. CreateCall p b \<in> set cs \<longrightarrow> b = payload_of (pp_form s) \<and> prompt_form_errors (pp_form s) = []"
    using prompts_handle_calls by blast
  have "payload_valid b" if "CreateCall p b \<in> set cs" for p b
    using cs(2) that payload_of_valid [of "pp_form s"] inv by (auto simp: prompts_inv_def)
  with inv cs(1) handle_keeps_numbers [of s m] show ?thesis by (auto simp: prompts_inv_def)
qed

lemmas prompts_end_defs = list_end_def models_end_def versions_end_def label_end_def create_end_def fetchPrompts_def
  send_def post_toast_def

lemma prompts_invariant: "prompts_run s \<Longrightarrow> prompts_inv s \<and> list_effect s = Some (pp_project s)"
proof (induction rule: prompts_run.induct)
  case (prompts_mount project)
  have "to_double (7 / 10) \<noteq> NaN" by (simp add: to_double_def Let_def)
  then have "prompts_inv (new_prompts_page project)"
    by (simp add: prompts_inv_def new_prompts_page_def new_form_def)
  then show ?case using prompts_render_inv [of "new_prompts_page project"]
    by (simp add: mount_prompts_def new_prompts_page_def)
next
  case (prompts_user s m rt now)
  then show ?case using prompts_render_inv [OF prompts_handle_inv, of s m] by simp
next
  case (prompts_project s project)
  have "prompts_inv s" using prompts_project.IH by blast
  then have "prompts_inv (s\<lparr>pp_project := project\<rparr>)" by (simp add: prompts_inv_def)
  from prompts_render_inv [OF this] show ?case by simp
next
  case (prompts_list s xs p ys ps)
  then have "prompts_inv (list_end p ps (s\<lparr>pp_calls := xs @ ys\<rparr>))"
    by (cases ps) (auto simp: prompts_inv_def prompts_end_defs)
  from prompts_render_inv [OF this] show ?case by simp
next
  case (prompts_models s xs ys ms)
  then have "prompts_inv (models_end ms (s\<lparr>pp_calls := xs @ ys\<rparr>))"
    by (cases ms) (auto simp: prompts_inv_def prompts_end_defs)
  from prompts_render_inv [OF this] show ?case by simp
next
  case (prompts_versions s xs p n ys vs)
  then have "prompts_inv (versions_end p n vs (s\<lparr>pp_calls := xs @ ys\<rparr>))"
    by (cases vs) (auto simp: prompts_inv_def prompts_end_defs)
  from prompts_render_inv [OF this] show ?case by simp
next
  case (prompts_label s xs p n l v ys r)
  then have "prompts_inv (label_end p n l v r (s\<lparr>pp_calls := xs @ ys\<rparr>))"
    by (cases r) (auto simp: prompts_inv_def prompts_end_defs)
  from prompts_render_inv [OF this] show ?case by simp
next
  case (prompts_create s xs p b ys cr)
  then have "prompts_inv (create_end p b cr (s\<lparr>pp_calls := xs @ ys\<rparr>))"
    by (cases cr) (auto simp: prompts_inv_def prompts_end_defs)
  from prompts_render_inv [OF this] show ?case by simp
qed

text \<open>
  C15: every prompt on its way to the server is one the form's rules allow: a name of word characters and hyphens of
  at most 128, version 1, a template or messages with content, a blank or well-formed model, a temperature
  in [0,2] and at least one token. And a spinner is shown only while the request that ends it is in flight.
\<close>

theorem posted_prompts_valid:
  assumes "prompts_run s"
  shows "(\<forall>p b. CreateCall p b \<in> set (pp_calls s) \<longrightarrow> payload_valid b) \<and>
    (pp_loading s \<longrightarrow> (\<exists>p. ListCall p \<in> set (pp_calls s))) \<and>
    (modelsLoading s \<longrightarrow> ModelsCall \<in> set (pp_calls s))"
proof -
  have "prompts_inv s" "list_effect s \<noteq> None" using prompts_invariant [OF assms] by simp_all
  then show ?thesis unfolding prompts_inv_def by blast
qed


section \<open>Versions and labels of another project\<close>

definition demo_prompt :: PromptListItem where
  "demo_prompt = \<lparr>pi_name = js ''p'', pi_latest_version = 1, pi_labels = []\<rparr>"

definition demo_version :: "string \<Rightarrow> PromptVersion" where
  "demo_version project =
     \<lparr>version_id = js ''v1'', version_project = js project, version_name = js ''p'', version_number = 1,
      is_chat = False, version_template = js project, version_messages = None, version_model = [],
      version_temperature = Fin 0, version_max_tokens = Fin 1, version_created_at = []\<rparr>"

definition listed :: "prompts_page \<Rightarrow> prompts_page" where
  "listed s = list_end (pp_project s) (Ok (Some [demo_prompt])) (s\<lparr>pp_calls := []\<rparr>)"

lemma run_listed:
  assumes "prompts_run s" and "pp_calls s = [ListCall (pp_project s)]" and "models_effect s = Some (showNewPromptForm s)"
  shows "prompts_run (listed s)"
proof -
  have "list_effect s = Some (pp_project s)" using prompts_invariant [OF assms(1)] by blast
  then have "prompts_render (listed s) = listed s"
    using assms(3) by (simp add: listed_def prompts_render_def list_effect_run_def models_effect_run_def list_end_def)
  moreover have "prompts_run (prompts_render (listed s))"
    using prompts_list [OF assms(1), of "[]" "pp_project s" "[]" "Ok (Some [demo_prompt])"] assms(2)
    by (simp add: listed_def)
  ultimately show ?thesis by simp
qed

definition fresh_page :: "jsstring \<Rightarrow> prompts_page" where
  "fresh_page project = (new_prompts_page project)\<lparr>list_effect := Some project, models_effect := Some False,
     pp_calls := [ListCall project]\<rparr>"

lemma mount_fresh: "mount_prompts project = fresh_page project"
  by (simp add: mount_prompts_def prompts_render_def list_effect_run_def models_effect_run_def new_prompts_page_def
      fetchPrompts_def send_def fresh_page_def Let_def)

lemma fresh_simps [simp]:
  "pp_calls (fresh_page project) = [ListCall project]" "pp_project (fresh_page project) = project"
  "models_effect (fresh_page project) = Some False" "showNewPromptForm (fresh_page project) = False"
  "list_effect (fresh_page project) = Some project"
  "expandedNames (fresh_page project) = []" "versionData (fresh_page project) = []"
  "labelAssignments (fresh_page project) = []" "version_source (fresh_page project) = []"
  "pp_error (fresh_page project) = None"
  by (simp_all add: fresh_page_def new_prompts_page_def)

lemma listed_simps [simp]:
  "pp_calls (listed s) = []" "pp_project (listed s) = pp_project s" "pp_loading (listed s) = False"
  "pp_prompts (listed s) = [demo_prompt]" "pp_error (listed s) = pp_error s"
  "expandedNames (listed s) = expandedNames s" "versionData (listed s) = versionData s"
  "labelAssignments (listed s) = labelAssignments s" "version_source (listed s) = version_source s"
  "list_source (listed s) = Some (pp_project s)" "models_effect (listed s) = models_effect s"
  "showNewPromptForm (listed s) = showNewPromptForm s" "list_effect (listed s) = list_effect s"
  by (simp_all add: listed_def list_end_def)

lemma emits_shown_row:
  assumes "\<not> pp_loading s" and "pp_error s = None" and "pp_prompts s = [demo_prompt]"
    and "m \<in> emits (prompt_row rt now s demo_prompt)"
  shows "m \<in> emits (PromptsPage rt now s)"
  using assms by (simp add: PromptsPage_def truthy_text_def)

lemma emits_toggle: "ToggleName (pi_name p) \<in> emits (prompt_row rt now s p)"
  by (simp add: prompt_row_def Let_def)

lemma emits_assign:
  assumes "versions_of (pi_name p) s = [v]" and "pi_name p \<in> set (expandedNames s)" and "label \<in> set LABELS"
  shows "AssignLabel (pi_name p) label (num_to_string (num_of_int (version_number v))) \<in> emits (prompt_row rt now s p)"
proof -
  have "AssignLabel (pi_name p) label (num_to_string (num_of_int (version_number v))) \<in> emits (label_select s p label)"
    using assms(1) by (simp add: label_select_def option_tag_def version_choice_def)
  then have "AssignLabel (pi_name p) label (num_to_string (num_of_int (version_number v))) \<in> emits (version_view rt now s p v)"
    using assms(3) by (auto simp: version_view_def emits_all_map)
  then show ?thesis using assms(1,2) by (simp add: prompt_row_def Let_def)
qed

lemma one_text: "num_to_string (num_of_int 1) = js ''1''" "option_version (js ''1'') = 1"
  by code_simp+



definition filled_form :: prompt_form where
  "filled_form = new_form\<lparr>newName := js ''p'', newTemplate := js ''hi''\<rparr>"

definition form_shown :: "prompt_form \<Rightarrow> prompts_page" where
  "form_shown f = (listed (fresh_page (js ''old'')))\<lparr>showNewPromptForm := True, models_effect := Some True,
     modelsLoading := True, pp_calls := [ModelsCall], pp_form := f\<rparr>"

lemma no_form_errors [simp]: "formErrors (listed (fresh_page project)) = []"
  by (simp add: listed_def list_end_def fresh_page_def new_prompts_page_def)

lemma emits_form_part:
  assumes "m \<in> emits (prompt_form_view rt (s\<lparr>formErrors := e\<rparr>))"
    and "\<not> pp_loading s" "pp_error s = None" "showNewPromptForm s"
  shows "m \<in> emits (PromptsPage rt now (s\<lparr>formErrors := e\<rparr>))"
  using assms by (simp add: PromptsPage_def truthy_text_def shown_def)

lemma emits_form_controls:
  "SetName v \<in> emits (prompt_form_view rt s)" "CreatePrompt \<in> emits (prompt_form_view rt s)"
  "\<not> newChat (pp_form s) \<Longrightarrow> SetTemplate v \<in> emits (prompt_form_view rt s)"
  by (simp_all add: prompt_form_view_def text_field_def text_part_def Let_def)

lemma form_shown_simps [simp]:
  "\<not> pp_loading (form_shown f)" "pp_error (form_shown f) = None" "showNewPromptForm (form_shown f)"
  "pp_form (form_shown f) = f" "pp_calls (form_shown f) = [ModelsCall]" "pp_project (form_shown f) = js ''old''"
  by (simp_all add: form_shown_def)

lemma form_render: "prompts_render ((form_shown f)\<lparr>formErrors := e\<rparr>) = (form_shown f)\<lparr>formErrors := e\<rparr>"
  by (simp add: prompts_render_def list_effect_run_def models_effect_run_def form_shown_def)

lemma run_filled: "prompts_run ((form_shown filled_form)\<lparr>formErrors := [(''name'', []), (''template'', [])]\<rparr>)"
proof -
  fix rt :: runtime and now :: int
  define a where "a = listed (fresh_page (js ''old''))"
  have run_a: "prompts_run a" unfolding a_def
    using prompts_mount [of "js ''old''"] by (intro run_listed) (simp_all add: mount_fresh)
  have "ToggleForm \<in> emits (PromptsPage rt now a)" by (simp add: PromptsPage_def prompts_header_def truthy_text_def a_def)
  from prompts_user [OF run_a this] have b: "prompts_run (form_shown new_form)"
    by (simp add: a_def prompts_render_def list_effect_run_def models_effect_run_def send_def Let_def form_shown_def
        listed_def list_end_def fresh_page_def new_prompts_page_def)
  have b': "(form_shown new_form)\<lparr>formErrors := []\<rparr> = form_shown new_form"
    by (simp add: form_shown_def listed_def list_end_def fresh_page_def new_prompts_page_def)
  have "SetName (js ''p'') \<in> emits (PromptsPage rt now (form_shown new_form))"
    using emits_form_part [where m = "SetName (js ''p'')" and s = "form_shown new_form" and e = "[]"] by (simp add: emits_form_controls b')
  from prompts_user [OF b this]
  have c: "prompts_run ((form_shown (new_form\<lparr>newName := js ''p''\<rparr>))\<lparr>formErrors := [(''name'', [])]\<rparr>)"
    using form_render [where f = "new_form\<lparr>newName := js ''p''\<rparr>" and e = "[(''name'', [])]"]
    by (simp add: edit_form_def b' [symmetric] form_shown_def)
  have "SetTemplate (js ''hi'') \<in> emits (PromptsPage rt now ((form_shown (new_form\<lparr>newName := js ''p''\<rparr>))\<lparr>formErrors := [(''name'', [])]\<rparr>))"
    by (intro emits_form_part emits_form_controls) (simp_all add: new_form_def)
  from prompts_user [OF c this] show ?thesis
    using form_render [where f = filled_form and e = "[(''name'', []), (''template'', [])]"]
    by (simp add: edit_form_def form_shown_def filled_form_def)
qed

lemma filled_ok: "prompt_form_errors filled_form = []"
  by code_simp

theorem posted_prompts_valid_witness:
  "\<exists>s. prompts_run s \<and> CreateCall (js ''old'') (payload_of filled_form) \<in> set (pp_calls s) \<and>
     payload_valid (payload_of filled_form)"
proof -
  fix rt :: runtime and now :: int
  let ?a = "(form_shown filled_form)\<lparr>formErrors := [(''name'', []), (''template'', [])]\<rparr>"
  have "CreatePrompt \<in> emits (PromptsPage rt now ?a)" by (intro emits_form_part emits_form_controls) simp_all
  from prompts_user [OF run_filled this] have run: "prompts_run (prompts_render (prompts_handle CreatePrompt ?a))" .
  have call: "CreateCall (js ''old'') (payload_of filled_form) \<in> set (pp_calls (prompts_render (prompts_handle CreatePrompt ?a)))"
    by (simp add: handleCreate_def filled_ok send_def prompts_render_def list_effect_run_def models_effect_run_def
        fetchPrompts_def Let_def)
  with posted_prompts_valid [OF run] run show ?thesis by blast
qed

end
