(* ===== verification/Datasets.thy ===== *)
theory Datasets
  imports DatasetModals Toasts
begin

text \<open>
  \<open>ui/src/pages/Datasets.tsx\<close>: the parsers of uploaded files, the page's state with its requests and file
  reads in flight, and the handlers, cut at their \<open>await\<close>. An import posts its items in batches; its loop is
  the call \<open>ImportCall\<close>, which carries where it is.
\<close>

section \<open>Comma-separated values\<close>

text \<open>\<open>text.split(/\r?\n/)\<close>: a line ends at a line feed and loses the carriage return before it.\<close>

definition drop_cr :: "jsstring \<Rightarrow> jsstring" where
  "drop_cr l = (if l \<noteq> [] \<and> last l = 0x0D then butlast l else l)"

definition split_lines :: "jsstring \<Rightarrow> jsstring list" where
  "split_lines t = (let ls = split_unit 0x0A t in map drop_cr (butlast ls) @ [last ls])"

record csv_state =
  csv_result :: "jsstring list"
  csv_current :: jsstring
  csv_quoted :: bool

definition csv_step :: "csv_state \<Rightarrow> unit16 \<Rightarrow> csv_state" where
  "csv_step s ch =
     (if csv_quoted s
      then if ch = 0x22 then s\<lparr>csv_quoted := False\<rparr> else s\<lparr>csv_current := csv_current s @ [ch]\<rparr>
      else if ch = 0x22 then s\<lparr>csv_quoted := True\<rparr>
      else if ch = 0x2C then s\<lparr>csv_result := csv_result s @ [trim (csv_current s)], csv_current := []\<rparr>
      else s\<lparr>csv_current := csv_current s @ [ch]\<rparr>)"

definition parseLine :: "jsstring \<Rightarrow> jsstring list" where
  "parseLine line =
     (let s = foldl csv_step \<lparr>csv_result = [], csv_current = [], csv_quoted = False\<rparr> line
      in csv_result s @ [trim (csv_current s)])"

text \<open>
  \<open>toLowerCase\<close>, for the comparison with names of a to z without k and underscores: no letter outside ASCII
  is mapped into those.
\<close>

definition lower_unit :: "unit16 \<Rightarrow> unit16" where
  "lower_unit u = (if 0x41 \<le> u \<and> u \<le> 0x5A then u + 32 else u)"

definition column :: "string \<Rightarrow> jsstring list \<Rightarrow> nat option" where
  "column name headers = (let i = length (takeWhile (\<lambda>h. map lower_unit h \<noteq> js name) headers)
     in if i < length headers then Some i else None)"

text \<open>
  An item. Fields a JSON file gives are any values; of the input only strings pass.
\<close>

record ParsedItem =
  pit_input :: jsstring
  pit_expected_output :: json
  pit_source_span_id :: "json option"

definition cell_at :: "jsstring list \<Rightarrow> nat option \<Rightarrow> jsstring" where
  "cell_at cols i = (case i of Some n \<Rightarrow> if n < length cols then cols ! n else [] | None \<Rightarrow> [])"

definition csv_item :: "nat \<Rightarrow> nat option \<Rightarrow> nat option \<Rightarrow> jsstring list \<Rightarrow> ParsedItem option" where
  "csv_item inputIdx outputIdx spanIdx cols =
     (let input = cell_at cols (Some inputIdx); span_id = cell_at cols spanIdx
      in if input = [] then None
         else Some \<lparr>pit_input = input, pit_expected_output = JStr (cell_at cols outputIdx),
                    pit_source_span_id = (if span_id \<noteq> [] then Some (JStr span_id) else None)\<rparr>)"

definition parseCSV :: "jsstring \<Rightarrow> ParsedItem list" where
  "parseCSV t =
     (case filter (\<lambda>l. trim l \<noteq> []) (split_lines t) of
        h # l # ls \<Rightarrow>
          (let headers = parseLine h in
           case column ''input'' headers of
             None \<Rightarrow> []
           | Some i \<Rightarrow> List.map_filter
               (\<lambda>x. csv_item i (column ''expected_output'' headers) (column ''source_span_id'' headers) (parseLine x))
               (l # ls))
      | _ \<Rightarrow> [])"

section \<open>JSON\<close>

text \<open>Reading a property of \<open>null\<close> throws; an item without a text in \<open>input\<close> is left out.\<close>

definition json_item :: "json \<Rightarrow> (js_error, ParsedItem option) result" where
  "json_item v = and_then (get_prop v ''input'') (\<lambda>input.
     Inr (case input of
            Some (JStr t) \<Rightarrow>
              if t = [] then None
              else Some \<lparr>pit_input = t,
                     pit_expected_output = (case get_prop_opt v ''expected_output'' of
                       Some x \<Rightarrow> if truthy x then x else JStr [] | None \<Rightarrow> JStr []),
                     pit_source_span_id = (case get_prop_opt v ''source_span_id'' of
                       Some x \<Rightarrow> if truthy x then Some x else None | None \<Rightarrow> None)\<rparr>
          | _ \<Rightarrow> None))"

definition parseJSON :: "jsstring \<Rightarrow> (js_error, ParsedItem list) result" where
  "parseJSON t = and_then (JSON_parse t) (\<lambda>v.
     case v of JArr vs \<Rightarrow> and_then (map_result json_item vs) (\<lambda>xs. Inr (List.map_filter (\<lambda>x. x) xs)) | _ \<Rightarrow> Inr [])"

definition parse_file :: "jsstring \<Rightarrow> jsstring \<Rightarrow> (js_error, ParsedItem list) result" where
  "parse_file name t = (if ends_with name (js ''.csv'') then Inr (parseCSV t) else parseJSON t)"

section \<open>State\<close>

definition BATCH_SIZE :: nat where "BATCH_SIZE = 50"

text \<open>What waits for a list to be fetched.\<close>

datatype after_list = NoWait | CreateWaits | ImportWaits jsstring | DeleteWaits

text \<open>The last field of \<open>ImportCall\<close> is a ghost: the batches of this import that were accepted.\<close>

datatype datasets_call =
    ListCall jsstring after_list
  | ReadCall jsstring
  | CreateCall jsstring jsstring "ParsedItem list"
  | ImportCall jsstring jsstring "ParsedItem list" nat "ParsedItem list list"
  | DeleteCall jsstring jsstring

definition batch_at :: "nat \<Rightarrow> ParsedItem list \<Rightarrow> ParsedItem list" where
  "batch_at i items = take BATCH_SIZE (drop i items)"

fun datasets_url :: "datasets_call \<Rightarrow> jsstring option" where
  "datasets_url (ListCall p w) = Some (js ''/api/v1/datasets?project_id='' @ p)"
| "datasets_url (ReadCall f) = None"
| "datasets_url (CreateCall p n items) = Some (js ''/api/v1/datasets?project_id='' @ p)"
| "datasets_url (ImportCall p d items i sent) = Some (js ''/api/v1/datasets/'' @ d @ js ''/items/batch'')"
| "datasets_url (DeleteCall p d) = Some (js ''/api/v1/datasets/'' @ d @ js ''?project_id='' @ p)"

text \<open>
  The last three fields are ghosts: the project the list came from, the file the items were parsed from, and
  the imports that have ended, each with its items, the batches accepted, and whether all were.
\<close>

record datasets_page =
  dp_project :: jsstring
  dp_datasets :: "DatasetItem list"
  dp_loading :: bool
  dp_error :: "jsstring option"
  dp_showNewForm :: bool
  dp_newName :: jsstring
  dp_creating :: bool
  dp_createError :: "jsstring option"
  deleteConfirmId :: "jsstring option"
  dp_deleting :: "jsstring option"
  uploadedFile :: "jsstring option"
  parsedItems :: "ParsedItem list"
  parseError :: "jsstring option"
  importing :: bool
  importProgress :: jsnum
  importError :: "jsstring option"
  dp_effect :: "jsstring option"
  dp_calls :: "datasets_call list"
  dp_toasts :: "(ToastType \<times> jsstring) list"
  dp_opened :: "jsstring list"
  dp_source :: "jsstring option"
  items_file :: "jsstring option"
  dp_imports :: "(ParsedItem list \<times> ParsedItem list list \<times> bool) list"

definition send :: "datasets_call \<Rightarrow> datasets_page \<Rightarrow> datasets_page" where
  "send c s = s\<lparr>dp_calls := dp_calls s @ [c]\<rparr>"

definition post_toast :: "ToastType \<Rightarrow> jsstring \<Rightarrow> datasets_page \<Rightarrow> datasets_page" where
  "post_toast ty m s = s\<lparr>dp_toasts := dp_toasts s @ [(ty, m)]\<rparr>"

section \<open>The list\<close>

definition fetchDatasets :: "jsstring \<Rightarrow> after_list \<Rightarrow> datasets_page \<Rightarrow> datasets_page" where
  "fetchDatasets project w s = send (ListCall project w) (s\<lparr>dp_loading := True, dp_error := None\<rparr>)"

fun list_waiter :: "after_list \<Rightarrow> datasets_page \<Rightarrow> datasets_page" where
  "list_waiter NoWait s = s"
| "list_waiter CreateWaits s = s\<lparr>dp_creating := False\<rparr>"
| "list_waiter (ImportWaits d) s = s\<lparr>dp_opened := dp_opened s @ [d], dp_creating := False\<rparr>"
| "list_waiter DeleteWaits s = s\<lparr>dp_deleting := None\<rparr>"

definition list_end ::
    "jsstring \<Rightarrow> after_list \<Rightarrow> DatasetItem list option reply \<Rightarrow> datasets_page \<Rightarrow> datasets_page" where
  "list_end project w r s = list_waiter w
     ((case r of
         Threw m \<Rightarrow> s\<lparr>dp_error := Some (thrown_text m)\<rparr>
       | NotOk _ \<Rightarrow> s\<lparr>dp_error := Some (js ''Failed to fetch datasets'')\<rparr>
       | Ok ds \<Rightarrow> s\<lparr>dp_datasets := (case ds of Some xs \<Rightarrow> xs | None \<Rightarrow> []), dp_source := Some project\<rparr>)
      \<lparr>dp_loading := False\<rparr>)"

definition datasets_render :: "datasets_page \<Rightarrow> datasets_page" where
  "datasets_render s =
     (if dp_effect s = Some (dp_project s) then s
      else fetchDatasets (dp_project s) NoWait (s\<lparr>dp_effect := Some (dp_project s)\<rparr>))"

section \<open>Files\<close>

definition handleFileChange :: "jsstring \<Rightarrow> datasets_page \<Rightarrow> datasets_page" where
  "handleFileChange name s = send (ReadCall name) (s\<lparr>uploadedFile := Some name, parseError := None\<rparr>)"

definition no_items_text :: jsstring where
  "no_items_text = js ''No valid items found. CSV needs an '' @ [0x27] @ js ''input'' @ [0x27] @
     js '' column; JSON needs an array of objects with '' @ [0x27] @ js ''input'' @ [0x27] @ js '' fields.''"

text \<open>The text of the file, or none if it could not be read.\<close>

definition read_end :: "jsstring \<Rightarrow> jsstring option \<Rightarrow> datasets_page \<Rightarrow> datasets_page" where
  "read_end name content s =
     (case content of
        None \<Rightarrow> s\<lparr>parseError := Some (js ''Failed to read file.'')\<rparr>
      | Some t \<Rightarrow>
          (case parse_file name t of
             Inl e \<Rightarrow> s\<lparr>parseError := Some (js ''Failed to parse file. Ensure it is a valid CSV or JSON file.'')\<rparr>
           | Inr items \<Rightarrow>
               s\<lparr>parsedItems := items, items_file := Some name,
                 parseError := (if items = [] then Some no_items_text else parseError s)\<rparr>))"

definition handleCancelImport :: "datasets_page \<Rightarrow> datasets_page" where
  "handleCancelImport s = s\<lparr>parsedItems := [], uploadedFile := None, parseError := None, importError := None\<rparr>"

section \<open>Creating and importing\<close>

definition handleCreate :: "datasets_page \<Rightarrow> datasets_page" where
  "handleCreate s =
     (if trim (dp_newName s) = [] then s
      else send (CreateCall (dp_project s) (trim (dp_newName s)) (parsedItems s))
             (s\<lparr>dp_creating := True, dp_createError := None\<rparr>))"

definition importItems :: "jsstring \<Rightarrow> jsstring \<Rightarrow> ParsedItem list \<Rightarrow> datasets_page \<Rightarrow> datasets_page" where
  "importItems project d items s =
     send (ImportCall project d items 0 []) (s\<lparr>importing := True, importError := None, importProgress := Fin 0\<rparr>)"

text \<open>The server's identifier, if the dataset was created. The name and the items are those of the click.\<close>

definition create_end ::
    "jsstring \<Rightarrow> jsstring \<Rightarrow> ParsedItem list \<Rightarrow> jsstring reply \<Rightarrow> datasets_page \<Rightarrow> datasets_page" where
  "create_end project name items r s =
     (case r of
        Threw _ \<Rightarrow> s\<lparr>dp_createError := Some (js ''Network error while creating dataset''), dp_creating := False\<rparr>
      | NotOk t \<Rightarrow> s\<lparr>dp_createError := Some (text_or ''Failed to create dataset'' t), dp_creating := False\<rparr>
      | Ok d \<Rightarrow>
          (let s' = s\<lparr>dp_newName := []\<rparr> in
           if items \<noteq> [] then importItems project d items s'
           else fetchDatasets project CreateWaits
                  ((post_toast Success (js ''Dataset '' @ [0x22] @ name @ [0x22] @ js '' created'') s')
                   \<lparr>dp_showNewForm := False, parsedItems := [], uploadedFile := None\<rparr>)))"

definition import_done ::
    "jsstring \<Rightarrow> jsstring \<Rightarrow> ParsedItem list \<Rightarrow> ParsedItem list list \<Rightarrow> bool \<Rightarrow> datasets_page \<Rightarrow> datasets_page" where
  "import_done project d items sent ok s =
     fetchDatasets project (ImportWaits d)
       (s\<lparr>importing := False, parsedItems := [], uploadedFile := None, dp_showNewForm := False,
          dp_imports := dp_imports s @ [(items, sent, ok)]\<rparr>)"

definition progress_of :: "nat \<Rightarrow> nat \<Rightarrow> jsnum" where
  "progress_of n total_items =
     num_min (Fin 100) (num_round (num_mul (num_div (num_of_int (int n)) (num_of_int (int total_items))) (Fin 100)))"

text \<open>One batch was answered: the loop goes on, or it is left with an error.\<close>

definition import_end ::
    "jsstring \<Rightarrow> jsstring \<Rightarrow> ParsedItem list \<Rightarrow> nat \<Rightarrow> ParsedItem list list \<Rightarrow> unit reply \<Rightarrow> datasets_page \<Rightarrow> datasets_page" where
  "import_end project d items i sent r s =
     (case r of
        Threw _ \<Rightarrow> import_done project d items sent False
          (s\<lparr>importError := Some (js ''Network error during import at item '' @ dec_nat (i + 1))\<rparr>)
      | NotOk t \<Rightarrow> import_done project d items sent False
          (s\<lparr>importError := Some (if t \<noteq> [] then t
               else js ''Failed to upload batch starting at item '' @ dec_nat (i + 1))\<rparr>)
      | Ok _ \<Rightarrow>
          (let batch = batch_at i items;
               s' = s\<lparr>importProgress := progress_of (i + length batch) (length items)\<rparr>
           in if i + BATCH_SIZE < length items
              then send (ImportCall project d items (i + BATCH_SIZE) (sent @ [batch])) s'
              else import_done project d items (sent @ [batch]) True s'))"

section \<open>Deleting\<close>

definition handleDelete :: "jsstring \<Rightarrow> datasets_page \<Rightarrow> datasets_page" where
  "handleDelete d s = send (DeleteCall (dp_project s) d) (s\<lparr>dp_deleting := Some d, deleteConfirmId := None\<rparr>)"

definition delete_end :: "jsstring \<Rightarrow> unit reply \<Rightarrow> datasets_page \<Rightarrow> datasets_page" where
  "delete_end project r s =
     (case r of
        Ok _ \<Rightarrow> fetchDatasets project DeleteWaits (post_toast Success (js ''Dataset deleted'') s)
      | _ \<Rightarrow> (post_toast Failure (js ''Failed to delete dataset'') s)\<lparr>dp_deleting := None\<rparr>)"

section \<open>Messages\<close>

datatype datasets_msg =
    ShowNewForm | NameTyped jsstring | CreateDataset | CancelNewForm | ChooseFile jsstring | ClearFile
  | OpenDataset jsstring | AskDelete jsstring | ConfirmDelete jsstring | KeepDataset

fun datasets_handle :: "datasets_msg \<Rightarrow> datasets_page \<Rightarrow> datasets_page" where
  "datasets_handle ShowNewForm s = s\<lparr>dp_showNewForm := True\<rparr>"
| "datasets_handle (NameTyped v) s = s\<lparr>dp_newName := v\<rparr>"
| "datasets_handle CreateDataset s = handleCreate s"
| "datasets_handle CancelNewForm s =
     handleCancelImport (s\<lparr>dp_showNewForm := False, dp_newName := [], dp_createError := None\<rparr>)"
| "datasets_handle (ChooseFile name) s = handleFileChange name s"
| "datasets_handle ClearFile s = handleCancelImport s"
| "datasets_handle (OpenDataset d) s = s\<lparr>dp_opened := dp_opened s @ [d]\<rparr>"
| "datasets_handle (AskDelete d) s = s\<lparr>deleteConfirmId := Some d\<rparr>"
| "datasets_handle (ConfirmDelete d) s = handleDelete d s"
| "datasets_handle KeepDataset s = s\<lparr>deleteConfirmId := None\<rparr>"

definition new_datasets_page :: "jsstring \<Rightarrow> datasets_page" where
  "new_datasets_page project =
     \<lparr>dp_project = project, dp_datasets = [], dp_loading = True, dp_error = None, dp_showNewForm = False,
      dp_newName = [], dp_creating = False, dp_createError = None, deleteConfirmId = None, dp_deleting = None,
      uploadedFile = None, parsedItems = [], parseError = None, importing = False, importProgress = Fin 0,
      importError = None, dp_effect = None, dp_calls = [], dp_toasts = [], dp_opened = [], dp_source = None,
      items_file = None, dp_imports = []\<rparr>"

definition mount_datasets :: "jsstring \<Rightarrow> datasets_page" where
  "mount_datasets project = datasets_render (new_datasets_page project)"

end
