(* ===== verification/DatasetsPage.thy ===== *)
theory DatasetsPage
  imports Datasets Ui
begin

text \<open>
  \<open>ui/src/pages/Datasets.tsx\<close>: what the list of datasets shows, its runs, what a CSV file is read as, and what
  imports post. Styles and drawings are left out.
\<close>

section \<open>What is shown\<close>

definition banner_of :: "jsstring option \<Rightarrow> 'm view list" where
  "banner_of e = (case truthy_text e of Some t \<Rightarrow> [ErrorBanner t None None (js ''Retry'')] | None \<Rightarrow> [])"

definition name_part :: "datasets_page \<Rightarrow> datasets_msg view" where
  "name_part s =
     box [Elem ''input''
            [(''type'', pstr ''text''), (''value'', PStr (dp_newName s)), (''placeholder'', pstr ''Dataset name'')]
            [OnChange (\<lambda>v. Some (NameTyped v)),
             OnKeyDown (\<lambda>k. if k = js ''Enter'' then Some CreateDataset else None)] [],
          button_with [(''disabled'', PBool (trim (dp_newName s) = [] \<or> dp_creating s \<or> importing s))] CreateDataset
            (if dp_creating s then [tx ''Creating'', Text ellipsis] else [tx ''Create'']),
          button CancelNewForm [tx ''Cancel'']]"

definition upload_part :: "datasets_page \<Rightarrow> datasets_msg view" where
  "upload_part s =
     box ([Elem ''label'' [] [] [tx ''Upload CSV or JSON''],
           para [tx ''Each item needs '', inline [tx ''input''], tx '' and '', inline [tx ''expected_output''],
             tx '' fields. CSV uses headers; JSON uses an array of objects. Unknown columns are ignored.'']] @
          (case uploadedFile s of
             None \<Rightarrow> []
           | Some n \<Rightarrow> [box [box [inline [Text n],
                 inline [Text (js ''('' @ dec_nat (length (parsedItems s)) @ js '' items)'')]],
               button ClearFile [Text [0x2715]]]]) @
          [Elem ''input'' [(''type'', pstr ''file''), (''accept'', pstr ''.csv,.json'')]
             [OnChange (\<lambda>n. if n = [] then None else Some (ChooseFile n))] []])"

definition import_part :: "datasets_page \<Rightarrow> datasets_msg view list" where
  "import_part s = shown (importing s)
     [box ([box [inline [Text (js ''Importing '' @ dec_nat (length (parsedItems s)) @ js '' items'' @ ellipsis)],
                 inline [Text (num_to_string (importProgress s) @ js ''%'')]]] @
           banner_of (importError s))]"

definition new_dataset_form :: "datasets_page \<Rightarrow> datasets_msg view" where
  "new_dataset_form s =
     box ([Elem ''h3'' [] [] [tx ''New Dataset''], name_part s, upload_part s] @
          banner_of (parseError s) @ import_part s @ banner_of (dp_createError s))"

definition delete_part :: "datasets_page \<Rightarrow> DatasetItem \<Rightarrow> datasets_msg view" where
  "delete_part s d =
     (if deleteConfirmId s = Some (ds_id d)
      then box [button_with [(''disabled'', PBool (dp_deleting s = Some (ds_id d)))] (ConfirmDelete (ds_id d))
                  [if dp_deleting s = Some (ds_id d) then Text ellipsis else tx ''Delete''],
                button KeepDataset [tx ''Cancel'']]
      else button (AskDelete (ds_id d)) [tx ''Delete''])"

definition dataset_row :: "runtime \<Rightarrow> int \<Rightarrow> datasets_page \<Rightarrow> DatasetItem \<Rightarrow> datasets_msg view" where
  "dataset_row rt now s d =
     box [Elem ''div'' [] [OnClick (OpenDataset (ds_id d))]
            [box [Elem ''h3'' [] [] [Text (ds_name d)]],
             para [Text (num_to_string (ds_item_count d) @ js '' item'' @
               (if num_eq (ds_item_count d) (Fin 1) then [] else js ''s'') @ js '' '' @ [0xB7] @ js '' '' @
               formatTime rt now (ds_created_at d))]],
          box [button (OpenDataset (ds_id d)) [tx ''View''], delete_part s d]]"

definition datasets_content :: "runtime \<Rightarrow> int \<Rightarrow> datasets_page \<Rightarrow> datasets_msg view" where
  "datasets_content rt now s =
     (if dp_loading s then box []
      else case truthy_text (dp_error s) of
             Some e \<Rightarrow> ErrorBanner e None None (js ''Retry'')
           | None \<Rightarrow>
               if dp_datasets s = []
               then box [para [tx ''No datasets found. Create one to evaluate model outputs.'']]
               else box (map (dataset_row rt now s) (dp_datasets s)))"

definition DatasetsPage :: "runtime \<Rightarrow> int \<Rightarrow> datasets_page \<Rightarrow> datasets_msg view" where
  "DatasetsPage rt now s =
     box ([box [Elem ''h1'' [] [] [tx ''Datasets''], button ShowNewForm [tx ''+ New Dataset'']]] @
          shown (dp_showNewForm s) [new_dataset_form s] @ [box [datasets_content rt now s]])"

section \<open>Runs\<close>

text \<open>The user acts on what is shown, the project changes, and requests and file reads end in any order.\<close>

inductive datasets_run :: "datasets_page \<Rightarrow> bool" where
  datasets_mount: "datasets_run (mount_datasets project)"
| datasets_user: "datasets_run s \<Longrightarrow> m \<in> emits (DatasetsPage rt now s) \<Longrightarrow>
    datasets_run (datasets_render (datasets_handle m s))"
| datasets_project: "datasets_run s \<Longrightarrow> datasets_run (datasets_render (s\<lparr>dp_project := project\<rparr>))"
| datasets_list: "datasets_run s \<Longrightarrow> dp_calls s = xs @ ListCall p w # ys \<Longrightarrow>
    datasets_run (datasets_render (list_end p w ds (s\<lparr>dp_calls := xs @ ys\<rparr>)))"
| datasets_read: "datasets_run s \<Longrightarrow> dp_calls s = xs @ ReadCall f # ys \<Longrightarrow>
    datasets_run (datasets_render (read_end f content (s\<lparr>dp_calls := xs @ ys\<rparr>)))"
| datasets_create: "datasets_run s \<Longrightarrow> dp_calls s = xs @ CreateCall p n items # ys \<Longrightarrow>
    datasets_run (datasets_render (create_end p n items r (s\<lparr>dp_calls := xs @ ys\<rparr>)))"
| datasets_import: "datasets_run s \<Longrightarrow> dp_calls s = xs @ ImportCall p d items i sent # ys \<Longrightarrow>
    datasets_run (datasets_render (import_end p d items i sent u (s\<lparr>dp_calls := xs @ ys\<rparr>)))"
| datasets_delete: "datasets_run s \<Longrightarrow> dp_calls s = xs @ DeleteCall p d # ys \<Longrightarrow>
    datasets_run (datasets_render (delete_end p u (s\<lparr>dp_calls := xs @ ys\<rparr>)))"

section \<open>Imports\<close>

definition batch_ok :: "ParsedItem list \<Rightarrow> bool" where
  "batch_ok b \<longleftrightarrow> b \<noteq> [] \<and> length b \<le> BATCH_SIZE"

definition import_call_ok :: "ParsedItem list \<Rightarrow> nat \<Rightarrow> ParsedItem list list \<Rightarrow> bool" where
  "import_call_ok items i sent \<longleftrightarrow> i < length items \<and> concat sent = take i items \<and> list_all batch_ok sent"

definition import_ended_ok :: "ParsedItem list \<times> ParsedItem list list \<times> bool \<Rightarrow> bool" where
  "import_ended_ok e \<longleftrightarrow>
     (case e of (items, sent, ok) \<Rightarrow> list_all batch_ok sent \<and>
        (if ok then concat sent = items else \<exists>rest. rest \<noteq> [] \<and> concat sent @ rest = items))"

definition datasets_inv :: "datasets_page \<Rightarrow> bool" where
  "datasets_inv s \<longleftrightarrow>
     (\<forall>p d items i sent. ImportCall p d items i sent \<in> set (dp_calls s) \<longrightarrow> import_call_ok items i sent) \<and>
     list_all import_ended_ok (dp_imports s) \<and> (importing s \<longrightarrow> importError s = None)"

lemma batch_at_ok: "i < length items \<Longrightarrow> batch_ok (batch_at i items)"
  by (auto simp: batch_ok_def batch_at_def BATCH_SIZE_def)

lemma take_batch: "take i items @ batch_at i items = take (i + BATCH_SIZE) items"
  by (simp add: batch_at_def take_add)

lemma datasets_render_inv: "datasets_inv s \<Longrightarrow> datasets_inv (datasets_render s)"
  by (auto simp: datasets_inv_def datasets_render_def fetchDatasets_def send_def)

lemma datasets_handle_inv: "datasets_inv s \<Longrightarrow> datasets_inv (datasets_handle m s)"
  by (cases m) (auto simp: datasets_inv_def handleCreate_def handleCancelImport_def handleFileChange_def
      handleDelete_def send_def)

lemma list_end_inv: "datasets_inv s \<Longrightarrow> datasets_inv (list_end p w ds s)"
  by (cases w; cases ds) (auto simp: datasets_inv_def list_end_def)

lemma read_end_inv: "datasets_inv s \<Longrightarrow> datasets_inv (read_end f content s)"
  by (auto simp: datasets_inv_def read_end_def split: option.splits sum.splits)

lemma create_end_inv: "datasets_inv s \<Longrightarrow> datasets_inv (create_end p n items r s)"
  by (cases r) (auto simp: datasets_inv_def create_end_def importItems_def fetchDatasets_def post_toast_def send_def
      import_call_ok_def Let_def)

lemma import_end_inv:
  assumes inv: "datasets_inv s" and ok: "import_call_ok items i sent"
  shows "datasets_inv (import_end p d items i sent u s)"
proof -
  have sent: "list_all batch_ok (sent @ [batch_at i items])" and all: "concat (sent @ [batch_at i items]) = take (i + BATCH_SIZE) items"
    using ok batch_at_ok [of i items] take_batch [of i items] by (simp_all add: import_call_ok_def)
  have next_ok: "import_call_ok items (i + BATCH_SIZE) (sent @ [batch_at i items])" if "i + BATCH_SIZE < length items"
    using sent all that by (simp add: import_call_ok_def)
  have done_ok: "import_ended_ok (items, sent @ [batch_at i items], True)" if "\<not> i + BATCH_SIZE < length items"
    using sent all that by (simp add: import_ended_ok_def)
  have "concat sent @ drop i items = items" "drop i items \<noteq> []" using ok by (simp_all add: import_call_ok_def)
  then have cut: "import_ended_ok (items, sent, False)"
    using ok unfolding import_ended_ok_def import_call_ok_def by (auto intro: exI [of _ "drop i items"])
  show ?thesis
  proof (cases u)
    case (Ok x)
    then show ?thesis using inv next_ok done_ok
      by (auto simp: datasets_inv_def import_end_def import_done_def fetchDatasets_def send_def Let_def)
  qed (use inv cut in \<open>auto simp: datasets_inv_def import_end_def import_done_def fetchDatasets_def send_def\<close>)
qed

lemma delete_end_inv: "datasets_inv s \<Longrightarrow> datasets_inv (delete_end p u s)"
  by (cases u) (auto simp: datasets_inv_def delete_end_def fetchDatasets_def post_toast_def send_def)

lemma call_taken:
  "datasets_inv s \<Longrightarrow> dp_calls s = xs @ c # ys \<Longrightarrow> datasets_inv (s\<lparr>dp_calls := xs @ ys\<rparr>)"
  by (auto simp: datasets_inv_def)

lemma datasets_invariant: "datasets_run s \<Longrightarrow> datasets_inv s"
proof (induction rule: datasets_run.induct)
  case (datasets_mount project)
  have "datasets_inv (new_datasets_page project)" by (simp add: datasets_inv_def new_datasets_page_def)
  then show ?case by (simp add: mount_datasets_def datasets_render_inv)
next
  case (datasets_project s project)
  have "datasets_inv (s\<lparr>dp_project := project\<rparr>)" using datasets_project.IH by (simp add: datasets_inv_def)
  then show ?case by (rule datasets_render_inv)
next
  case (datasets_import s xs p d items i sent ys u)
  then have "import_call_ok items i sent" by (auto simp: datasets_inv_def)
  with datasets_import show ?case by (intro datasets_render_inv import_end_inv call_taken)
qed (intro datasets_render_inv datasets_handle_inv list_end_inv read_end_inv create_end_inv delete_end_inv call_taken;
  assumption)+

text \<open>
  C18: in every run, an import that ended without an error was acknowledged for exactly its items, in order and in
  batches of one to fifty; one that ended with an error for a proper beginning of them; and one still going on
  posts the batch that comes next.
\<close>

theorem imports_complete_or_cut:
  assumes "datasets_run s"
  shows "(\<forall>(items, sent, ok)\<in>set (dp_imports s).
      (\<forall>b\<in>set sent. b \<noteq> [] \<and> length b \<le> 50) \<and>
      (if ok then concat sent = items else \<exists>rest. rest \<noteq> [] \<and> concat sent @ rest = items)) \<and>
    (\<forall>p d items i sent. ImportCall p d items i sent \<in> set (dp_calls s) \<longrightarrow>
      batch_at i items \<noteq> [] \<and> concat sent @ batch_at i items = take (i + 50) items)"
proof -
  have inv: "datasets_inv s" using assms by (rule datasets_invariant)
  then have "batch_at i items \<noteq> [] \<and> concat sent @ batch_at i items = take (i + 50) items"
    if "ImportCall p d items i sent \<in> set (dp_calls s)" for p d items i sent
    using that batch_at_ok [of i items] take_batch [of i items]
    by (fastforce simp: datasets_inv_def import_call_ok_def batch_ok_def BATCH_SIZE_def)
  moreover have "\<forall>e\<in>set (dp_imports s). import_ended_ok e" using inv by (simp add: datasets_inv_def list_all_iff)
  ultimately show ?thesis by (fastforce simp: import_ended_ok_def batch_ok_def BATCH_SIZE_def list_all_iff)
qed

lemma parts_without_error:
  "name_part (s\<lparr>importError := e\<rparr>) = name_part s" "upload_part (s\<lparr>importError := e\<rparr>) = upload_part s"
  "datasets_content rt now (s\<lparr>importError := e\<rparr>) = datasets_content rt now s"
proof -
  have row: "dataset_row rt now (s\<lparr>importError := e\<rparr>) d = dataset_row rt now s d" for d
    by (simp add: dataset_row_def delete_part_def)
  then have "dataset_row rt now (s\<lparr>importError := e\<rparr>) = dataset_row rt now s" by (simp add: fun_eq_iff)
  then show "datasets_content rt now (s\<lparr>importError := e\<rparr>) = datasets_content rt now s"
    by (simp add: datasets_content_def split: option.split)
qed (simp_all add: name_part_def upload_part_def split: option.split)

text \<open>
  C19: the error of an import is never shown: whatever it is, the page looks as if there were none.
\<close>

theorem import_errors_never_shown:
  assumes "datasets_run s"
  shows "DatasetsPage rt now (s\<lparr>importError := None\<rparr>) = DatasetsPage rt now s"
proof -
  have "importing s \<Longrightarrow> importError s = None" using datasets_invariant [OF assms] by (simp add: datasets_inv_def)
  then have "import_part (s\<lparr>importError := None\<rparr>) = import_part s" by (simp add: import_part_def shown_def)
  then show ?thesis by (simp add: DatasetsPage_def new_dataset_form_def parts_without_error)
qed

section \<open>A run\<close>

definition demo_datasets :: "jsstring option \<Rightarrow> ParsedItem list \<Rightarrow> jsstring option \<Rightarrow> jsstring option \<Rightarrow> datasets_page" where
  "demo_datasets file items err source =
     (new_datasets_page (js ''p''))\<lparr>dp_effect := Some (js ''p''), dp_showNewForm := True, dp_newName := js ''d'',
       uploadedFile := file, parsedItems := items, parseError := err, items_file := source,
       dp_calls := [ListCall (js ''p'') NoWait]\<rparr>"

lemma demo_datasets_simps [simp]:
  "dp_effect (demo_datasets f items e g) = Some (js ''p'')" "dp_project (demo_datasets f items e g) = js ''p''"
  "dp_showNewForm (demo_datasets f items e g)" "dp_newName (demo_datasets f items e g) = js ''d''"
  "dp_calls (demo_datasets f items e g) = [ListCall (js ''p'') NoWait]" "\<not> dp_creating (demo_datasets f items e g)"
  "\<not> importing (demo_datasets f items e g)" "parsedItems (demo_datasets f items e g) = items"
  "uploadedFile (demo_datasets f items e g) = f" "parseError (demo_datasets f items e g) = e"
  "items_file (demo_datasets f items e g) = g" "dp_imports (demo_datasets f items e g) = []"
  "dp_toasts (demo_datasets f items e g) = []"
  by (simp_all add: demo_datasets_def new_datasets_page_def)

lemma settled_render [simp]: "dp_effect s = Some (dp_project s) \<Longrightarrow> datasets_render s = s"
  by (simp add: datasets_render_def)

lemma emits_form [simp]:
  "dp_showNewForm s \<Longrightarrow> NameTyped v \<in> emits (DatasetsPage rt now s)"
  "dp_showNewForm s \<Longrightarrow> n \<noteq> [] \<Longrightarrow> ChooseFile n \<in> emits (DatasetsPage rt now s)"
  "dp_showNewForm s \<Longrightarrow> trim (dp_newName s) \<noteq> [] \<Longrightarrow> \<not> dp_creating s \<Longrightarrow> \<not> importing s \<Longrightarrow>
     CreateDataset \<in> emits (DatasetsPage rt now s)"
  by (auto simp: DatasetsPage_def new_dataset_form_def name_part_def upload_part_def emits_Elem split: option.splits)

lemma run_dataset_form: "datasets_run (demo_datasets None [] None None)"
proof -
  fix rt :: runtime and now :: int
  let ?m = "mount_datasets (js ''p'')"
  have m: "?m = (new_datasets_page (js ''p''))\<lparr>dp_effect := Some (js ''p''), dp_calls := [ListCall (js ''p'') NoWait]\<rparr>"
    by (simp add: mount_datasets_def datasets_render_def fetchDatasets_def send_def new_datasets_page_def)
  have "ShowNewForm \<in> emits (DatasetsPage rt now ?m)" by (simp add: DatasetsPage_def)
  from datasets_user [OF datasets_mount this] have a: "datasets_run (?m\<lparr>dp_showNewForm := True\<rparr>)"
    by (simp add: m new_datasets_page_def)
  have "NameTyped (js ''d'') \<in> emits (DatasetsPage rt now (?m\<lparr>dp_showNewForm := True\<rparr>))" by simp
  from datasets_user [OF a this] show ?thesis
    by (simp add: m new_datasets_page_def demo_datasets_def)
qed

lemma run_choose:
  assumes "datasets_run (demo_datasets f items e g)" and "n \<noteq> []"
  shows "datasets_run (datasets_render (read_end n content (demo_datasets (Some n) items None g)))"
proof -
  fix rt :: runtime and now :: int
  let ?c = "(demo_datasets (Some n) items None g)\<lparr>dp_calls := [ListCall (js ''p'') NoWait, ReadCall n]\<rparr>"
  have "ChooseFile n \<in> emits (DatasetsPage rt now (demo_datasets f items e g))" using assms(2) by simp
  from datasets_user [OF assms(1) this] have "datasets_run ?c"
    by (simp add: handleFileChange_def send_def demo_datasets_def new_datasets_page_def)
  from datasets_read [OF this, of "[ListCall (js ''p'') NoWait]" n "[]" content] show ?thesis
    by (simp add: demo_datasets_def)
qed

definition hi_item :: ParsedItem where
  "hi_item = \<lparr>pit_input = js ''hi'', pit_expected_output = JStr [], pit_source_span_id = None\<rparr>"

definition hi_text :: jsstring where "hi_text = js ''input'' @ [0x0A] @ js ''hi''"

lemma demo_files:
  "parse_file (js ''a.csv'') hi_text = Inr [hi_item]"
  "\<exists>e. parse_file (js ''b.json'') (js ''x'') = Inl e"
proof -
  show "parse_file (js ''a.csv'') hi_text = Inr [hi_item]" by code_simp
  have "parse_file (js ''b.json'') (js ''x'') = Inl SyntaxError" by code_simp
  then show "\<exists>e. parse_file (js ''b.json'') (js ''x'') = Inl e" by blast
qed

lemma run_hi: "datasets_run (demo_datasets (Some (js ''a.csv'')) [hi_item] None (Some (js ''a.csv'')))"
proof -
  have "read_end (js ''a.csv'') (Some hi_text) (demo_datasets (Some (js ''a.csv'')) [] None None) =
      demo_datasets (Some (js ''a.csv'')) [hi_item] None (Some (js ''a.csv''))"
    by (simp add: read_end_def demo_files(1)) (simp add: demo_datasets_def new_datasets_page_def)
  then show ?thesis
    using run_choose [OF run_dataset_form, of "js ''a.csv''" "Some hi_text"] by simp
qed

definition importing_hi :: datasets_page where
  "importing_hi = (demo_datasets (Some (js ''a.csv'')) [hi_item] None (Some (js ''a.csv'')))
     \<lparr>dp_creating := True, dp_newName := [], importing := True\<rparr>"

lemma run_importing:
  "datasets_run (datasets_render (import_end (js ''p'') (js ''i'') [hi_item] 0 [] u importing_hi))"
proof -
  fix rt :: runtime and now :: int
  let ?a = "demo_datasets (Some (js ''a.csv'')) [hi_item] None (Some (js ''a.csv''))"
  have d: "trim (js ''d'') = js ''d''" by code_simp
  let ?b = "?a\<lparr>dp_creating := True, dp_calls := [ListCall (js ''p'') NoWait, CreateCall (js ''p'') (js ''d'') [hi_item]]\<rparr>"
  have "CreateDataset \<in> emits (DatasetsPage rt now ?a)" by (simp add: d)
  from datasets_user [OF run_hi this] have b: "datasets_run ?b"
    by (simp add: handleCreate_def send_def d) (simp add: demo_datasets_def new_datasets_page_def)
  let ?c = "importing_hi\<lparr>dp_calls := [ListCall (js ''p'') NoWait, ImportCall (js ''p'') (js ''i'') [hi_item] 0 []]\<rparr>"
  from datasets_create [OF b, of "[ListCall (js ''p'') NoWait]" "js ''p''" "js ''d''" "[hi_item]" "[]" "Ok (js ''i'')"]
  have "datasets_run ?c"
    by (simp add: create_end_def importItems_def send_def)
      (simp add: importing_hi_def demo_datasets_def new_datasets_page_def)
  from datasets_import [OF this, of "[ListCall (js ''p'') NoWait]" "js ''p''" "js ''i''" "[hi_item]" 0 "[]" "[]" u]
  moreover have "importing_hi\<lparr>dp_calls := [ListCall (js ''p'') NoWait]\<rparr> = importing_hi"
    by (simp add: importing_hi_def demo_datasets_def new_datasets_page_def)
  ultimately show ?thesis by simp
qed

theorem imports_complete_or_cut_witness:
  "\<exists>s. datasets_run s \<and> dp_imports s = [([hi_item], [[hi_item]], True)] \<and> concat [[hi_item]] = [hi_item]"
proof -
  let ?s = "datasets_render (import_end (js ''p'') (js ''i'') [hi_item] 0 [] (Ok ()) importing_hi)"
  have "dp_imports ?s = [([hi_item], [[hi_item]], True)]"
    by (simp add: import_end_def import_done_def batch_at_def BATCH_SIZE_def fetchDatasets_def send_def
        datasets_render_def importing_hi_def Let_def)
  with run_importing [of "Ok ()"] imports_complete_or_cut [OF run_importing [of "Ok ()"]] show ?thesis
    by (intro exI [of _ ?s]) simp
qed

theorem import_errors_never_shown_witness:
  "\<exists>s. datasets_run s \<and> importError s = Some (js ''Network error during import at item 1'') \<and> dp_toasts s = [] \<and>
     ListCall (js ''p'') (ImportWaits (js ''i'')) \<in> set (dp_calls s) \<and>
     (\<forall>rt now. DatasetsPage rt now (s\<lparr>importError := None\<rparr>) = DatasetsPage rt now s)"
proof -
  let ?s = "datasets_render (import_end (js ''p'') (js ''i'') [hi_item] 0 [] (Threw None) importing_hi)"
  have "js ''Network error during import at item '' @ dec_nat 1 = js ''Network error during import at item 1''"
    by code_simp
  then have "importError ?s = Some (js ''Network error during import at item 1'')" "dp_toasts ?s = []"
    "ListCall (js ''p'') (ImportWaits (js ''i'')) \<in> set (dp_calls ?s)"
    by (simp_all add: import_end_def import_done_def fetchDatasets_def send_def datasets_render_def importing_hi_def)
  with run_importing [of "Threw None"] import_errors_never_shown [OF run_importing [of "Threw None"]] show ?thesis by blast
qed

text \<open>
  When a second file cannot be parsed the items of the first stay: the page shows the second file's name and
  the parse error, offers \<open>Create\<close>, and the dataset then gets the first file's items.
\<close>

theorem items_of_another_file:
  "\<exists>s. datasets_run s \<and> uploadedFile s = Some (js ''b.json'') \<and> items_file s = Some (js ''a.csv'') \<and>
     parseError s = Some (js ''Failed to parse file. Ensure it is a valid CSV or JSON file.'') \<and>
     (\<forall>rt now. CreateDataset \<in> emits (DatasetsPage rt now s)) \<and>
     CreateCall (js ''p'') (js ''d'') [hi_item] \<in> set (dp_calls (datasets_handle CreateDataset s))"
proof -
  let ?s = "demo_datasets (Some (js ''b.json'')) [hi_item]
    (Some (js ''Failed to parse file. Ensure it is a valid CSV or JSON file.'')) (Some (js ''a.csv''))"
  have d: "trim (js ''d'') = js ''d''" by code_simp
  obtain e where e: "parse_file (js ''b.json'') (js ''x'') = Inl e" using demo_files(2) by blast
  have "read_end (js ''b.json'') (Some (js ''x'')) (demo_datasets (Some (js ''b.json'')) [hi_item] None (Some (js ''a.csv''))) = ?s"
    by (simp add: read_end_def e) (simp add: demo_datasets_def new_datasets_page_def)
  then have "datasets_run ?s" using run_choose [OF run_hi, of "js ''b.json''" "Some (js ''x'')"] by simp
  then show ?thesis by (intro exI [of _ ?s]) (simp add: d handleCreate_def send_def)
qed

section \<open>Reading a file of quoted cells\<close>

definition rfc_cell :: "jsstring \<Rightarrow> jsstring" where
  "rfc_cell c = [0x22] @ concat (map (\<lambda>u. if u = 0x22 then [0x22, 0x22] else [u]) c) @ [0x22]"

definition rfc_line :: "jsstring list \<Rightarrow> jsstring" where
  "rfc_line cells = join [0x2C] (map rfc_cell cells)"

definition read_cell :: "jsstring \<Rightarrow> jsstring" where
  "read_cell c = trim (filter (\<lambda>u. u \<noteq> 0x22) c)"

lemma quoted_cell:
  "foldl csv_step \<lparr>csv_result = r, csv_current = cur, csv_quoted = True\<rparr>
     (concat (map (\<lambda>u. if u = 0x22 then [0x22, 0x22] else [u]) c)) =
   \<lparr>csv_result = r, csv_current = cur @ filter (\<lambda>u. u \<noteq> 0x22) c, csv_quoted = True\<rparr>"
  by (induction c arbitrary: cur) (simp_all add: csv_step_def)

lemma fold_rfc_cell:
  "foldl csv_step \<lparr>csv_result = r, csv_current = [], csv_quoted = False\<rparr> (rfc_cell c) =
   \<lparr>csv_result = r, csv_current = filter (\<lambda>u. u \<noteq> 0x22) c, csv_quoted = False\<rparr>"
  unfolding rfc_cell_def foldl_append by (simp add: csv_step_def quoted_cell)

lemma csv_comma:
  "csv_step \<lparr>csv_result = r, csv_current = cur, csv_quoted = False\<rparr> 0x2C =
   \<lparr>csv_result = r @ [trim cur], csv_current = [], csv_quoted = False\<rparr>"
  by (simp add: csv_step_def)

lemma fold_rfc_line:
  "cells \<noteq> [] \<Longrightarrow> (let s = foldl csv_step \<lparr>csv_result = r, csv_current = [], csv_quoted = False\<rparr> (rfc_line cells)
     in csv_result s @ [trim (csv_current s)]) = r @ map read_cell cells"
proof (induction cells arbitrary: r)
  case (Cons c cs)
  show ?case
  proof (cases cs)
    case Nil then show ?thesis by (simp add: rfc_line_def fold_rfc_cell read_cell_def)
  next
    case (Cons d ds)
    then have "rfc_line (c # cs) = rfc_cell c @ [0x2C] @ rfc_line cs" by (simp add: rfc_line_def join_Cons)
    then show ?thesis using Cons.IH [of "r @ [read_cell c]"] Cons
      by (simp add: fold_rfc_cell csv_comma read_cell_def)
  qed
qed simp

lemma parse_rfc_line: "cells \<noteq> [] \<Longrightarrow> parseLine (rfc_line cells) = map read_cell cells"
  using fold_rfc_line [of cells "[]"] by (simp add: parseLine_def)

lemma rfc_cell_end: "last (rfc_cell c) = 0x22" "rfc_cell c \<noteq> []" "hd (rfc_cell c) = 0x22"
  by (simp_all add: rfc_cell_def)

lemma rfc_line_end: "cells \<noteq> [] \<Longrightarrow> rfc_line cells \<noteq> [] \<and> last (rfc_line cells) = 0x22"
proof (induction cells)
  case (Cons c cs)
  then show ?case by (cases cs) (auto simp: rfc_line_def join_Cons rfc_cell_end)
qed simp

lemma set_join: "set (join sep ls) \<subseteq> set sep \<union> (\<Union>l\<in>set ls. set l)"
  by (induction sep ls rule: join.induct) auto

lemma rfc_line_free:
  assumes "\<forall>c\<in>set cells. 0x0A \<notin> set c" shows "0x0A \<notin> set (rfc_line cells)"
proof -
  have "0x0A \<notin> set (rfc_cell c)" if "c \<in> set cells" for c
    using assms that by (auto simp: rfc_cell_def split: if_splits)
  then show ?thesis using set_join [of "[0x2C]" "map rfc_cell cells"] by (auto simp: rfc_line_def)
qed

lemma split_lines_first:
  assumes "0x0A \<notin> set l" and "l \<noteq> []" and "last l \<noteq> 0x0D" and "eol = [0x0A] \<or> eol = [0x0D, 0x0A]"
  shows "split_lines (l @ eol @ t) = l # split_lines t"
proof -
  have "split_unit 0x0A (l @ eol @ t) = (if eol = [0x0A] then l else l @ [0x0D]) # split_unit 0x0A t"
    using assms split_unit_append [of "0x0A" l t] split_unit_append [of "0x0A" "l @ [0x0D]" t] by auto
  then show ?thesis using assms by (auto simp: split_lines_def drop_cr_def Let_def)
qed

definition file_row :: "jsstring \<times> jsstring \<times> jsstring \<Rightarrow> jsstring list" where
  "file_row r = [fst r, fst (snd r), snd (snd r)]"

definition file_header :: "jsstring list" where
  "file_header = [js ''Input'', js ''Expected_Output'', js ''Source_Span_ID'']"

definition csv_file :: "jsstring \<Rightarrow> (jsstring \<times> jsstring \<times> jsstring) list \<Rightarrow> jsstring" where
  "csv_file eol rows = concat (map (\<lambda>cells. rfc_line cells @ eol) (file_header # map file_row rows))"

definition read_row :: "jsstring \<times> jsstring \<times> jsstring \<Rightarrow> ParsedItem option" where
  "read_row r =
     (if read_cell (fst r) = [] then None
      else Some \<lparr>pit_input = read_cell (fst r), pit_expected_output = JStr (read_cell (fst (snd r))),
        pit_source_span_id = (if read_cell (snd (snd r)) \<noteq> [] then Some (JStr (read_cell (snd (snd r)))) else None)\<rparr>)"

lemma split_terminated:
  assumes "\<forall>cells\<in>set rows. cells \<noteq> [] \<and> (\<forall>c\<in>set cells. 0x0A \<notin> set c)" and "eol = [0x0A] \<or> eol = [0x0D, 0x0A]"
  shows "split_lines (concat (map (\<lambda>cells. rfc_line cells @ eol) rows)) = map rfc_line rows @ [[]]"
  using assms(1)
proof (induction rows)
  case Nil show ?case by (simp add: split_lines_def drop_cr_def)
next
  case (Cons cells rows)
  have "split_lines (rfc_line cells @ eol @ concat (map (\<lambda>cells. rfc_line cells @ eol) rows)) =
      rfc_line cells # split_lines (concat (map (\<lambda>cells. rfc_line cells @ eol) rows))"
    using Cons.prems rfc_line_free [of cells] rfc_line_end [of cells] assms(2) by (intro split_lines_first) auto
  then show ?case using Cons by simp
qed

lemma not_blank: "u \<in> set l \<Longrightarrow> \<not> is_space_unit u \<Longrightarrow> trim l \<noteq> []"
proof
  assume u: "u \<in> set l" "\<not> is_space_unit u" and "trim l = []"
  then have "\<forall>v\<in>set (dropWhile is_space_unit l). is_space_unit v" by (simp add: trim_def trim_start_def)
  moreover have "dropWhile is_space_unit l \<noteq> []" using u by (auto simp: dropWhile_eq_Nil_conv)
  ultimately show False using hd_dropWhile [of is_space_unit l] hd_in_set [of "dropWhile is_space_unit l"] by blast
qed

lemma header_columns:
  "column ''input'' (map read_cell file_header) = Some 0"
  "column ''expected_output'' (map read_cell file_header) = Some 1"
  "column ''source_span_id'' (map read_cell file_header) = Some 2"
  by code_simp+

lemma item_of_row: "csv_item 0 (Some 1) (Some 2) (map read_cell (file_row r)) = read_row r"
  by (simp add: csv_item_def file_row_def cell_at_def read_row_def Let_def)




end
