(* ===== verification/Spec2Isabelle.thy ===== *)
theory Spec2Isabelle
  imports Omneval NodeInstrument Diff TimeRange Formatters SpanRollup SpanMessages FilterGroup
    Toasts JsonBlock DashboardView EvalRulesPage SpanKinds DatasetModals TracesPage TraceOverlay PromptsPage DatasetsPage
begin

text \<open>
  A verification library for omneval, an observability product for LLM applications: its TypeScript SDK
  (\<open>sdk/ts/src\<close>) and its web UI (\<open>ui/src\<close>). The servers are Go programs; the modelled code meets them
  through HTTP only, so a server is an argument: the reply to a request.

  The runtime. \<open>Prelude\<close> has results of code that can throw (a sum, \<open>Inl\<close> the error) and insertion-ordered
  maps with their law as a locale. \<open>JsString\<close> keeps strings as UTF-16 units, \<open>JsNumber\<close> keeps numbers as
  exact binary64 values with rounding written out, \<open>Json\<close> has JSON values with a parser and
  \<open>JSON.stringify\<close>, \<open>JsConvert\<close> the conversions between them, \<open>JsDate\<close> the calendar, ISO texts and the
  record \<open>runtime\<close> of what the language leaves open (time zone, other date formats, locale), \<open>Url\<close> the
  percent-encodings, \<open>View\<close> what a React component renders: texts, elements and the messages its handlers
  can send, so that what a user can do on a page is a set.

  The SDK. \<open>SdkTypes\<close> are the types of \<open>types.ts\<close> the code builds. \<open>Ids\<close> is \<open>id.ts\<close>, over the drawn bytes.
  \<open>Exporter\<close> is \<open>exporter.ts\<close> and \<open>node/exporter.ts\<close>: the request of an export and what each outcome of
  \<open>fetch\<close> means. \<open>Tracer\<close> is \<open>tracer.ts\<close>, one definition per method, with \<open>flush\<close> cut at its \<open>await\<close>;
  \<open>TracerLineage\<close> says what the walk to a root trace finds (its fuel is the number of pending spans plus
  one, enough because a longer walk repeats a span); \<open>TracerRuns\<close> lets calls and exports interleave and
  proves that no span is lost, that only ended spans go out, which trace a child joins, and the two
  failures of that design. \<open>Client\<close> is \<open>client.ts\<close> with its two prompt caches, \<open>Omneval\<close> the facade
  \<open>omneval.ts\<close> over tracer and client, \<open>NodeInstrument\<close> is \<open>node/index.ts\<close>, with the OpenTelemetry classes
  as a parameter.

  The UI. \<open>Diff\<close>, \<open>TimeRange\<close>, \<open>Formatters\<close>, \<open>SpanRollup\<close> and \<open>SpanMessages\<close> are the modules of \<open>utils\<close>.
  \<open>Ui\<close> holds the shared components, \<open>Toasts\<close> the toast provider with its timers, \<open>JsonBlock\<close> the JSON
  block, whose HTML is shown to hold no markup of the text, \<open>Theme\<close> the palette, \<open>FilterGroup\<close> the editor of
  filter trees, refined against the relation \<open>edit\<close> of what it may do.
  The dashboard \<open>pages/Dashboard.tsx\<close> is in four theories. \<open>AnalyticsBatch\<close> is its pool of workers as a step
  relation: bounded, in order, and always ending. \<open>Dashboard\<close> has the requests and the time texts,
  \<open>DashboardPage\<close> reads the answers and is the page's state with the loads in flight, \<open>DashboardView EvalRulesPage SpanKinds DatasetModals\<close> what is
  shown.

  How components compose. A page's state is a record; its handlers are functions cut at each \<open>await\<close>; a run
  interleaves user actions, new properties and replies. Effects run after a render whose dependencies
  changed. Ghost fields, named as such, record what happened and are read by no step.

  Hypotheses. They speak of what is not in the sources: the runtime (a fixed time zone parses local times
  as the language standard says), drawn identifiers not repeating, and clocks between 1970 and 9999.

  Not modelled, with the reasons, is listed with the components: class names, styles and drawings; the
  pages for traces, datasets, prompts, settings and administration; the servers and the SDKs in other
  languages. Texts of the engine's own errors are not fixed; where one reaches the screen it is the result
  of a parameter.
\<close>

end
